(* ===== verification/Aegis_Prelude.thy ===== *)
theory Aegis_Prelude
  imports Main "HOL-Library.Word"
begin

text \<open>
  Shared ground of the AegisOS development: the machine integer types of
  kernel/include/types.h, the AEGIS error codes, the first-fit table scan that almost
  every kernel table uses, C strings with bounded copies, and the generic lemmas on
  these that the component theories build on.  The locale \<open>slot_table\<close> states once what
  a fixed table of used/unused slots searched by key promises; the component theories
  interpret it on their own records.
\<close>

unbundle bit_operations_syntax

section \<open>Machine integers and result codes\<close>

type_synonym u8 = "8 word"
type_synonym u16 = "16 word"
type_synonym u32 = "32 word"
type_synonym u64 = "64 word"

abbreviation AEGIS_OK :: int where "AEGIS_OK \<equiv> 0"
abbreviation AEGIS_ENOMEM :: int where "AEGIS_ENOMEM \<equiv> - 1"
abbreviation AEGIS_EINVAL :: int where "AEGIS_EINVAL \<equiv> - 2"
abbreviation AEGIS_EPERM :: int where "AEGIS_EPERM \<equiv> - 3"
abbreviation AEGIS_ENOENT :: int where "AEGIS_ENOENT \<equiv> - 4"
abbreviation AEGIS_EBUSY :: int where "AEGIS_EBUSY \<equiv> - 5"
abbreviation AEGIS_EIO :: int where "AEGIS_EIO \<equiv> - 6"
abbreviation AEGIS_ENOSYS :: int where "AEGIS_ENOSYS \<equiv> - 7"
abbreviation AEGIS_EAGAIN :: int where "AEGIS_EAGAIN \<equiv> - 8"
abbreviation AEGIS_ECHILD :: int where "AEGIS_ECHILD \<equiv> - 9"
abbreviation AEGIS_ETIMEDOUT :: int where "AEGIS_ETIMEDOUT \<equiv> - 10"
abbreviation AEGIS_EEXIST :: int where "AEGIS_EEXIST \<equiv> - 11"
abbreviation AEGIS_ENOSPC :: int where "AEGIS_ENOSPC \<equiv> - 12"
abbreviation AEGIS_ESHUTDOWN :: int where "AEGIS_ESHUTDOWN \<equiv> - 13"

named_theorems table_simps \<open>evaluation of scans and updates of freshly initialised tables\<close>
named_theorems word_facts \<open>bridges between word operations and natural numbers\<close>

section \<open>First-fit scans of fixed tables\<close>

text \<open>
  \<open>scan P xs\<close> is the index of the first entry that satisfies \<open>P\<close>: the meaning of the
  loops \<open>for (i = 0; i < MAX; i++) if (P(table[i])) \<dots>; return\<close>.
\<close>

fun scan :: "('a \<Rightarrow> bool) \<Rightarrow> 'a list \<Rightarrow> nat option" where
  "scan P [] = None"
| "scan P (x # xs) = (if P x then Some 0 else map_option Suc (scan P xs))"

text \<open>C strings are character lists without the terminating NUL.\<close>

fun str_eq :: "string \<Rightarrow> string \<Rightarrow> bool" where
  "str_eq [] [] = True"
| "str_eq (a # as) (b # bs) = (if a \<noteq> b then False else str_eq as bs)"
| "str_eq _ _ = False"

text \<open>
  The copy loops \<open>while (src[i] && i < MAX - 1)\<close> of the kernel keep at most
  \<open>MAX - 1\<close> characters and terminate the destination.
\<close>

fun copy_bounded :: "nat \<Rightarrow> string \<Rightarrow> string" where
  "copy_bounded n [] = []"
| "copy_bounded 0 (c # cs) = []"
| "copy_bounded (Suc n) (c # cs) = c # copy_bounded n cs"

text \<open>
  A chain of early returns \<open>if (c) return e;\<close>: the code of the first condition that holds,
  or success.
\<close>

fun first_fail :: "(bool \<times> int) list \<Rightarrow> int" where
  "first_fail [] = AEGIS_OK"
| "first_fail ((c, e) # rest) = (if c then e else first_fail rest)"

subsection \<open>Facts about scans\<close>

lemma scan_SomeD:
  "scan P xs = Some i \<Longrightarrow> i < length xs \<and> P (xs ! i) \<and> (\<forall>j<i. \<not> P (xs ! j))"
proof (induction xs arbitrary: i)
  case (Cons x xs)
  show ?case
  proof (cases "P x")
    case True
    with Cons.prems show ?thesis by auto
  next
    case False
    with Cons.prems obtain k where k: "scan P xs = Some k" "i = Suc k" by auto
    from Cons.IH [OF k(1)] False k(2) show ?thesis
      by (auto simp: less_Suc_eq_0_disj)
  qed
qed simp

lemma scan_None_iff [simp]: "scan P xs = None \<longleftrightarrow> (\<forall>x\<in>set xs. \<not> P x)"
  by (induction xs) auto

lemma scan_eq_SomeI:
  "i < length xs \<Longrightarrow> P (xs ! i) \<Longrightarrow> (\<And>j. j < i \<Longrightarrow> \<not> P (xs ! j)) \<Longrightarrow> scan P xs = Some i"
proof (induction xs arbitrary: i)
  case (Cons x xs)
  show ?case
  proof (cases i)
    case 0
    with Cons.prems show ?thesis by simp
  next
    case (Suc k)
    have "\<not> P x" using Cons.prems(3) [of 0] Suc by simp
    moreover have "\<not> P (xs ! j)" if "j < k" for j
      using Cons.prems(3) [of "Suc j"] Suc that by simp
    then have "scan P xs = Some k"
      using Cons.prems(1,2) Suc by (intro Cons.IH) auto
    ultimately show ?thesis using Suc by simp
  qed
qed simp

lemma scan_Some_iff:
  "scan P xs = Some i \<longleftrightarrow> i < length xs \<and> P (xs ! i) \<and> (\<forall>j<i. \<not> P (xs ! j))"
  by (blast dest: scan_SomeD intro: scan_eq_SomeI)

lemma scan_less [dest]: "scan P xs = Some i \<Longrightarrow> i < length xs"
  by (simp add: scan_Some_iff)

lemma scan_holds: "scan P xs = Some i \<Longrightarrow> P (xs ! i)"
  by (simp add: scan_Some_iff)

lemma scan_replicate [table_simps]:
  "scan P (replicate n x) = (if 0 < n \<and> P x then Some 0 else None)"
  by (cases n) auto

lemma scan_cong: "(\<And>x. x \<in> set xs \<Longrightarrow> P x = Q x) \<Longrightarrow> scan P xs = scan Q xs"
  by (induction xs) auto

text \<open>An update that neither adds nor removes a hit does not move the scan.\<close>

lemma scan_update_same:
  "(i < length xs \<Longrightarrow> P y = P (xs ! i)) \<Longrightarrow> scan P (xs[i := y]) = scan P xs"
proof (induction xs arbitrary: i)
  case (Cons x xs)
  then show ?case by (cases i) auto
qed simp

text \<open>Filling the only place that can hit makes the scan find exactly it.\<close>

lemma scan_update_hit:
  "scan P xs = None \<Longrightarrow> i < length xs \<Longrightarrow> P y \<Longrightarrow> scan P (xs[i := y]) = Some i"
  by (rule scan_eq_SomeI) (auto simp: nth_list_update)

lemma replicate_update_0 [table_simps]:
  "0 < n \<Longrightarrow> (replicate n x)[0 := y] = y # replicate (n - 1) x"
  by (cases n) auto

subsection \<open>Facts about chains of early returns\<close>

lemma first_fail_OK:
  "(\<forall>(c, e)\<in>set gs. e \<noteq> AEGIS_OK) \<Longrightarrow> first_fail gs = AEGIS_OK \<longleftrightarrow> (\<forall>(c, e)\<in>set gs. \<not> c)"
  by (induction gs rule: first_fail.induct) auto

lemma first_fail_append: "first_fail (gs @ hs) = (if first_fail gs = AEGIS_OK \<and> (\<forall>(c, e)\<in>set gs. \<not> c) then first_fail hs else first_fail gs)"
  by (induction gs rule: first_fail.induct) auto

subsection \<open>Facts about C strings\<close>

lemma str_eq_iff [simp]: "str_eq a b \<longleftrightarrow> a = b"
  by (induction a b rule: str_eq.induct) auto

lemma copy_bounded_take [simp]: "copy_bounded n s = take n s"
  by (induction n s rule: copy_bounded.induct) auto

subsection \<open>Words as numbers\<close>

lemma unat_of_nat_small [word_facts]: "n < 2 ^ LENGTH('a) \<Longrightarrow> unat (of_nat n :: 'a::len word) = n"
  by (simp add: unat_of_nat)

lemma unat_plus_small [word_facts]:
  "unat a + unat b < 2 ^ LENGTH('a) \<Longrightarrow> unat (a + b :: 'a::len word) = unat a + unat b"
  using unat_add_lem by blast

lemma unat_inc [word_facts]:
  "Suc (unat a) < 2 ^ LENGTH('a) \<Longrightarrow> unat (a + 1 :: 'a::len word) = Suc (unat a)"
  using unat_plus_small [of a 1] by simp

lemma unat_dec [word_facts]: "0 < unat a \<Longrightarrow> unat (a - 1 :: 'a::len word) = unat a - 1"
  by (simp add: unat_minus_one unat_gt_0)

lemma unat_lt2p: "unat (w::'a::len word) < 2 ^ LENGTH('a)"
  by (rule unsigned_less)

lemma unat_bounds [word_facts]:
  "unat (a::u8) < 256" "unat (b::u16) < 65536" "unat (c::u32) < 4294967296"
  "unat (d::u64) < 18446744073709551616"
  using unat_lt2p [of a] unat_lt2p [of b] unat_lt2p [of c] unat_lt2p [of d] by simp_all

lemma drop_bit_and_1 [word_facts]: "(drop_bit k w AND 1 \<noteq> 0) = bit (w::'a::len word) k"
  by (simp add: and_one_eq bit_iff_odd_drop_bit odd_iff_mod_2_eq_one)

section \<open>Tables of slots searched by a key\<close>

text \<open>
  The contract of a fixed table whose slots are free or hold a key: an insertion goes to
  the first free slot, a lookup is the first used slot with the key, a removal clears the
  used mark.  A client sees a finite map as long as no key is inserted twice.
\<close>

locale slot_table =
  fixes used :: "'e \<Rightarrow> bool"
    and key :: "'e \<Rightarrow> 'k"
    and fill :: "'e \<Rightarrow> 'k \<Rightarrow> 'v \<Rightarrow> 'e"
    and clear :: "'e \<Rightarrow> 'e"
  assumes used_fill: "used (fill e k v)"
    and key_fill: "key (fill e k v) = k"
    and unused_clear: "\<not> used (clear e)"
begin

abbreviation holds :: "'k \<Rightarrow> 'e \<Rightarrow> bool" where
  "holds k e \<equiv> used e \<and> key e = k"

definition keys_distinct :: "'e list \<Rightarrow> bool" where
  "keys_distinct t \<longleftrightarrow>
     (\<forall>i<length t. \<forall>j<length t. used (t ! i) \<and> used (t ! j) \<and> key (t ! i) = key (t ! j) \<longrightarrow> i = j)"

lemma find_after_fill:
  assumes "scan (\<lambda>e. \<not> used e) t = Some i" and "scan (holds k) t = None"
  shows "scan (holds k) (t[i := fill (t ! i) k v]) = Some i"
  using assms by (intro scan_update_hit) (auto simp: used_fill key_fill)

lemma find_other_after_fill:
  assumes "scan (\<lambda>e. \<not> used e) t = Some i" and "k' \<noteq> k"
  shows "scan (holds k') (t[i := fill (t ! i) k v]) = scan (holds k') t"
  using assms by (intro scan_update_same) (auto simp: used_fill key_fill scan_Some_iff)

lemma keys_distinct_fill:
  assumes "keys_distinct t" and "scan (holds k) t = None" and "i < length t"
  shows "keys_distinct (t[i := fill (t ! i) k v])"
proof -
  have no: "used (t ! j) \<Longrightarrow> key (t ! j) \<noteq> k" if "j < length t" for j
    using assms(2) that nth_mem [OF that] by auto
  show ?thesis
    using assms(1,3) no
    by (auto simp: keys_distinct_def nth_list_update used_fill key_fill split: if_splits)
qed

lemma find_after_clear:
  assumes "keys_distinct t" and "scan (holds k) t = Some i"
  shows "scan (holds k) (t[i := clear (t ! i)]) = None"
proof -
  have hit: "i < length t" "used (t ! i)" "key (t ! i) = k"
    using assms(2) by (auto simp: scan_Some_iff)
  have "\<not> holds k (t[i := clear (t ! i)] ! j)" if "j < length t" for j
    using assms(1) hit that
    by (auto simp: keys_distinct_def nth_list_update unused_clear)
  then show ?thesis by (force simp: in_set_conv_nth)
qed

lemma find_other_after_clear:
  assumes "scan (holds k) t = Some i" and "k' \<noteq> k"
  shows "scan (holds k') (t[i := clear (t ! i)]) = scan (holds k') t"
  using assms by (intro scan_update_same) (auto simp: unused_clear scan_Some_iff)

lemma keys_distinct_clear:
  "keys_distinct t \<Longrightarrow> keys_distinct (t[i := clear (t ! i)])"
  unfolding keys_distinct_def
  by (metis length_list_update nth_list_update nth_list_update_neq unused_clear)

lemma keys_distinct_unused: "(\<forall>e\<in>set t. \<not> used e) \<Longrightarrow> keys_distinct t"
  by (auto simp: keys_distinct_def)

end

end
