(* ===== verification/Phys_Memory.thy ===== *)
theory Phys_Memory
  imports Aegis_Prelude
begin

text \<open>
  kernel/memory/physical_memory.c: the bitmap page-frame allocator.  The state is the
  byte array \<open>bitmap\<close> with its three counters; the bit operations are those of the
  source, byte by byte.  The lemmas relate the bitmap to the set of allocated frames and
  show that the free counter is exact, that an allocation never hands out a frame twice
  and that reservations keep all this.  The locale \<open>page_allocator\<close> is the contract the
  page-table code relies on.
\<close>

section \<open>State and operations\<close>

definition PAGE_SIZE :: nat where "PAGE_SIZE = 4096"
definition MAX_PAGES :: nat where "MAX_PAGES = 1024 * 1024"

record phys_mem =
  bitmap :: "u8 list"
  phys_base :: u64
  total_pages :: u64
  free_pages_count :: u64

definition PAGE_ALIGN_DOWN :: "u64 \<Rightarrow> u64" where
  "PAGE_ALIGN_DOWN x = x AND NOT (4096 - 1)"

definition PAGE_ALIGN :: "u64 \<Rightarrow> u64" where
  "PAGE_ALIGN x = (x + 4096 - 1) AND NOT (4096 - 1)"

definition bitmap_set :: "nat \<Rightarrow> u8 list \<Rightarrow> u8 list" where
  "bitmap_set page bm = bm[page div 8 := (bm ! (page div 8)) OR push_bit (page mod 8) 1]"

definition bitmap_clear :: "nat \<Rightarrow> u8 list \<Rightarrow> u8 list" where
  "bitmap_clear page bm = bm[page div 8 := (bm ! (page div 8)) AND NOT (push_bit (page mod 8) 1)]"

definition bitmap_test :: "nat \<Rightarrow> u8 list \<Rightarrow> bool" where
  "bitmap_test page bm \<longleftrightarrow> drop_bit (page mod 8) (bm ! (page div 8)) AND 1 \<noteq> 0"

definition page_index_for_addr :: "phys_mem \<Rightarrow> u64 \<Rightarrow> u64" where
  "page_index_for_addr m addr =
     (if addr < phys_base m then total_pages m else (addr - phys_base m) div 4096)"

text \<open>The image of the statics before \<open>main\<close>: zeroed by the loader.\<close>

definition phys_mem_bss :: phys_mem where
  "phys_mem_bss = \<lparr>bitmap = replicate (MAX_PAGES div 8) 0, phys_base = 0, total_pages = 0,
                   free_pages_count = 0\<rparr>"

text \<open>The PANIC of an oversized memory is the value \<open>None\<close>.\<close>

definition phys_mem_init :: "u64 \<Rightarrow> u64 \<Rightarrow> phys_mem \<Rightarrow> (int \<times> phys_mem) option" where
  "phys_mem_init base sz m =
     (let total = sz div 4096;
          m' = m\<lparr>phys_base := base, total_pages := total, free_pages_count := total\<rparr>
      in if MAX_PAGES < unat total then None
         else Some (AEGIS_OK,
                    m'\<lparr>bitmap := replicate (unat total div 8) 0 @ drop (unat total div 8) (bitmap m)\<rparr>))"

text \<open>\<open>find_free bm i n\<close> is the search loop from page \<open>i\<close> with \<open>n\<close> pages to go.\<close>

fun find_free :: "u8 list \<Rightarrow> nat \<Rightarrow> nat \<Rightarrow> nat option" where
  "find_free bm i 0 = None"
| "find_free bm i (Suc n) = (if \<not> bitmap_test i bm then Some i else find_free bm (Suc i) n)"

definition phys_alloc_page :: "phys_mem \<Rightarrow> u64 \<times> phys_mem" where
  "phys_alloc_page m =
     (case find_free (bitmap m) 0 (unat (total_pages m)) of
        Some i \<Rightarrow> (phys_base m + of_nat i * 4096,
                   m\<lparr>bitmap := bitmap_set i (bitmap m),
                     free_pages_count := free_pages_count m - 1\<rparr>)
      | None \<Rightarrow> (0, m))"

definition phys_free_page :: "u64 \<Rightarrow> phys_mem \<Rightarrow> phys_mem" where
  "phys_free_page addr m =
     (let page = (addr - phys_base m) div 4096
      in if total_pages m \<le> page then m
         else m\<lparr>bitmap := bitmap_clear (unat page) (bitmap m),
                free_pages_count := free_pages_count m + 1\<rparr>)"

definition phys_mem_free_pages :: "phys_mem \<Rightarrow> u64" where
  "phys_mem_free_pages m = free_pages_count m"

definition phys_mem_total_pages :: "phys_mem \<Rightarrow> u64" where
  "phys_mem_total_pages m = total_pages m"

definition phys_mem_used_pages :: "phys_mem \<Rightarrow> u64" where
  "phys_mem_used_pages m = total_pages m - free_pages_count m"

definition reserve_page :: "nat \<Rightarrow> phys_mem \<Rightarrow> phys_mem" where
  "reserve_page i m =
     (if \<not> bitmap_test i (bitmap m)
      then m\<lparr>bitmap := bitmap_set i (bitmap m),
             free_pages_count := (if 0 < free_pages_count m then free_pages_count m - 1
                                  else free_pages_count m)\<rparr>
      else m)"

definition phys_reserve_range :: "u64 \<Rightarrow> u64 \<Rightarrow> phys_mem \<Rightarrow> int \<times> phys_mem" where
  "phys_reserve_range base sz m =
     (if sz = 0 then (AEGIS_OK, m)
      else if total_pages m = 0 then (AEGIS_EINVAL, m)
      else let start = PAGE_ALIGN_DOWN base; fin = PAGE_ALIGN (base + sz)
           in if fin \<le> phys_base m then (AEGIS_EINVAL, m)
              else let start = (if start < phys_base m then phys_base m else start);
                       first = page_index_for_addr m start;
                       last = page_index_for_addr m (fin - 1)
                   in if total_pages m \<le> first then (AEGIS_EINVAL, m)
                      else let last = (if total_pages m \<le> last then total_pages m - 1 else last)
                           in (AEGIS_OK, fold reserve_page [unat first ..< Suc (unat last)] m))"

definition phys_addr_is_reserved :: "phys_mem \<Rightarrow> u64 \<Rightarrow> bool" where
  "phys_addr_is_reserved m addr =
     (let page = page_index_for_addr m addr
      in if total_pages m \<le> page then False else bitmap_test (unat page) (bitmap m))"

text \<open>The frames handed out or reserved, the free ones, and the invariant of the allocator.\<close>

definition free_frames :: "phys_mem \<Rightarrow> nat set" where
  "free_frames m = {i. i < unat (total_pages m) \<and> \<not> bitmap_test i (bitmap m)}"

definition used_frames :: "phys_mem \<Rightarrow> nat set" where
  "used_frames m = {i. i < unat (total_pages m) \<and> bitmap_test i (bitmap m)}"

definition frame_addr :: "phys_mem \<Rightarrow> nat \<Rightarrow> u64" where
  "frame_addr m i = phys_base m + of_nat i * 4096"

definition phys_inv :: "phys_mem \<Rightarrow> bool" where
  "phys_inv m \<longleftrightarrow> length (bitmap m) = MAX_PAGES div 8 \<and> unat (total_pages m) \<le> MAX_PAGES \<and>
     unat (free_pages_count m) = card (free_frames m)"

text \<open>A memory map in which frame addresses are page aligned, non-null and do not wrap.\<close>

definition phys_layout_ok :: "phys_mem \<Rightarrow> bool" where
  "phys_layout_ok m \<longleftrightarrow> phys_base m \<noteq> 0 \<and> phys_base m AND 4095 = 0 \<and>
     unat (phys_base m) + unat (total_pages m) * 4096 < 2 ^ 64"

section \<open>The bitmap\<close>

lemma bitmap_test_bit: "bitmap_test p bm = bit (bm ! (p div 8)) (p mod 8)"
  by (simp add: bitmap_test_def drop_bit_and_1)

lemma div_mod_8_cases: "p div 8 = q div 8 \<Longrightarrow> p mod 8 = q mod 8 \<Longrightarrow> p = (q::nat)"
  by (metis div_mult_mod_eq)

lemma bitmap_test_set:
  assumes "p div 8 < length bm"
  shows "bitmap_test q (bitmap_set p bm) \<longleftrightarrow> q = p \<or> bitmap_test q bm"
  using assms div_mod_8_cases [of q p]
  by (auto simp: bitmap_test_bit bitmap_set_def nth_list_update bit_or_iff bit_exp_iff)

lemma bitmap_test_clear:
  assumes "p div 8 < length bm"
  shows "bitmap_test q (bitmap_clear p bm) \<longleftrightarrow> q \<noteq> p \<and> bitmap_test q bm"
  using assms div_mod_8_cases [of q p]
  by (auto simp: bitmap_test_bit bitmap_clear_def nth_list_update bit_and_iff bit_not_iff
      bit_exp_iff)

lemma length_bitmap_ops [simp]:
  "length (bitmap_set p bm) = length bm" "length (bitmap_clear p bm) = length bm"
  by (simp_all add: bitmap_set_def bitmap_clear_def)

lemma find_free_Some:
  "find_free bm i n = Some k \<Longrightarrow>
     i \<le> k \<and> k < i + n \<and> \<not> bitmap_test k bm \<and> (\<forall>j. i \<le> j \<and> j < k \<longrightarrow> bitmap_test j bm)"
proof (induction bm i n rule: find_free.induct)
  case (2 bm i n)
  show ?case
  proof (cases "bitmap_test i bm")
    case False
    with "2.prems" show ?thesis by auto
  next
    case True
    with 2 have "Suc i \<le> k \<and> k < Suc i + n \<and> \<not> bitmap_test k bm \<and>
        (\<forall>j. Suc i \<le> j \<and> j < k \<longrightarrow> bitmap_test j bm)" by simp
    with True show ?thesis by (metis Suc_leD Suc_leI add_Suc_shift le_neq_implies_less)
  qed
qed simp

lemma find_free_None: "find_free bm i n = None \<longleftrightarrow> (\<forall>j. i \<le> j \<and> j < i + n \<longrightarrow> bitmap_test j bm)"
proof (induction bm i n rule: find_free.induct)
  case (2 bm i n)
  show ?case
  proof (cases "bitmap_test i bm")
    case True
    have "(\<forall>j. i \<le> j \<and> j < i + Suc n \<longrightarrow> bitmap_test j bm) \<longleftrightarrow>
        (\<forall>j. Suc i \<le> j \<and> j < Suc i + n \<longrightarrow> bitmap_test j bm)"
      using True by (auto simp: Suc_le_eq) (metis le_neq_implies_less)
    with True 2 show ?thesis by simp
  next
    case False
    then show ?thesis by auto
  qed
qed auto

lemma find_free_0_Some:
  "find_free bm 0 n = Some k \<Longrightarrow> k < n \<and> \<not> bitmap_test k bm"
  using find_free_Some [of bm 0 n k] by simp

section \<open>The free set\<close>

lemma finite_free_frames [simp]: "finite (free_frames m)"
  by (rule finite_subset [of _ "{..<unat (total_pages m)}"]) (auto simp: free_frames_def)

lemma used_free_frames: "used_frames m = {..<unat (total_pages m)} - free_frames m"
  by (auto simp: used_frames_def free_frames_def)

text \<open>Within the invariant every page number below the total has its byte in the bitmap.\<close>

lemma phys_inv_byte: "phys_inv m \<Longrightarrow> i < unat (total_pages m) \<Longrightarrow> i div 8 < length (bitmap m)"
  by (auto simp: phys_inv_def MAX_PAGES_def)

lemma free_frames_set:
  assumes "phys_inv m" and "i < unat (total_pages m)"
  shows "free_frames (m\<lparr>bitmap := bitmap_set i (bitmap m), free_pages_count := c\<rparr>) =
         free_frames m - {i}"
  using bitmap_test_set [OF phys_inv_byte [OF assms]] by (auto simp: free_frames_def)

lemma free_frames_clear:
  assumes "phys_inv m" and "i < unat (total_pages m)"
  shows "free_frames (m\<lparr>bitmap := bitmap_clear i (bitmap m), free_pages_count := c\<rparr>) =
         insert i (free_frames m)"
  using bitmap_test_clear [OF phys_inv_byte [OF assms]] assms(2) by (auto simp: free_frames_def)

lemma phys_inv_take:
  assumes inv: "phys_inv m" and i: "i \<in> free_frames m"
  shows "phys_inv (m\<lparr>bitmap := bitmap_set i (bitmap m),
                     free_pages_count := free_pages_count m - 1\<rparr>)"
proof -
  have lt: "i < unat (total_pages m)" using i by (simp add: free_frames_def)
  have pos: "0 < card (free_frames m)" using i by (auto simp: card_gt_0_iff)
  have "unat (free_pages_count m - 1) = card (free_frames m) - 1"
    using inv pos by (simp add: phys_inv_def unat_dec)
  then show ?thesis
    using inv i free_frames_set [OF inv lt] by (simp add: phys_inv_def)
qed

section \<open>Allocation\<close>

lemma phys_alloc_page_cases:
  obtains (oom) "free_frames m = {}" "phys_alloc_page m = (0, m)"
  | (found) i where "i \<in> free_frames m" "\<forall>j\<in>free_frames m. i \<le> j"
      "phys_alloc_page m = (frame_addr m i, m\<lparr>bitmap := bitmap_set i (bitmap m),
                              free_pages_count := free_pages_count m - 1\<rparr>)"
proof (cases "find_free (bitmap m) 0 (unat (total_pages m))")
  case None
  then have "free_frames m = {}" by (auto simp: find_free_None free_frames_def)
  moreover have "phys_alloc_page m = (0, m)" using None by (simp add: phys_alloc_page_def)
  ultimately show ?thesis by (rule oom)
next
  case (Some i)
  have f: "i \<in> free_frames m" using find_free_0_Some [OF Some] by (simp add: free_frames_def)
  have least: "\<forall>j\<in>free_frames m. i \<le> j"
    using find_free_Some [OF Some] by (auto simp: free_frames_def not_le intro: leI)
  show ?thesis
    by (rule found [OF f least]) (simp add: phys_alloc_page_def Some frame_addr_def)
qed

lemma phys_alloc_page_inv: "phys_inv m \<Longrightarrow> phys_inv (snd (phys_alloc_page m))"
  by (cases m rule: phys_alloc_page_cases) (auto simp: phys_inv_take)

lemma phys_alloc_page_frame [simp]:
  "phys_base (snd (phys_alloc_page m)) = phys_base m"
  "total_pages (snd (phys_alloc_page m)) = total_pages m"
  by (simp_all add: phys_alloc_page_def split: option.splits)

lemma phys_layout_alloc [simp]:
  "phys_layout_ok (snd (phys_alloc_page m)) = phys_layout_ok m"
  by (simp add: phys_layout_ok_def)

lemma used_frames_set:
  assumes "phys_inv m" and "i < unat (total_pages m)"
  shows "used_frames (m\<lparr>bitmap := bitmap_set i (bitmap m), free_pages_count := c\<rparr>) =
         insert i (used_frames m)"
  using bitmap_test_set [OF phys_inv_byte [OF assms]] assms(2) by (auto simp: used_frames_def)

section \<open>Frame addresses\<close>

lemma page_aligned_iff: "(x::u64) AND 4095 = 0 \<longleftrightarrow> unat x mod 4096 = 0"
proof -
  have "x AND 4095 = take_bit 12 x" by (simp add: take_bit_eq_mask mask_eq_exp_minus_1)
  then have "unat (x AND 4095) = unat x mod 4096"
    by (simp add: take_bit_eq_mod unat_mod)
  then show ?thesis by (metis unat_eq_zero)
qed

lemma unat_frame_addr:
  assumes "phys_layout_ok m" and "i < unat (total_pages m)"
  shows "unat (frame_addr m i) = unat (phys_base m) + i * 4096"
proof -
  have "frame_addr m i = of_nat (unat (phys_base m) + i * 4096)"
    by (simp add: frame_addr_def)
  moreover have "unat (phys_base m) + i * 4096 < 2 ^ 64"
    using assms by (auto simp: phys_layout_ok_def)
  ultimately show ?thesis by (simp only:) (rule unat_of_nat_small, simp)
qed

lemma frame_addr_inj:
  assumes "phys_layout_ok m" and "i < unat (total_pages m)" and "j < unat (total_pages m)"
  shows "frame_addr m i = frame_addr m j \<longleftrightarrow> i = j"
proof
  assume "frame_addr m i = frame_addr m j"
  then have "unat (phys_base m) + i * 4096 = unat (phys_base m) + j * 4096"
    using unat_frame_addr [OF assms(1,2)] unat_frame_addr [OF assms(1,3)] by metis
  then show "i = j" by simp
qed simp

lemma frame_addr_nonzero: "phys_layout_ok m \<Longrightarrow> i < unat (total_pages m) \<Longrightarrow> frame_addr m i \<noteq> 0"
  using unat_frame_addr [of m i] by (metis add_is_0 phys_layout_ok_def unat_0 unat_0_iff)

lemma frame_addr_aligned:
  "phys_layout_ok m \<Longrightarrow> i < unat (total_pages m) \<Longrightarrow> frame_addr m i AND 4095 = 0"
  by (simp add: page_aligned_iff unat_frame_addr) (simp add: page_aligned_iff phys_layout_ok_def)

text \<open>The index computation of \<open>phys_free_page\<close> inverts the address computation.\<close>

lemma frame_index:
  assumes "i < MAX_PAGES"
  shows "unat ((frame_addr m i - phys_base m) div 4096) = i"
proof -
  have "unat (of_nat (i * 4096) :: u64) = i * 4096"
    using assms by (intro unat_of_nat_small) (simp add: MAX_PAGES_def)
  then show ?thesis by (simp add: frame_addr_def unat_div)
qed

section \<open>Release\<close>

lemma phys_free_page_frame:
  assumes "phys_inv m" and "i < unat (total_pages m)"
  shows "phys_free_page (frame_addr m i) m =
    m\<lparr>bitmap := bitmap_clear i (bitmap m), free_pages_count := free_pages_count m + 1\<rparr>"
proof -
  have "unat ((frame_addr m i - phys_base m) div 4096) = i"
    using assms by (intro frame_index) (simp add: phys_inv_def)
  then show ?thesis using assms(2) by (simp add: phys_free_page_def word_le_nat_alt)
qed

lemma phys_free_page_inv:
  assumes "phys_inv m" and "i \<in> used_frames m"
  shows "phys_inv (phys_free_page (frame_addr m i) m)"
proof -
  have i: "i < unat (total_pages m)" "i \<notin> free_frames m"
    using assms(2) by (auto simp: used_free_frames)
  have "card (insert i (free_frames m)) \<le> card {..<unat (total_pages m)}"
    using i(1) by (intro card_mono) (auto simp: free_frames_def)
  then have "Suc (card (free_frames m)) \<le> MAX_PAGES"
    using i assms(1) by (simp add: phys_inv_def)
  then have "unat (free_pages_count m + 1) = Suc (card (free_frames m))"
    using assms(1) by (simp add: phys_inv_def MAX_PAGES_def unat_inc)
  then show ?thesis
    using assms(1) i free_frames_clear [OF assms(1) i(1)]
    by (simp add: phys_free_page_frame phys_inv_def)
qed

text \<open>Freeing a frame that is already free counts it twice.\<close>

lemma phys_double_free_count:
  assumes "phys_inv m" and "i \<in> free_frames m"
  shows "free_frames (phys_free_page (frame_addr m i) m) = free_frames m"
    and "free_pages_count (phys_free_page (frame_addr m i) m) = free_pages_count m + 1"
proof -
  have i: "i < unat (total_pages m)" using assms(2) by (simp add: free_frames_def)
  show "free_frames (phys_free_page (frame_addr m i) m) = free_frames m"
    and "free_pages_count (phys_free_page (frame_addr m i) m) = free_pages_count m + 1"
    using assms(2) free_frames_clear [OF assms(1) i] phys_free_page_frame [OF assms(1) i]
    by (auto simp: insert_absorb)
qed

lemma bitmap_clear_set:
  assumes "p div 8 < length bm" and "\<not> bitmap_test p bm"
  shows "bitmap_clear p (bitmap_set p bm) = bm"
proof -
  have "(bm ! (p div 8) OR 2 ^ (p mod 8)) AND NOT (2 ^ (p mod 8)) = bm ! (p div 8)"
    using assms(2)
    by (intro bit_word_eqI) (auto simp: bitmap_test_bit bit_or_iff bit_and_iff bit_not_iff bit_exp_iff)
  then show ?thesis using assms(1) by (simp add: bitmap_clear_def bitmap_set_def)
qed

lemma phys_free_after_alloc:
  assumes "phys_inv m" and "free_frames m \<noteq> {}"
  shows "phys_free_page (fst (phys_alloc_page m)) (snd (phys_alloc_page m)) = m"
proof (cases m rule: phys_alloc_page_cases)
  case oom
  with assms(2) show ?thesis by simp
next
  case (found i)
  define m' where "m' = m\<lparr>bitmap := bitmap_set i (bitmap m), free_pages_count := free_pages_count m - 1\<rparr>"
  have i: "i < unat (total_pages m)" "\<not> bitmap_test i (bitmap m)"
    using found(1) by (auto simp: free_frames_def)
  have "phys_inv m'" using phys_inv_take [OF assms(1) found(1)] by (simp add: m'_def)
  then have "phys_free_page (frame_addr m' i) m' =
      m'\<lparr>bitmap := bitmap_clear i (bitmap m'), free_pages_count := free_pages_count m' + 1\<rparr>"
    using i by (intro phys_free_page_frame) (auto simp: m'_def)
  also have "\<dots> = m"
    using bitmap_clear_set [OF phys_inv_byte [OF assms(1) i(1)] i(2)] by (simp add: m'_def)
  finally show ?thesis using found(3) by (simp add: m'_def frame_addr_def)
qed

section \<open>Reservation\<close>

lemma reserve_page_simps [simp]:
  "phys_base (reserve_page i m) = phys_base m" "total_pages (reserve_page i m) = total_pages m"
  by (simp_all add: reserve_page_def)

lemma reserve_page_step:
  assumes "phys_inv m" and "i < unat (total_pages m)"
  shows "phys_inv (reserve_page i m)" and "used_frames (reserve_page i m) = insert i (used_frames m)"
proof (atomize (full), cases "bitmap_test i (bitmap m)")
  case True
  then show "phys_inv (reserve_page i m) \<and> used_frames (reserve_page i m) = insert i (used_frames m)"
    using assms by (auto simp: reserve_page_def used_frames_def)
next
  case False
  then have free: "i \<in> free_frames m" using assms by (simp add: free_frames_def)
  then have "0 < card (free_frames m)" by (auto simp: card_gt_0_iff)
  then have "0 < free_pages_count m" using assms(1) by (simp add: phys_inv_def word_less_nat_alt)
  then have eq: "reserve_page i m = m\<lparr>bitmap := bitmap_set i (bitmap m),
      free_pages_count := free_pages_count m - 1\<rparr>"
    using False by (simp add: reserve_page_def)
  show "phys_inv (reserve_page i m) \<and> used_frames (reserve_page i m) = insert i (used_frames m)"
    using phys_inv_take [OF assms(1) free] used_frames_set [OF assms] by (simp add: eq)
qed

lemma fold_reserve_page:
  assumes "phys_inv m" and "\<forall>i\<in>set is. i < unat (total_pages m)"
  shows "phys_inv (fold reserve_page is m) \<and>
         used_frames (fold reserve_page is m) = used_frames m \<union> set is \<and>
         phys_base (fold reserve_page is m) = phys_base m \<and>
         total_pages (fold reserve_page is m) = total_pages m"
  using assms
proof (induction "is" arbitrary: m)
  case (Cons i "is")
  then show ?case using reserve_page_step [of m i] by auto
qed simp

lemma unat_page_align_down: "unat (PAGE_ALIGN_DOWN x) = unat x div 4096 * 4096"
proof -
  have "x AND NOT (mask 12) = push_bit 12 (drop_bit 12 x)"
    by (rule bit_word_eqI) (auto simp: bit_simps)
  then have "PAGE_ALIGN_DOWN x = x div 4096 * 4096"
    by (simp add: PAGE_ALIGN_DOWN_def mask_eq_exp_minus_1 push_bit_eq_mult drop_bit_eq_div)
  moreover have "unat (x div 4096) * unat (4096::u64) < 2 ^ 64"
    using unat_bounds(4) [of x] by (simp add: unat_div)
  ultimately show ?thesis
    using unat_mult_lem [of "x div 4096" 4096] by (simp add: unat_div)
qed

lemma page_align_eq: "PAGE_ALIGN x = PAGE_ALIGN_DOWN (x + 4095)"
  by (simp add: PAGE_ALIGN_def PAGE_ALIGN_DOWN_def add.commute)

text \<open>Frame \<open>i\<close> shares a byte with the \<open>s\<close> bytes from address \<open>b\<close>.\<close>

definition frame_touches :: "phys_mem \<Rightarrow> nat \<Rightarrow> nat \<Rightarrow> nat \<Rightarrow> bool" where
  "frame_touches m b s i \<longleftrightarrow>
     b < unat (phys_base m) + (i + 1) * 4096 \<and> unat (phys_base m) + i * 4096 < b + s"

lemma reserve_first:
  "(max (b div 4096 * 4096) (4096 * k) - 4096 * k) div 4096 \<le> i \<longleftrightarrow>
     b < 4096 * k + (i + 1) * (4096::nat)"
proof -
  have "max (b div 4096 * 4096) (4096 * k) - 4096 * k = (b div 4096 - k) * 4096"
    by (auto simp: max_def diff_mult_distrib)
  then have "(max (b div 4096 * 4096) (4096 * k) - 4096 * k) div 4096 = b div 4096 - k" by simp
  then show ?thesis by (simp add: le_diff_conv) linarith
qed

lemma reserve_last:
  assumes "0 < s" and "4096 * k < (b + s + 4095) div 4096 * 4096"
  shows "i \<le> ((b + s + 4095) div 4096 * 4096 - 1 - 4096 * k) div 4096 \<longleftrightarrow>
         4096 * k + i * 4096 < b + (s::nat)"
proof -
  define E where "E = (b + s + 4095) div 4096"
  have "k < E" using assms(2) by (simp add: E_def)
  then obtain d where d: "E = k + d + 1" by (metis Suc_eq_plus1 add_Suc_right less_imp_Suc_add)
  have "E * 4096 - 1 - 4096 * k = 4095 + d * 4096" by (simp add: d)
  then have "(E * 4096 - 1 - 4096 * k) div 4096 = d" by simp
  moreover have "i \<le> d \<longleftrightarrow> i + k < E" by (auto simp: d)
  moreover have "i + k < E \<longleftrightarrow> (i + k) * 4096 < b + s"
    unfolding E_def Suc_le_eq [symmetric] by (simp add: less_eq_div_iff_mult_less_eq)
  ultimately show ?thesis by (simp add: E_def algebra_simps)
qed

lemma reserve_index:
  assumes "phys_layout_ok m" and "phys_base m \<le> a"
  shows "unat (page_index_for_addr m a) = (unat a - unat (phys_base m)) div 4096"
  using assms(2) by (simp add: page_index_for_addr_def unat_div unat_sub leD)

lemma reserve_range_frames:
  assumes inv: "phys_inv m" and lay: "phys_layout_ok m"
    and pos: "sz \<noteq> 0" and nowrap: "unat base + unat sz + 4095 < 2 ^ 64"
    and ok: "phys_reserve_range base sz m = (AEGIS_OK, m')"
  shows "phys_inv m' \<and> used_frames m' = used_frames m \<union>
     {i. i < unat (total_pages m) \<and> frame_touches m (unat base) (unat sz) i}"
proof -
  define b where "b = unat base"
  define s where "s = unat sz"
  define t where "t = unat (total_pages m)"
  obtain k where k: "unat (phys_base m) = 4096 * k"
    using lay by (auto simp: phys_layout_ok_def page_aligned_iff)
  have s: "0 < s" using pos by (simp add: s_def unat_gt_0)
  define fin where "fin = PAGE_ALIGN (base + sz)"
  have fin: "unat fin = (b + s + 4095) div 4096 * 4096"
  proof -
    have bs: "unat (base + sz) = b + s"
      using nowrap by (simp add: b_def s_def unat_plus_small)
    have "unat (base + sz + 4095) = b + s + 4095"
      using nowrap unat_plus_small [of "base + sz" 4095] by (simp add: bs b_def s_def)
    then show ?thesis by (simp add: fin_def page_align_eq unat_page_align_down)
  qed
  define st where "st = (if PAGE_ALIGN_DOWN base < phys_base m then phys_base m else PAGE_ALIGN_DOWN base)"
  have st: "unat st = max (b div 4096 * 4096) (4096 * k)" "phys_base m \<le> st"
    using k by (auto simp: st_def b_def unat_page_align_down word_less_nat_alt word_le_nat_alt max_def)
  define first where "first = page_index_for_addr m st"
  define last0 where "last0 = page_index_for_addr m (fin - 1)"
  define last' where "last' = (if total_pages m \<le> last0 then total_pages m - 1 else last0)"
  have G: "\<not> fin \<le> phys_base m" "\<not> total_pages m \<le> first" "total_pages m \<noteq> 0"
    and m': "m' = fold reserve_page [unat first ..< Suc (unat last')] m"
    using ok pos unfolding phys_reserve_range_def Let_def
    by (auto simp: fin_def st_def first_def last0_def last'_def split: if_splits)
  have fk: "4096 * k < unat fin" using G(1) k by (simp add: word_le_nat_alt)
  have fin1: "unat (fin - 1) = unat fin - 1" "phys_base m \<le> fin - 1"
    using fk k by (simp_all add: unat_dec word_le_nat_alt)
  have f: "unat first \<le> i \<longleftrightarrow> b < 4096 * k + (i + 1) * 4096" for i
    using reserve_index [OF lay st(2)] reserve_first [of b k i] by (simp add: first_def st(1) k)
  have l0: "i \<le> unat last0 \<longleftrightarrow> 4096 * k + i * 4096 < b + s" for i
    using reserve_index [OF lay fin1(2)] reserve_last [OF s, of k b i] fk
    by (simp add: last0_def fin1(1) fin k)
  have l: "i \<le> unat last' \<longleftrightarrow> i < t \<and> 4096 * k + i * 4096 < b + s" for i
  proof (cases "total_pages m \<le> last0")
    case True
    then have "unat last' = t - 1" "0 < t" "t \<le> unat last0"
      using G(3) by (auto simp: last'_def t_def unat_dec unat_gt_0 word_le_nat_alt)
    then show ?thesis using l0 [of i] by auto
  next
    case False
    then have "last' = last0" by (simp add: last'_def)
    moreover have "unat last0 < t" using False by (simp add: t_def word_less_nat_alt not_le)
    ultimately show ?thesis by (metis l0 le_less_trans)
  qed
  have rng: "set [unat first ..< Suc (unat last')] =
      {i. i < unat (total_pages m) \<and> frame_touches m (unat base) (unat sz) i}"
    unfolding frame_touches_def k b_def [symmetric] s_def [symmetric] t_def [symmetric] set_upt
    by (intro set_eqI) (simp only: atLeastLessThan_iff mem_Collect_eq less_Suc_eq_le f l, blast)
  show ?thesis
    using fold_reserve_page [OF inv, of "[unat first ..< Suc (unat last')]"]
    unfolding m' rng by blast
qed

section \<open>Initialisation\<close>

lemma phys_mem_init_inv:
  assumes init: "phys_mem_init base sz m = Some (r, m')" and len: "length (bitmap m) = MAX_PAGES div 8"
  shows "phys_inv m' \<longleftrightarrow>
    (\<forall>p. unat (sz div 4096) div 8 * 8 \<le> p \<and> p < unat (sz div 4096) \<longrightarrow> \<not> bitmap_test p (bitmap m))"
proof -
  define t where "t = unat (sz div 4096)"
  have t: "t \<le> MAX_PAGES" and tot: "unat (total_pages m') = t" "unat (free_pages_count m') = t"
    and bm: "bitmap m' = replicate (t div 8) 0 @ drop (t div 8) (bitmap m)"
    using init by (auto simp: phys_mem_init_def Let_def t_def split: if_splits)
  have len': "length (bitmap m') = MAX_PAGES div 8"
    using len div_le_mono [OF t, of 8] by (simp add: bm)
  have low: "\<not> bitmap_test p (bitmap m')" if "p < t div 8 * 8" for p
    using that by (simp add: bm bitmap_test_bit nth_append div_less_iff_less_mult)
  have high: "bitmap_test p (bitmap m') = bitmap_test p (bitmap m)" if "t div 8 * 8 \<le> p" "p < t" for p
  proof -
    have "t div 8 \<le> p div 8" using div_le_mono [OF that(1), of 8] by simp
    moreover have "t div 8 \<le> length (bitmap m)" using div_le_mono [OF t, of 8] len by simp
    ultimately show ?thesis by (simp add: bm bitmap_test_bit nth_append)
  qed
  have "phys_inv m' \<longleftrightarrow> card (free_frames m') = card {..<t}"
    using len' t tot by (auto simp: phys_inv_def)
  also have "\<dots> \<longleftrightarrow> free_frames m' = {..<t}"
  proof
    assume "card (free_frames m') = card {..<t}"
    moreover have "free_frames m' \<subseteq> {..<t}" by (auto simp: free_frames_def tot)
    ultimately show "free_frames m' = {..<t}" by (intro card_subset_eq) simp_all
  qed simp
  also have "\<dots> \<longleftrightarrow> (\<forall>p. t div 8 * 8 \<le> p \<and> p < t \<longrightarrow> \<not> bitmap_test p (bitmap m))"
    using low high by (auto simp: free_frames_def tot) (meson not_le)
  finally show ?thesis by (simp add: t_def)
qed

lemma bitmap_test_bss: "p div 8 < MAX_PAGES div 8 \<Longrightarrow> \<not> bitmap_test p (bitmap phys_mem_bss)"
  by (simp add: bitmap_test_bit phys_mem_bss_def)

section \<open>The contract of a page allocator\<close>

text \<open>\<open>alloc_seq f n m\<close> collects the results of \<open>n\<close> successive calls of an allocator \<open>f\<close>.\<close>

fun alloc_seq :: "('m \<Rightarrow> u64 \<times> 'm) \<Rightarrow> nat \<Rightarrow> 'm \<Rightarrow> u64 list \<times> 'm" where
  "alloc_seq f 0 m = ([], m)"
| "alloc_seq f (Suc n) m =
     (let (a, m1) = f m; (as, m2) = alloc_seq f n m1 in (a # as, m2))"

locale page_allocator =
  fixes alloc :: "'m \<Rightarrow> u64 \<times> 'm"
    and inv :: "'m \<Rightarrow> bool"
    and owned :: "'m \<Rightarrow> u64 set"
  assumes alloc_inv: "inv m \<Longrightarrow> inv (snd (alloc m))"
    and alloc_fresh: "inv m \<Longrightarrow> fst (alloc m) \<noteq> 0 \<Longrightarrow>
      fst (alloc m) \<notin> owned m \<and> owned (snd (alloc m)) = insert (fst (alloc m)) (owned m)"
    and alloc_fail: "inv m \<Longrightarrow> fst (alloc m) = 0 \<Longrightarrow> snd (alloc m) = m"
    and alloc_aligned: "inv m \<Longrightarrow> fst (alloc m) AND 4095 = 0"
begin

lemma alloc_owned_mono: "inv m \<Longrightarrow> owned m \<subseteq> owned (snd (alloc m))"
  using alloc_fresh [of m] alloc_fail [of m] by (cases "fst (alloc m) = 0") auto

lemma alloc_seq_fresh:
  "inv m \<Longrightarrow> alloc_seq alloc n m = (as, m') \<Longrightarrow>
     inv m' \<and> owned m' = owned m \<union> (set as - {0}) \<and>
     distinct (filter (\<lambda>a. a \<noteq> 0) as) \<and> (set as - {0}) \<inter> owned m = {}"
proof (induction n arbitrary: m as)
  case (Suc n)
  obtain a m1 where a: "alloc m = (a, m1)" by fastforce
  with Suc.prems obtain bs where bs: "alloc_seq alloc n m1 = (bs, m')" "as = a # bs"
    by (auto split: prod.splits)
  have inv1: "inv m1" using alloc_inv [OF Suc.prems(1)] a by simp
  note IH = Suc.IH [OF inv1 bs(1)]
  show ?case
  proof (cases "a = 0")
    case True
    then have "m1 = m" using alloc_fail [OF Suc.prems(1)] a by simp
    with IH True bs(2) show ?thesis by auto
  next
    case False
    then have "a \<notin> owned m" "owned m1 = insert a (owned m)"
      using alloc_fresh [OF Suc.prems(1)] a by auto
    with IH False bs(2) show ?thesis by auto
  qed
qed simp

end

definition owned_pages :: "phys_mem \<Rightarrow> u64 set" where
  "owned_pages m = frame_addr m ` used_frames m"

definition phys_ok :: "phys_mem \<Rightarrow> bool" where
  "phys_ok m \<longleftrightarrow> phys_inv m \<and> phys_layout_ok m"

lemma phys_alloc_page_fresh:
  assumes "phys_ok m" and "fst (phys_alloc_page m) \<noteq> 0"
  shows "fst (phys_alloc_page m) \<notin> owned_pages m \<and>
         owned_pages (snd (phys_alloc_page m)) = insert (fst (phys_alloc_page m)) (owned_pages m)"
proof (cases m rule: phys_alloc_page_cases)
  case oom
  with assms(2) show ?thesis by simp
next
  case (found i)
  have i: "i < unat (total_pages m)" "i \<notin> used_frames m"
    using found(1) by (auto simp: free_frames_def used_free_frames)
  have inv: "phys_inv m" and lay: "phys_layout_ok m" using assms(1) by (auto simp: phys_ok_def)
  have "frame_addr m i \<notin> owned_pages m"
    using i frame_addr_inj [OF lay i(1)] by (auto simp: owned_pages_def used_frames_def)
  moreover have "owned_pages (snd (phys_alloc_page m)) = insert (frame_addr m i) (owned_pages m)"
    using used_frames_set [OF inv i(1)] by (simp add: owned_pages_def found(3) frame_addr_def)
  ultimately show ?thesis by (simp add: found(3))
qed

interpretation pa: page_allocator phys_alloc_page phys_ok owned_pages
proof
  fix m assume ok: "phys_ok m"
  then have inv: "phys_inv m" and lay: "phys_layout_ok m" by (auto simp: phys_ok_def)
  show "phys_ok (snd (phys_alloc_page m))"
    using inv lay by (simp add: phys_ok_def phys_alloc_page_inv)
  show "fst (phys_alloc_page m) AND 4095 = 0"
    by (cases m rule: phys_alloc_page_cases)
      (auto simp: free_frames_def intro!: frame_addr_aligned [OF lay])
  assume "fst (phys_alloc_page m) = 0"
  then show "snd (phys_alloc_page m) = m"
    using frame_addr_nonzero [OF lay]
    by (cases m rule: phys_alloc_page_cases) (auto simp: free_frames_def)
qed (rule phys_alloc_page_fresh)

section \<open>Properties\<close>

text \<open>A machine with eight frames of RAM at 1 GiB, as \<open>phys_mem_init\<close> leaves it.\<close>

definition demo_mem :: phys_mem where
  "demo_mem = snd (the (phys_mem_init 0x40000000 0x8000 phys_mem_bss))"

lemma demo_mem_init: "phys_mem_init 0x40000000 0x8000 phys_mem_bss = Some (AEGIS_OK, demo_mem)"
  by (simp add: demo_mem_def phys_mem_init_def MAX_PAGES_def)

lemma length_bss: "length (bitmap phys_mem_bss) = MAX_PAGES div 8"
  by (simp add: phys_mem_bss_def)

lemma demo_mem_simps: "total_pages demo_mem = 8" "phys_base demo_mem = 0x40000000"
  by (simp_all add: demo_mem_def phys_mem_init_def MAX_PAGES_def)

lemma demo_mem_ok: "phys_ok demo_mem"
proof -
  have "phys_inv demo_mem"
    using phys_mem_init_inv [OF demo_mem_init length_bss] by auto
  then show ?thesis by (simp add: phys_ok_def phys_layout_ok_def demo_mem_simps)
qed

lemma demo_mem_unused: "used_frames demo_mem = {}"
proof -
  have "bitmap demo_mem = 0 # drop 1 (bitmap phys_mem_bss)"
    by (simp add: demo_mem_def phys_mem_init_def MAX_PAGES_def)
  then show ?thesis by (auto simp: used_frames_def demo_mem_simps bitmap_test_bit)
qed

text \<open>
  C1. \<open>phys_alloc_page\<close> hands out the lowest free frame and nothing else: it fails (returns 0
  and leaves the state alone) exactly when no frame is free; otherwise the returned address is
  that of the lowest free frame, the frame leaves the free set, the free counter drops by one
  and the invariant (the counter equals the number of clear bits) still holds.
\<close>

theorem phys_alloc_page_correct:
  assumes "phys_ok m"
  shows "(free_frames m = {} \<longrightarrow> phys_alloc_page m = (0, m)) \<and>
         (free_frames m \<noteq> {} \<longrightarrow>
            fst (phys_alloc_page m) = frame_addr m (Min (free_frames m)) \<and>
            free_frames (snd (phys_alloc_page m)) = free_frames m - {Min (free_frames m)} \<and>
            phys_mem_free_pages (snd (phys_alloc_page m)) = phys_mem_free_pages m - 1 \<and>
            phys_ok (snd (phys_alloc_page m)))"
proof (cases m rule: phys_alloc_page_cases)
  case oom
  then show ?thesis by simp
next
  case (found i)
  have Min: "Min (free_frames m) = i" using found(1,2) by (intro Min_eqI) auto
  have i: "i < unat (total_pages m)" using found(1) by (simp add: free_frames_def)
  have inv: "phys_inv m" using assms by (simp add: phys_ok_def)
  show ?thesis
    using found(1) free_frames_set [OF inv i] pa.alloc_inv [OF assms]
    by (auto simp: Min found(3) phys_mem_free_pages_def)
qed

theorem phys_alloc_page_correct_witness:
  "phys_ok demo_mem \<and> free_frames demo_mem \<noteq> {} \<and>
   fst (phys_alloc_page demo_mem) = frame_addr demo_mem (Min (free_frames demo_mem))"
proof -
  have ne: "free_frames demo_mem \<noteq> {}"
    using demo_mem_unused by (auto simp: used_free_frames demo_mem_simps lessThan_empty_iff)
  show ?thesis using phys_alloc_page_correct [OF demo_mem_ok] ne demo_mem_ok by simp
qed

text \<open>
  C2. No frame is handed out twice: the non-null results of any number of successive
  \<open>phys_alloc_page\<close> calls are pairwise distinct, none of them was owned before, and together
  with the frames owned before they are exactly the frames owned afterwards.
\<close>

theorem phys_alloc_never_twice:
  assumes "phys_ok m" and "alloc_seq phys_alloc_page n m = (as, m')"
  shows "phys_ok m' \<and> distinct (filter (\<lambda>a. a \<noteq> 0) as) \<and>
         (set as - {0}) \<inter> owned_pages m = {} \<and>
         owned_pages m' = owned_pages m \<union> (set as - {0})"
  using pa.alloc_seq_fresh [OF assms] by blast

theorem phys_alloc_never_twice_witness:
  "phys_ok demo_mem \<and> distinct (filter (\<lambda>a. a \<noteq> 0) (fst (alloc_seq phys_alloc_page 3 demo_mem)))"
  using phys_alloc_never_twice [OF demo_mem_ok, of 3 "fst (alloc_seq phys_alloc_page 3 demo_mem)"
      "snd (alloc_seq phys_alloc_page 3 demo_mem)"] demo_mem_ok by simp

text \<open>
  C3. A successful \<open>phys_reserve_range\<close> marks exactly the frames that share a byte with the
  requested range, in addition to those already in use, and keeps the counter exact.
\<close>

theorem phys_reserve_range_exact:
  assumes "phys_ok m" and "sz \<noteq> 0" and "unat base + unat sz + 4095 < 2 ^ 64"
    and "phys_reserve_range base sz m = (AEGIS_OK, m')"
  shows "phys_inv m' \<and> used_frames m' = used_frames m \<union>
     {i. i < unat (total_pages m) \<and> frame_touches m (unat base) (unat sz) i}"
  using assms by (intro reserve_range_frames) (auto simp: phys_ok_def)

theorem phys_reserve_range_exact_witness:
  "\<exists>m'. phys_reserve_range 0x40001000 0x1800 demo_mem = (AEGIS_OK, m') \<and> used_frames m' = {1, 2}"
proof -
  obtain m' where r: "phys_reserve_range 0x40001000 0x1800 demo_mem = (AEGIS_OK, m')"
    by (simp add: phys_reserve_range_def PAGE_ALIGN_def PAGE_ALIGN_DOWN_def page_index_for_addr_def
        demo_mem_simps Let_def word_le_nat_alt)
  have "used_frames m' = {i. i < 8 \<and> frame_touches demo_mem 0x40001000 0x1800 i}"
    using phys_reserve_range_exact [OF demo_mem_ok _ _ r] by (simp add: demo_mem_unused demo_mem_simps)
  also have "\<dots> = {1, 2}" by (auto simp: frame_touches_def demo_mem_simps)
  finally show ?thesis using r by blast
qed

text \<open>
  C4. \<open>phys_mem_init\<close> establishes the allocator invariant exactly when the frames of the last
  partial bitmap byte were clear before: its loop clears \<open>total_pages / 8\<close> bytes, so up to
  seven trailing frames keep the bits of an earlier use although the counter declares them free.
\<close>

theorem phys_mem_init_invariant:
  assumes "phys_mem_init base sz m = Some (r, m')" and "length (bitmap m) = MAX_PAGES div 8"
  shows "phys_inv m' \<longleftrightarrow>
    (\<forall>p. unat (sz div 4096) div 8 * 8 \<le> p \<and> p < unat (sz div 4096) \<longrightarrow> \<not> bitmap_test p (bitmap m))"
  using assms by (rule phys_mem_init_inv)

theorem phys_mem_init_invariant_witness: "phys_inv demo_mem"
  using phys_mem_init_invariant [OF demo_mem_init length_bss] by auto

text \<open>
  C5. Freeing an allocated frame keeps the invariant and undoes the allocation; freeing a frame
  that is already free breaks the invariant, because \<open>phys_free_page\<close> increments the counter
  without testing the bit.
\<close>

theorem phys_free_page_behaviour:
  assumes "phys_inv m"
  shows "(i \<in> used_frames m \<longrightarrow> phys_inv (phys_free_page (frame_addr m i) m)) \<and>
         (free_frames m \<noteq> {} \<longrightarrow>
            phys_free_page (fst (phys_alloc_page m)) (snd (phys_alloc_page m)) = m) \<and>
         (i \<in> free_frames m \<longrightarrow> \<not> phys_inv (phys_free_page (frame_addr m i) m))"
proof (intro conjI impI)
  assume i: "i \<in> free_frames m"
  have "free_pages_count m + 1 \<noteq> free_pages_count m" by simp
  then show "\<not> phys_inv (phys_free_page (frame_addr m i) m)"
    using phys_double_free_count [OF assms i] assms by (metis phys_inv_def word_unat_eq_iff)
qed (use assms in \<open>auto intro: phys_free_page_inv phys_free_after_alloc\<close>)

theorem phys_free_page_behaviour_witness:
  "0 \<in> free_frames demo_mem \<and> \<not> phys_inv (phys_free_page (frame_addr demo_mem 0) demo_mem)"
proof -
  have inv: "phys_inv demo_mem" using demo_mem_ok by (simp add: phys_ok_def)
  have "0 \<in> free_frames demo_mem"
    using demo_mem_unused by (auto simp: used_free_frames demo_mem_simps)
  then show ?thesis using phys_free_page_behaviour [OF inv, of 0] by simp
qed

end
