(* ===== verification/Heap.thy ===== *)
theory Heap
  imports Aegis_Prelude
begin

text \<open>
  kernel/memory/heap.c: the first-fit free-list allocator behind \<open>kmalloc\<close>, \<open>kfree\<close> and
  \<open>krealloc\<close>.  The linked list of block headers is the list of its headers in link order,
  each with the address it lives at; the payload bytes, which only \<open>krealloc\<close> copies, are a
  byte memory.  A release or resize of a pointer that heads no block of the list has no
  meaning in C and is the value \<open>None\<close>.
\<close>

section \<open>State and operations\<close>

record heap_block =
  hb_addr :: u64
  hb_size :: u64
  hb_free :: bool

record heap =
  heap_blocks :: "heap_block list"
  heap_bytes :: "u64 \<Rightarrow> u8"

text \<open>\<open>sizeof(block_header_t)\<close> on AArch64: two 8-byte words and a padded flag.\<close>

definition HEADER_SIZE :: u64 where "HEADER_SIZE = 24"

definition heap_init :: "u64 \<Rightarrow> u64 \<Rightarrow> heap \<Rightarrow> heap" where
  "heap_init base sz h =
     h\<lparr>heap_blocks := [\<lparr>hb_addr = base, hb_size = sz - HEADER_SIZE, hb_free = True\<rparr>]\<rparr>"

text \<open>The walk of \<open>kmalloc\<close> from the current block; the pointer 0 is NULL.\<close>

fun kmalloc_walk :: "u64 \<Rightarrow> heap_block list \<Rightarrow> u64 \<times> heap_block list" where
  "kmalloc_walk sz [] = (0, [])"
| "kmalloc_walk sz (cur # rest) =
     (if hb_free cur \<and> sz \<le> hb_size cur then
        (hb_addr cur + HEADER_SIZE,
         if sz + HEADER_SIZE + 8 \<le> hb_size cur then
           cur\<lparr>hb_size := sz, hb_free := False\<rparr> #
           \<lparr>hb_addr = hb_addr cur + HEADER_SIZE + sz,
            hb_size = hb_size cur - sz - HEADER_SIZE, hb_free = True\<rparr> # rest
         else cur\<lparr>hb_free := False\<rparr> # rest)
      else (let (p, rest') = kmalloc_walk sz rest in (p, cur # rest')))"

definition kmalloc :: "u64 \<Rightarrow> heap \<Rightarrow> u64 \<times> heap" where
  "kmalloc sz h =
     (let sz = (sz + 7) AND NOT 7; (p, bs) = kmalloc_walk sz (heap_blocks h)
      in (p, h\<lparr>heap_blocks := bs\<rparr>))"

fun coalesce :: "heap_block list \<Rightarrow> heap_block list" where
  "coalesce (cur # nxt # rest) =
     (if hb_free cur \<and> hb_free nxt
      then coalesce (cur\<lparr>hb_size := hb_size cur + (HEADER_SIZE + hb_size nxt)\<rparr> # rest)
      else cur # coalesce (nxt # rest))"
| "coalesce bs = bs"

definition header_of :: "u64 \<Rightarrow> heap_block list \<Rightarrow> nat option" where
  "header_of ptr bs = scan (\<lambda>b. hb_addr b = ptr - HEADER_SIZE) bs"

definition kfree :: "u64 \<Rightarrow> heap \<Rightarrow> heap option" where
  "kfree ptr h =
     (if ptr = 0 then Some h
      else case header_of ptr (heap_blocks h) of
        None \<Rightarrow> None
      | Some i \<Rightarrow> Some (h\<lparr>heap_blocks :=
          coalesce ((heap_blocks h)[i := (heap_blocks h ! i)\<lparr>hb_free := True\<rparr>])\<rparr>))"

definition copy_bytes :: "u64 \<Rightarrow> u64 \<Rightarrow> u64 \<Rightarrow> (u64 \<Rightarrow> u8) \<Rightarrow> u64 \<Rightarrow> u8" where
  "copy_bytes dst src n m =
     fold (\<lambda>i m. m(dst + of_nat i := m (src + of_nat i))) [0..<unat n] m"

definition krealloc :: "u64 \<Rightarrow> u64 \<Rightarrow> heap \<Rightarrow> (u64 \<times> heap) option" where
  "krealloc ptr new_size h =
     (if ptr = 0 then Some (kmalloc new_size h)
      else case header_of ptr (heap_blocks h) of
        None \<Rightarrow> None
      | Some i \<Rightarrow>
          let sz = hb_size (heap_blocks h ! i)
          in if new_size \<le> sz then Some (ptr, h)
             else let (p, h') = kmalloc new_size h
                  in if p = 0 then Some (0, h')
                     else map_option (Pair p)
                       (kfree ptr (h'\<lparr>heap_bytes := copy_bytes p ptr sz (heap_bytes h')\<rparr>)))"

section \<open>The shape of the block list\<close>

text \<open>
  \<open>chained a bs e\<close>: the blocks tile the addresses from \<open>a\<close> up to \<open>e\<close>, each header followed
  by its payload and then by the next header.  \<open>allocated\<close> collects the payloads in use.
\<close>

fun chained :: "nat \<Rightarrow> heap_block list \<Rightarrow> nat \<Rightarrow> bool" where
  "chained a [] e \<longleftrightarrow> a = e"
| "chained a (b # bs) e \<longleftrightarrow> unat (hb_addr b) = a \<and> chained (a + 24 + unat (hb_size b)) bs e"

definition heap_inv :: "nat \<Rightarrow> nat \<Rightarrow> heap \<Rightarrow> bool" where
  "heap_inv a e h \<longleftrightarrow> chained a (heap_blocks h) e \<and> 8 \<le> a \<and> e < 2 ^ 64"

definition payload :: "heap_block \<Rightarrow> nat \<times> nat" where
  "payload b = (unat (hb_addr b) + 24, unat (hb_size b))"

definition allocated :: "heap_block list \<Rightarrow> (nat \<times> nat) set" where
  "allocated bs = payload ` {b \<in> set bs. \<not> hb_free b}"

fun disjoint_ranges :: "nat \<times> nat \<Rightarrow> nat \<times> nat \<Rightarrow> bool" where
  "disjoint_ranges (p, s) (q, t) \<longleftrightarrow> p + s \<le> q \<or> q + t \<le> p"

fun no_free_neighbours :: "heap_block list \<Rightarrow> bool" where
  "no_free_neighbours (a # b # bs) \<longleftrightarrow> \<not> (hb_free a \<and> hb_free b) \<and> no_free_neighbours (b # bs)"
| "no_free_neighbours _ \<longleftrightarrow> True"

lemma allocated_simps [simp]:
  "allocated [] = {}"
  "allocated (b # bs) = (if hb_free b then allocated bs else insert (payload b) (allocated bs))"
  by (auto simp: allocated_def)

lemma payload_simps [simp]:
  "payload (b\<lparr>hb_free := f\<rparr>) = payload b" "fst (payload b) = unat (hb_addr b) + 24"
  by (simp_all add: payload_def)

lemma chained_le: "chained a bs e \<Longrightarrow> a \<le> e"
  by (induction bs arbitrary: a) fastforce+

lemma chained_bounds:
  "chained a bs e \<Longrightarrow> b \<in> set bs \<Longrightarrow> a \<le> unat (hb_addr b) \<and> unat (hb_addr b) + 24 + unat (hb_size b) \<le> e"
proof (induction bs arbitrary: a)
  case (Cons c bs)
  then show ?case using chained_le by (cases "b = c") fastforce+
qed simp

lemma chained_append:
  "chained a (bs @ cs) e \<longleftrightarrow> (\<exists>m. chained a bs m \<and> chained m cs e)"
  by (induction bs arbitrary: a) auto

text \<open>Two blocks of a chain do not overlap.\<close>

lemma chained_distinct: "chained a bs e \<Longrightarrow> distinct (map hb_addr bs)"
proof (induction bs arbitrary: a)
  case (Cons b bs)
  have "hb_addr b \<notin> hb_addr ` set bs"
    using Cons.prems chained_bounds [of "a + 24 + unat (hb_size b)" bs e] by fastforce
  with Cons show ?case by auto
qed simp

lemma chained_disjoint:
  assumes "chained a bs e" and "b \<in> set bs" and "c \<in> set bs" and "b \<noteq> c"
  shows "disjoint_ranges (payload b) (payload c)"
  using assms
proof (induction bs arbitrary: a)
  case (Cons d bs)
  have *: "x \<in> set bs \<Longrightarrow> disjoint_ranges (payload d) (payload x) \<and> disjoint_ranges (payload x) (payload d)" for x
    using Cons.prems(1) chained_bounds [of "a + 24 + unat (hb_size d)" bs e x] by (auto simp: payload_def)
  show ?case
    using Cons.prems * Cons.IH [of "a + 24 + unat (hb_size d)"] by auto
qed simp

section \<open>Allocation\<close>

lemma header_nat: "unat HEADER_SIZE = 24" "HEADER_SIZE \<noteq> 0"
  by (simp_all add: HEADER_SIZE_def)

text \<open>The word arithmetic of the split does not wrap inside a chain.\<close>

lemma split_arith:
  assumes "unat ad + 24 + unat cs \<le> e" and "e < 2 ^ 64" and "8 \<le> unat ad" and "unat sz \<le> unat cs"
  shows "sz + HEADER_SIZE + 8 \<le> cs \<longleftrightarrow> unat sz + 32 \<le> unat cs"
    and "unat (ad + HEADER_SIZE) = unat ad + 24"
    and "unat (ad + HEADER_SIZE + sz) = unat ad + 24 + unat sz"
    and "unat sz + 32 \<le> unat cs \<Longrightarrow> unat (cs - sz - HEADER_SIZE) = unat cs - unat sz - 24"
proof -
  have 1: "unat (sz + HEADER_SIZE) = unat sz + 24"
    using assms by (subst unat_plus_small) (simp_all add: header_nat)
  have "unat (sz + HEADER_SIZE + 8) = unat sz + 32"
    using assms by (subst unat_plus_small) (simp_all add: 1)
  then show "sz + HEADER_SIZE + 8 \<le> cs \<longleftrightarrow> unat sz + 32 \<le> unat cs"
    by (simp only: word_le_nat_alt)
  show 2: "unat (ad + HEADER_SIZE) = unat ad + 24"
    using assms by (subst unat_plus_small) (simp_all add: header_nat)
  show "unat (ad + HEADER_SIZE + sz) = unat ad + 24 + unat sz"
    using assms by (subst unat_plus_small) (simp_all add: 2)
  assume "unat sz + 32 \<le> unat cs"
  then show "unat (cs - sz - HEADER_SIZE) = unat cs - unat sz - 24"
    using assms(4) by (simp add: unat_sub word_le_nat_alt header_nat)
qed

lemma kmalloc_walk_spec:
  assumes "chained a bs e" and "8 \<le> a" and "e < 2 ^ 64" and "kmalloc_walk sz bs = (p, bs')"
  shows "if p = 0 then bs' = bs \<and> (\<forall>b\<in>set bs. hb_free b \<longrightarrow> hb_size b < sz)
         else chained a bs' e \<and>
           (\<exists>b s'. b \<in> set bs \<and> hb_free b \<and> unat p = unat (hb_addr b) + 24 \<and> unat sz \<le> s' \<and>
              s' \<le> unat (hb_size b) \<and> allocated bs' = insert (unat p, s') (allocated bs))"
  using assms
proof (induction bs arbitrary: a bs')
  case Nil
  then show ?case by auto
next
  case (Cons cur rest)
  let ?m = "a + 24 + unat (hb_size cur)"
  have cur: "unat (hb_addr cur) = a" and rest: "chained ?m rest e" using Cons.prems(1) by auto
  have end': "?m \<le> e" using chained_le [OF rest] .
  show ?case
  proof (cases "hb_free cur \<and> sz \<le> hb_size cur")
    case True
    then have le: "unat sz \<le> unat (hb_size cur)" by (simp add: word_le_nat_alt)
    note ar = split_arith [of "hb_addr cur" "hb_size cur" e sz, unfolded cur, OF end' Cons.prems(3,2) le]
    have p: "p = hb_addr cur + HEADER_SIZE" using Cons.prems(4) True by (auto split: if_splits)
    have "unat p = a + 24" using ar(2) p by simp
    then have p0: "p \<noteq> 0" by auto
    show ?thesis
    proof (cases "unat sz + 32 \<le> unat (hb_size cur)")
      case split: True
      then show ?thesis
        using Cons.prems(4) True p0 le cur rest ar p
        by (auto simp: payload_def ac_simps intro!: exI [of _ cur])
    next
      case False
      then show ?thesis
        using Cons.prems(4) True p0 le cur rest ar p
        by (auto simp: payload_def intro!: exI [of _ cur])
    qed
  next
    case False
    obtain rest' where w: "kmalloc_walk sz rest = (p, rest')" "bs' = cur # rest'"
      using Cons.prems(4) False by (auto split: prod.splits)
    have "8 \<le> ?m" using Cons.prems(2) by simp
    note IH = Cons.IH [OF rest this Cons.prems(3) w(1)]
    show ?thesis
    proof (cases "p = 0")
      case True
      then show ?thesis using IH w False by auto
    next
      case p0: False
      then show ?thesis using IH w cur by (auto simp: insert_commute)
    qed
  qed
qed

lemma round8: 
  assumes "unat (sz::u64) \<le> 2 ^ 64 - 8"
  shows "unat sz \<le> unat ((sz + 7) AND NOT 7)"
proof -
  have "(sz + 7) AND NOT (mask 3) = push_bit 3 (drop_bit 3 (sz + 7))"
    by (rule bit_word_eqI) (auto simp: bit_simps)
  then have eq: "(sz + 7) AND NOT 7 = (sz + 7) div 8 * 8"
    by (simp add: mask_eq_exp_minus_1 push_bit_eq_mult drop_bit_eq_div)
  have s7: "unat (sz + 7) = unat sz + 7" using assms by (subst unat_plus_small) auto
  have "unat ((sz + 7) div 8) * unat (8::u64) < 2 ^ 64"
    using unat_bounds(4) [of "sz + 7"] by (simp add: unat_div)
  then have "unat ((sz + 7) div 8 * 8) = (unat sz + 7) div 8 * 8"
    using unat_mult_lem [of "(sz + 7) div 8" 8] by (simp add: unat_div s7)
  then show ?thesis unfolding eq by linarith
qed

lemma kmalloc_cases:
  assumes "heap_inv a e h" and "kmalloc sz h = (p, h')"
  shows "if p = 0 then h' = h \<and> (\<forall>b\<in>set (heap_blocks h). hb_free b \<longrightarrow> hb_size b < (sz + 7) AND NOT 7)
         else heap_inv a e h' \<and>
           (\<exists>s'. unat ((sz + 7) AND NOT 7) \<le> s' \<and>
              allocated (heap_blocks h') = insert (unat p, s') (allocated (heap_blocks h)) \<and>
              (\<forall>r\<in>allocated (heap_blocks h). disjoint_ranges (unat p, s') r) \<and>
              unat p \<notin> fst ` allocated (heap_blocks h) \<and> a \<le> unat p \<and> unat p + s' \<le> e)"
proof -
  have ch: "chained a (heap_blocks h) e" and a: "8 \<le> a" and e: "e < 2 ^ 64"
    using assms(1) by (auto simp: heap_inv_def)
  obtain bs where w: "kmalloc_walk ((sz + 7) AND NOT 7) (heap_blocks h) = (p, bs)" "h' = h\<lparr>heap_blocks := bs\<rparr>"
    using assms(2) by (auto simp: kmalloc_def Let_def split: prod.splits)
  note spec = kmalloc_walk_spec [OF ch a e w(1)]
  show ?thesis
  proof (cases "p = 0")
    case True
    then show ?thesis using spec w(2) by simp
  next
    case False
    with spec obtain b s' where b: "b \<in> set (heap_blocks h)" "hb_free b" "unat p = unat (hb_addr b) + 24"
      "unat ((sz + 7) AND NOT 7) \<le> s'" "s' \<le> unat (hb_size b)"
      "allocated bs = insert (unat p, s') (allocated (heap_blocks h))" and ch': "chained a bs e"
      by auto
    have "disjoint_ranges (unat p, s') (payload c)" if "c \<in> set (heap_blocks h)" "\<not> hb_free c" for c
      using chained_disjoint [OF ch b(1) that(1)] that(2) b(2,3,5) by (cases "b = c") (auto simp: payload_def)
    moreover have "unat p \<noteq> fst (payload c)" if "c \<in> set (heap_blocks h)" "\<not> hb_free c" for c
      using chained_distinct [OF ch] that b(1-3) by (auto simp: distinct_map inj_on_def simp flip: word_unat_eq_iff)
    ultimately show ?thesis
      using False b ch' a e w(2) chained_bounds [OF ch b(1)]
      by (auto simp: heap_inv_def allocated_def intro!: exI [of _ s'])
  qed
qed

section \<open>Release and coalescing\<close>

lemma coalesce_head: "\<exists>c cs. coalesce (b # bs) = c # cs \<and> hb_free c = hb_free b"
  by (induction "b # bs" arbitrary: b bs rule: coalesce.induct) auto

lemma coalesce_no_free_neighbours: "no_free_neighbours (coalesce bs)"
proof (induction bs rule: coalesce.induct)
  case (1 cur nxt rest)
  obtain c cs where "coalesce (nxt # rest) = c # cs" "hb_free c = hb_free nxt"
    using coalesce_head by blast
  with 1 show ?case by auto
qed auto

lemma coalesce_spec:
  assumes "chained a bs e" and "e < 2 ^ 64"
  shows "chained a (coalesce bs) e \<and> allocated (coalesce bs) = allocated bs"
  using assms
proof (induction bs arbitrary: a rule: coalesce.induct)
  case (1 cur nxt rest)
  show ?case
  proof (cases "hb_free cur \<and> hb_free nxt")
    case True
    have "a + 24 + unat (hb_size cur) + 24 + unat (hb_size nxt) \<le> e"
      using "1.prems"(1) chained_le by fastforce
    then have "unat (HEADER_SIZE + hb_size nxt) = 24 + unat (hb_size nxt)"
      and "unat (hb_size cur + (HEADER_SIZE + hb_size nxt)) = unat (hb_size cur) + 24 + unat (hb_size nxt)"
      using "1.prems"(2) by (simp_all add: unat_plus_small header_nat)
    then have "chained a (cur\<lparr>hb_size := hb_size cur + (HEADER_SIZE + hb_size nxt)\<rparr> # rest) e"
      using "1.prems"(1) by (simp add: ac_simps)
    then show ?thesis using "1.IH"(1) "1.prems"(2) True by simp
  next
    case False
    then show ?thesis using "1.IH"(2) "1.prems" by auto
  qed
qed auto

lemma chained_set_free: "chained a (bs[i := (bs ! i)\<lparr>hb_free := f\<rparr>]) e = chained a bs e"
proof (induction bs arbitrary: a i)
  case (Cons b bs)
  then show ?case by (cases i) auto
qed simp

lemma allocated_release:
  assumes "distinct (map hb_addr bs)" and "i < length bs"
  shows "allocated (bs[i := (bs ! i)\<lparr>hb_free := True\<rparr>]) = allocated bs - {payload (bs ! i)}"
  using assms
proof (induction bs arbitrary: i)
  case (Cons b bs)
  have addr: "payload c \<noteq> payload b" if "c \<in> set bs" for c
  proof
    assume "payload c = payload b"
    then have "hb_addr c = hb_addr b" by (auto simp: payload_def simp flip: word_unat_eq_iff)
    then show False using Cons.prems(1) that by (metis distinct.simps(2) image_eqI list.simps(9) list.set_map)
  qed
  show ?case
  proof (cases i)
    case 0
    have "payload b \<notin> allocated bs" using addr unfolding allocated_def by (metis (no_types, lifting) imageE mem_Collect_eq)
    then show ?thesis using 0 by auto
  next
    case (Suc k)
    then have "payload (bs ! k) \<noteq> payload b" using addr Cons.prems(2) by simp
    then show ?thesis using Cons Suc by auto
  qed
qed simp

lemma kfree_cases:
  assumes "heap_inv a e h" and "ptr \<noteq> 0" and "header_of ptr (heap_blocks h) = Some i"
  shows "\<exists>h'. kfree ptr h = Some h' \<and> heap_inv a e h' \<and> no_free_neighbours (heap_blocks h') \<and>
    allocated (heap_blocks h') = allocated (heap_blocks h) - {payload (heap_blocks h ! i)} \<and>
    heap_bytes h' = heap_bytes h"
proof -
  let ?bs = "(heap_blocks h)[i := (heap_blocks h ! i)\<lparr>hb_free := True\<rparr>]"
  have ch: "chained a (heap_blocks h) e" and ae: "8 \<le> a" "e < 2 ^ 64"
    using assms(1) by (auto simp: heap_inv_def)
  have i: "i < length (heap_blocks h)" using assms(3) by (auto simp: header_of_def)
  have "chained a ?bs e" using ch by (simp add: chained_set_free)
  then show ?thesis
    using coalesce_spec [of a ?bs e] ae allocated_release [OF chained_distinct [OF ch] i] assms(2,3)
    by (simp add: kfree_def heap_inv_def coalesce_no_free_neighbours)
qed

text \<open>When nothing is allocated a coalesced heap is one free block.\<close>

lemma all_free_single:
  assumes "chained a bs e" and "allocated bs = {}" and "no_free_neighbours bs" and "a < e"
  shows "\<exists>b. bs = [b] \<and> hb_free b \<and> unat (hb_addr b) = a \<and> unat (hb_size b) = e - a - 24"
proof (cases bs)
  case Nil
  then show ?thesis using assms(1,4) by simp
next
  case (Cons b cs)
  then have "cs = []" using assms(2,3) by (cases cs) (auto split: if_splits)
  then show ?thesis using assms(1,2) Cons by (auto split: if_splits)
qed

section \<open>Resizing\<close>

lemma copy_bytes_fold:
  fixes m :: "u64 \<Rightarrow> u8"
  assumes "\<And>i j. i < n \<Longrightarrow> j < n \<Longrightarrow> src + of_nat i \<noteq> dst + of_nat j"
    and "\<And>i j. i < n \<Longrightarrow> j < n \<Longrightarrow> dst + of_nat i = dst + of_nat j \<Longrightarrow> i = j"
  defines "F \<equiv> \<lambda>k. fold (\<lambda>i m. m(dst + of_nat i := m (src + of_nat i))) [0..<k] m"
  shows "k \<le> n \<Longrightarrow> (\<forall>i<k. F k (dst + of_nat i) = m (src + of_nat i)) \<and>
      (\<forall>x. (\<forall>i<k. x \<noteq> dst + of_nat i) \<longrightarrow> F k x = m x)"
proof (induction k)
  case 0
  then show ?case by (simp add: F_def)
next
  case (Suc k)
  have step: "F (Suc k) = (F k)(dst + of_nat k := F k (src + of_nat k))" by (simp add: F_def)
  have IH: "\<And>i. i < k \<Longrightarrow> F k (dst + of_nat i) = m (src + of_nat i)"
    "\<And>x. (\<forall>i<k. x \<noteq> dst + of_nat i) \<Longrightarrow> F k x = m x" using Suc by auto
  have src: "F k (src + of_nat k) = m (src + of_nat k)"
    using assms(1) [of k] Suc.prems by (intro IH(2)) simp
  have "F (Suc k) (dst + of_nat i) = m (src + of_nat i)" if "i < Suc k" for i
  proof (cases "i = k")
    case False
    then have "dst + of_nat i \<noteq> dst + of_nat k" using assms(2) [of i k] that Suc.prems by auto
    then show ?thesis using IH(1) [of i] False that by (simp add: step)
  qed (simp add: step src)
  moreover have "F (Suc k) x = m x" if "\<forall>i<Suc k. x \<noteq> dst + of_nat i" for x
    using that IH(2) [of x] by (simp add: step)
  ultimately show ?case by blast
qed

lemma unat_offset: "unat q + n < 2 ^ 64 \<Longrightarrow> j < n \<Longrightarrow> unat (q + of_nat j :: u64) = unat q + j"
proof -
  assume *: "unat q + n < 2 ^ 64" "j < n"
  have "unat (of_nat j :: u64) = j" using * by (intro unat_of_nat_small) simp
  then show ?thesis using * by (subst unat_plus_small) simp_all
qed

lemma copy_bytes_disjoint:
  assumes "disjoint_ranges (unat dst, unat n) (unat src, unat n)"
    and "unat dst + unat n < 2 ^ 64" and "unat src + unat n < 2 ^ 64"
  shows "i < unat n \<Longrightarrow> copy_bytes dst src n m (dst + of_nat i) = m (src + of_nat i)"
    and "\<not> (unat dst \<le> unat x \<and> unat x < unat dst + unat n) \<Longrightarrow> copy_bytes dst src n m x = m x"
proof -
  note off = unat_offset [OF assms(2)] unat_offset [OF assms(3)]
  have 1: "src + of_nat j \<noteq> dst + of_nat k" if "j < unat n" "k < unat n" for j k
  proof
    assume "src + of_nat j = dst + of_nat k"
    then have "unat src + j = unat dst + k" using off that by metis
    then show False using assms(1) that by auto
  qed
  have 2: "j = k" if "j < unat n" "k < unat n" "dst + of_nat j = dst + of_nat k" for j k
    using off(1) that by (metis add_left_cancel)
  note copy = copy_bytes_fold [where m = m, OF 1 2 order_refl]
  show "copy_bytes dst src n m (dst + of_nat i) = m (src + of_nat i)" if "i < unat n"
    unfolding copy_bytes_def using copy that by blast
  assume "\<not> (unat dst \<le> unat x \<and> unat x < unat dst + unat n)"
  then have "\<forall>i<unat n. x \<noteq> dst + of_nat i" using off(1) by auto
  then show "copy_bytes dst src n m x = m x" unfolding copy_bytes_def using copy by blast
qed

text \<open>A live payload address leads \<open>kfree\<close> and \<open>krealloc\<close> to its own header.\<close>

lemma header_of_live:
  assumes "heap_inv a e h" and "(unat p, s) \<in> allocated (heap_blocks h)"
  shows "p \<noteq> 0 \<and> (\<exists>i. header_of p (heap_blocks h) = Some i \<and> i < length (heap_blocks h) \<and>
    \<not> hb_free (heap_blocks h ! i) \<and> payload (heap_blocks h ! i) = (unat p, s))"
proof -
  let ?bs = "heap_blocks h"
  have ch: "chained a ?bs e" and e: "e < 2 ^ 64" using assms(1) by (auto simp: heap_inv_def)
  obtain b where b: "b \<in> set ?bs" "\<not> hb_free b" "payload b = (unat p, s)"
    using assms(2) unfolding allocated_def by (metis (no_types, lifting) imageE mem_Collect_eq)
  then obtain i where i: "i < length ?bs" "?bs ! i = b" by (auto simp: in_set_conv_nth)
  have "unat (hb_addr b) + 24 < 2 ^ 64" using chained_bounds [OF ch b(1)] e by simp
  then have "unat (hb_addr b + HEADER_SIZE) = unat p"
    using b(3) by (subst unat_plus_small) (auto simp: header_nat payload_def)
  then have "p = hb_addr b + HEADER_SIZE" by (simp only: word_unat_eq_iff)
  then have p: "p - HEADER_SIZE = hb_addr b" by simp
  have "hb_addr (?bs ! j) \<noteq> hb_addr b" if "j < i" for j
    using chained_distinct [OF ch] i that nth_eq_iff_index_eq [of "map hb_addr ?bs" j i] by auto
  then have "header_of p ?bs = Some i"
    unfolding header_of_def p using i by (intro scan_eq_SomeI) auto
  moreover have "p \<noteq> 0" using b(3) by (auto simp: payload_def)
  ultimately show ?thesis using i b by auto
qed

lemma kfree_live:
  assumes "heap_inv a e h" and "(unat p, s) \<in> allocated (heap_blocks h)"
  shows "\<exists>h'. kfree p h = Some h' \<and> heap_inv a e h' \<and> no_free_neighbours (heap_blocks h') \<and>
    allocated (heap_blocks h') = allocated (heap_blocks h) - {(unat p, s)} \<and> heap_bytes h' = heap_bytes h"
  using header_of_live [OF assms] kfree_cases [OF assms(1)] by fastforce

text \<open>Sizes above \<open>2^64 - 8\<close> wrap to zero in the rounding, so the request succeeds as one for nothing.\<close>

lemma kmalloc_wraps: "kmalloc (- 1) h = kmalloc 0 h" "kmalloc (- 7) h = kmalloc 0 h"
  by (simp_all add: kmalloc_def)

section \<open>The contract of a heap\<close>

text \<open>
  What the rest of the kernel relies on: \<open>malloc\<close> yields a range disjoint from every live one
  or fails without effect, \<open>free\<close> of a live range removes exactly that range.
\<close>

definition separated :: "(nat \<times> nat) set \<Rightarrow> bool" where
  "separated L \<longleftrightarrow> (\<forall>r\<in>L. \<forall>q\<in>L. r \<noteq> q \<longrightarrow> disjoint_ranges r q)"

lemma disjoint_sym: "disjoint_ranges r q \<Longrightarrow> disjoint_ranges q r"
  by (cases r; cases q) auto

lemma separated_insert:
  "separated L \<Longrightarrow> (\<forall>r\<in>L. disjoint_ranges x r) \<Longrightarrow> separated (insert x L)"
  unfolding separated_def by (blast intro: disjoint_sym)

locale heap_provider =
  fixes ok :: "'h \<Rightarrow> bool"
    and live :: "'h \<Rightarrow> (nat \<times> nat) set"
    and malloc :: "u64 \<Rightarrow> 'h \<Rightarrow> u64 \<times> 'h"
    and free :: "u64 \<Rightarrow> 'h \<Rightarrow> 'h option"
  assumes malloc_fail: "ok h \<Longrightarrow> malloc sz h = (0, h') \<Longrightarrow> h' = h"
    and malloc_law: "ok h \<Longrightarrow> malloc sz h = (p, h') \<Longrightarrow> p \<noteq> 0 \<Longrightarrow>
      ok h' \<and> (\<exists>s. live h' = insert (unat p, s) (live h) \<and> (\<forall>r\<in>live h. disjoint_ranges (unat p, s) r) \<and>
        unat p \<notin> fst ` live h \<and> (unat sz \<le> 2 ^ 64 - 8 \<longrightarrow> unat sz \<le> s))"
    and free_law: "ok h \<Longrightarrow> (unat p, s) \<in> live h \<Longrightarrow>
      \<exists>h'. free p h = Some h' \<and> ok h' \<and> live h' = live h - {(unat p, s)}"
begin

lemma malloc_separated:
  assumes "ok h" and "separated (live h)" and "malloc sz h = (p, h')"
  shows "ok h' \<and> separated (live h')"
proof (cases "p = 0")
  case True
  then show ?thesis using malloc_fail assms by blast
next
  case False
  then show ?thesis using malloc_law [OF assms(1,3)] assms(2) separated_insert by metis
qed

lemma free_separated:
  assumes "ok h" and "separated (live h)" and "(unat p, s) \<in> live h"
  shows "\<exists>h'. free p h = Some h' \<and> ok h' \<and> separated (live h')"
  using free_law [OF assms(1,3)] assms(2) unfolding separated_def by (metis DiffD1)

lemma malloc_then_free:
  assumes "ok h" and "malloc sz h = (p, g)" and "p \<noteq> 0"
  shows "\<exists>h'. free p g = Some h' \<and> ok h' \<and> live h' = live h"
proof -
  obtain s where s: "live g = insert (unat p, s) (live h)" "unat p \<notin> fst ` live h" and g: "ok g"
    using malloc_law [OF assms] by blast
  then have "(unat p, s) \<notin> live h" by force
  then show ?thesis using free_law [OF g, of p s] s by auto
qed

end

definition heap_live :: "heap \<Rightarrow> (nat \<times> nat) set" where
  "heap_live h = allocated (heap_blocks h)"

lemma kmalloc_live:
  assumes "heap_inv a e h" and "kmalloc sz h = (p, h')" and "p \<noteq> 0"
  shows "heap_inv a e h' \<and> (\<exists>s. heap_live h' = insert (unat p, s) (heap_live h) \<and>
    (\<forall>r\<in>heap_live h. disjoint_ranges (unat p, s) r) \<and> unat p \<notin> fst ` heap_live h \<and>
    (unat sz \<le> 2 ^ 64 - 8 \<longrightarrow> unat sz \<le> s))"
proof -
  obtain s where s: "heap_inv a e h'" "unat ((sz + 7) AND NOT 7) \<le> s" "heap_live h' = insert (unat p, s) (heap_live h)"
    "\<forall>r\<in>heap_live h. disjoint_ranges (unat p, s) r" "unat p \<notin> fst ` heap_live h"
    using kmalloc_cases [OF assms(1,2)] assms(3) unfolding heap_live_def by auto
  moreover have "unat sz \<le> s" if "unat sz \<le> 2 ^ 64 - 8"
    using round8 [OF that] s(2) by (rule le_trans)
  ultimately show ?thesis by blast
qed

interpretation kh: heap_provider "heap_inv a e" heap_live kmalloc kfree for a e
proof
  show "heap_inv a e h \<Longrightarrow> kmalloc sz h = (0, h') \<Longrightarrow> h' = h" for h h' sz
    using kmalloc_cases [of a e h sz 0 h'] by simp
next
  show "heap_inv a e h \<Longrightarrow> (unat p, s) \<in> heap_live h \<Longrightarrow>
    \<exists>h'. kfree p h = Some h' \<and> heap_inv a e h' \<and> heap_live h' = heap_live h - {(unat p, s)}" for h p s
    using kfree_live unfolding heap_live_def by blast
qed (rule kmalloc_live)

lemma live_bounds: "heap_inv a e h \<Longrightarrow> (x, t) \<in> heap_live h \<Longrightarrow> a \<le> x \<and> x + t \<le> e"
  using chained_bounds by (fastforce simp: heap_inv_def heap_live_def allocated_def payload_def)

lemma heap_bytes_frame [simp]:
  "heap_inv a e (h\<lparr>heap_bytes := m\<rparr>) = heap_inv a e h" "heap_live (h\<lparr>heap_bytes := m\<rparr>) = heap_live h"
  by (simp_all add: heap_inv_def heap_live_def)

lemma kmalloc_bytes: "heap_bytes (snd (kmalloc sz h)) = heap_bytes h"
  by (simp add: kmalloc_def Let_def split: prod.splits)

text \<open>The moving case of \<open>krealloc\<close>.\<close>

lemma krealloc_move:
  assumes inv: "heap_inv a e h" and live: "(unat p, unat s) \<in> heap_live h"
    and big: "\<not> n \<le> s" and n: "unat n \<le> 2 ^ 64 - 8" and m: "kmalloc n h = (q, g)" and q: "q \<noteq> 0"
  defines "g' \<equiv> g\<lparr>heap_bytes := copy_bytes q p s (heap_bytes g)\<rparr>"
  shows "\<exists>h' t. kfree p g' = Some h' \<and> heap_inv a e h' \<and> unat n \<le> t \<and>
    heap_live h' = insert (unat q, t) (heap_live h - {(unat p, unat s)}) \<and>
    (\<forall>i<unat s. heap_bytes h' (q + of_nat i) = heap_bytes h (p + of_nat i)) \<and>
    (\<forall>(x, l)\<in>heap_live h. \<forall>y. x \<le> unat y \<and> unat y < x + l \<longrightarrow> heap_bytes h' y = heap_bytes h y)"
proof -
  obtain t where g: "heap_inv a e g" and t: "heap_live g = insert (unat q, t) (heap_live h)"
    "\<forall>r\<in>heap_live h. disjoint_ranges (unat q, t) r" "unat q \<notin> fst ` heap_live h" "unat n \<le> t"
    using kmalloc_live [OF inv m q] n by auto
  have st: "unat s < t" using big t(4) by (simp add: word_le_nat_alt)
  have e: "e < 2 ^ 64" using inv by (simp add: heap_inv_def)
  have bounds: "unat q + unat s < 2 ^ 64" "unat p + unat s < 2 ^ 64"
    using live_bounds [OF g, of "unat q" t] live_bounds [OF inv live] t(1) st e by auto
  have disj: "disjoint_ranges (unat q, unat s) (unat p, unat s)" using t(2) live st by fastforce
  have bytes: "heap_bytes g = heap_bytes h" using kmalloc_bytes [of n h] m by simp
  obtain h' where h': "kfree p g' = Some h'" "heap_inv a e h'" "heap_bytes h' = heap_bytes g'"
    "heap_live h' = heap_live g - {(unat p, unat s)}"
    using kfree_live [of a e g' p "unat s"] g live t(1) unfolding heap_live_def g'_def by auto
  have "(unat q, t) \<noteq> (unat p, unat s)" using t(3) live by force
  then have "heap_live h' = insert (unat q, t) (heap_live h - {(unat p, unat s)})" using h'(4) t(1) by auto
  moreover have "heap_bytes h' y = heap_bytes h y" if "(x, l) \<in> heap_live h" "x \<le> unat y" "unat y < x + l" for x l y
  proof -
    have "disjoint_ranges (unat q, t) (x, l)" using t(2) that(1) by blast
    then show ?thesis
      using that st copy_bytes_disjoint(2) [OF disj bounds, of y] h'(3) bytes by (fastforce simp: g'_def)
  qed
  moreover have "\<forall>i<unat s. heap_bytes h' (q + of_nat i) = heap_bytes h (p + of_nat i)"
    using copy_bytes_disjoint(1) [OF disj bounds] h'(3) bytes by (simp add: g'_def)
  ultimately show ?thesis using h'(1,2) t(4) by blast
qed

lemma krealloc_live:
  assumes "heap_inv a e h" and "(unat p, unat s) \<in> heap_live h"
  shows "krealloc p n h = (if n \<le> s then Some (p, h)
     else let (q, g) = kmalloc n h in if q = 0 then Some (0, g)
       else map_option (Pair q) (kfree p (g\<lparr>heap_bytes := copy_bytes q p s (heap_bytes g)\<rparr>)))"
proof -
  obtain i where "p \<noteq> 0" "header_of p (heap_blocks h) = Some i" "payload (heap_blocks h ! i) = (unat p, unat s)"
    using header_of_live [OF assms(1)] assms(2) unfolding heap_live_def by blast
  moreover from this(3) have "hb_size (heap_blocks h ! i) = s" by (auto simp: payload_def simp flip: word_unat_eq_iff)
  ultimately show ?thesis by (simp add: krealloc_def Let_def)
qed

section \<open>Sequences of requests\<close>

text \<open>
  Clients of the heap issue requests in any order.  A request to release something that is
  not live is outside the contract and ends the sequence with \<open>None\<close>.
\<close>

datatype heap_op = Malloc u64 | Free u64

definition heap_step :: "heap_op \<Rightarrow> heap \<Rightarrow> heap option" where
  "heap_step op h = (case op of Malloc sz \<Rightarrow> Some (snd (kmalloc sz h))
     | Free p \<Rightarrow> if unat p \<in> fst ` heap_live h then kfree p h else None)"

fun heap_run :: "heap_op list \<Rightarrow> heap \<Rightarrow> heap option" where
  "heap_run [] h = Some h"
| "heap_run (op # ops) h = Option.bind (heap_step op h) (heap_run ops)"

lemma heap_step_separated:
  assumes "heap_inv a e h" and "separated (heap_live h)" and "heap_step op h = Some h'"
  shows "heap_inv a e h' \<and> separated (heap_live h')"
proof (cases op)
  case (Malloc sz)
  obtain p g where "kmalloc sz h = (p, g)" by force
  then show ?thesis using kh.malloc_separated [OF assms(1,2)] assms(3) Malloc by (simp add: heap_step_def)
next
  case (Free p)
  then obtain s where "(unat p, s) \<in> heap_live h" "kfree p h = Some h'"
    using assms(3) by (auto simp: heap_step_def split: if_splits)
  then show ?thesis using kh.free_separated [OF assms(1,2)] by fastforce
qed

lemma heap_run_separated:
  "heap_inv a e h \<Longrightarrow> separated (heap_live h) \<Longrightarrow> heap_run ops h = Some h' \<Longrightarrow>
     heap_inv a e h' \<and> separated (heap_live h')"
proof (induction ops arbitrary: h)
  case (Cons op ops)
  obtain g where g: "heap_step op h = Some g" "heap_run ops g = Some h'"
    using Cons.prems(3) by (auto simp: bind_eq_Some_conv)
  show ?case
    using Cons.IH [OF _ _ g(2)] heap_step_separated [OF Cons.prems(1,2) g(1)] by blast
qed simp

lemma heap_init_inv:
  assumes "8 \<le> unat base" and "24 \<le> unat sz" and "unat base + unat sz < 2 ^ 64"
  shows "heap_inv (unat base) (unat base + unat sz) (heap_init base sz h)"
    and "heap_live (heap_init base sz h) = {}"
proof -
  have "unat (sz - HEADER_SIZE) = unat sz - 24"
    using assms(2) by (simp add: unat_sub word_le_nat_alt header_nat)
  then show "heap_inv (unat base) (unat base + unat sz) (heap_init base sz h)"
    using assms by (simp add: heap_inv_def heap_init_def)
qed (simp add: heap_live_def heap_init_def)

section \<open>Correctness\<close>

definition demo_heap :: heap where
  "demo_heap = heap_init 4096 1024 \<lparr>heap_blocks = [], heap_bytes = (\<lambda>_. 0)\<rparr>"

lemma demo_heap_inv: "heap_inv 4096 5120 demo_heap" "heap_live demo_heap = {}"
  using heap_init_inv [of 4096 1024] by (simp_all add: demo_heap_def)

text \<open>
  C6.  \<open>kmalloc\<close> fails only when no free block is large enough, and then changes nothing;
  otherwise it keeps the tiling of the heap, and the payload it returns has at least the
  requested size, lies inside the heap, is disjoint from every live payload and becomes the
  only new one.
\<close>

theorem kmalloc_correct:
  assumes "heap_inv a e h" and "kmalloc sz h = (p, h')" and "unat sz \<le> 2 ^ 64 - 8"
  shows "if p = 0 then h' = h \<and> (\<forall>b\<in>set (heap_blocks h). hb_free b \<longrightarrow> hb_size b < (sz + 7) AND NOT 7)
    else heap_inv a e h' \<and> heap_bytes h' = heap_bytes h \<and>
      (\<exists>s. unat sz \<le> s \<and> a \<le> unat p \<and> unat p + s \<le> e \<and>
         heap_live h' = insert (unat p, s) (heap_live h) \<and>
         (\<forall>r\<in>heap_live h. disjoint_ranges (unat p, s) r))"
proof (cases "p = 0")
  case True
  then show ?thesis using kmalloc_cases [OF assms(1,2)] by simp
next
  case False
  obtain s where s: "heap_inv a e h'" "heap_live h' = insert (unat p, s) (heap_live h)"
    "\<forall>r\<in>heap_live h. disjoint_ranges (unat p, s) r" "unat sz \<le> s"
    using kmalloc_live [OF assms(1,2) False] assms(3) by auto
  moreover have "heap_bytes h' = heap_bytes h" using kmalloc_bytes [of sz h] assms(2) by simp
  ultimately show ?thesis using False live_bounds [OF s(1), of "unat p" s] by auto
qed

lemma kmalloc_correct_witness:
  "\<exists>s. (100::nat) \<le> s \<and> heap_live (snd (kmalloc 100 demo_heap)) = {(4120, s)}"
proof -
  have "fst (kmalloc 100 demo_heap) = 4120"
    by (simp add: kmalloc_def demo_heap_def heap_init_def HEADER_SIZE_def)
  then obtain g where g: "kmalloc 100 demo_heap = (4120, g)" by (metis prod.collapse)
  show ?thesis
    using kmalloc_correct [OF demo_heap_inv(1) g] by (auto simp: g demo_heap_inv(2))
qed

text \<open>
  C7.  Releasing a live payload always succeeds, keeps the tiling, removes exactly that payload
  and leaves no two neighbouring free blocks; when it was the last live one the heap is again
  the single free block that \<open>heap_init\<close> built.
\<close>

theorem kfree_correct:
  assumes "heap_inv a e h" and "(unat p, s) \<in> heap_live h"
  shows "\<exists>h'. kfree p h = Some h' \<and> heap_inv a e h' \<and> heap_live h' = heap_live h - {(unat p, s)} \<and>
    no_free_neighbours (heap_blocks h') \<and>
    (heap_live h = {(unat p, s)} \<longrightarrow>
      heap_blocks h' = heap_blocks (heap_init (of_nat a) (of_nat (e - a)) h))"
proof -
  obtain h' where h': "kfree p h = Some h'" "heap_inv a e h'" "no_free_neighbours (heap_blocks h')"
    "heap_live h' = heap_live h - {(unat p, s)}"
    using kfree_live assms unfolding heap_live_def by blast
  have e: "e < 2 ^ 64" "chained a (heap_blocks h') e" using h'(2) by (simp_all add: heap_inv_def)
  have "\<exists>b. b \<in> set (heap_blocks h)" using assms(2) by (auto simp: heap_live_def allocated_def)
  then have ae: "a + 24 \<le> e" using assms(1) chained_bounds by (fastforce simp: heap_inv_def)
  have "heap_blocks h' = heap_blocks (heap_init (of_nat a) (of_nat (e - a)) h)" if "heap_live h' = {}"
  proof -
    have "a < e" using ae by simp
    note single = all_free_single [OF e(2) that [unfolded heap_live_def] h'(3) this]
    then obtain b where b: "heap_blocks h' = [b]" "hb_free b" "unat (hb_addr b) = a" "unat (hb_size b) = e - a - 24"
      by blast
    have "of_nat (e - a) - HEADER_SIZE = (of_nat (e - a - 24) :: u64)"
      using ae by (simp add: HEADER_SIZE_def of_nat_diff)
    then have "b = \<lparr>hb_addr = of_nat a, hb_size = of_nat (e - a) - HEADER_SIZE, hb_free = True\<rparr>"
      using b(2) arg_cong [OF b(3), of "of_nat :: nat \<Rightarrow> u64"] arg_cong [OF b(4), of "of_nat :: nat \<Rightarrow> u64"]
      by (intro heap_block.equality) simp_all
    then show ?thesis using b(1) by (simp add: heap_init_def)
  qed
  then show ?thesis using h' by auto
qed

definition demo_heap1 :: heap where "demo_heap1 = snd (kmalloc 100 demo_heap)"

lemma demo_heap1_state: "heap_inv 4096 5120 demo_heap1" "heap_live demo_heap1 = {(4120, 104)}"
proof -
  have *: "demo_heap1 = \<lparr>heap_blocks = [\<lparr>hb_addr = 4096, hb_size = 104, hb_free = False\<rparr>,
      \<lparr>hb_addr = 4224, hb_size = 872, hb_free = True\<rparr>], heap_bytes = (\<lambda>_. 0)\<rparr>"
    by (simp add: demo_heap1_def kmalloc_def demo_heap_def heap_init_def HEADER_SIZE_def)
  show "heap_inv 4096 5120 demo_heap1" "heap_live demo_heap1 = {(4120, 104)}"
    unfolding * by (simp_all add: heap_inv_def heap_live_def payload_def)
qed

lemma kfree_correct_witness:
  "\<exists>h'. kfree 4120 demo_heap1 = Some h' \<and> heap_blocks h' = heap_blocks demo_heap"
  using kfree_correct [OF demo_heap1_state(1), of 4120 104]
  by (auto simp: demo_heap1_state(2) demo_heap_def heap_init_def)

text \<open>
  C8.  Resizing a live payload never gets stuck.  It either fails and changes nothing, or
  returns a live payload of at least the new size that holds every byte of the old one; every
  other live payload stays live with its bytes unchanged.
\<close>

theorem krealloc_preserves:
  fixes s n :: u64
  assumes "heap_inv a e h" and "(unat p, unat s) \<in> heap_live h" and "unat n \<le> 2 ^ 64 - 8"
  shows "\<exists>q h'. krealloc p n h = Some (q, h') \<and>
    (if q = 0 then h' = h
     else heap_inv a e h' \<and>
       (\<exists>t. unat n \<le> t \<and> heap_live h' = insert (unat q, t) (heap_live h - {(unat p, unat s)})) \<and>
       (\<forall>i<unat s. heap_bytes h' (q + of_nat i) = heap_bytes h (p + of_nat i)) \<and>
       (\<forall>(x, l)\<in>heap_live h. \<forall>y. x \<le> unat y \<and> unat y < x + l \<longrightarrow> heap_bytes h' y = heap_bytes h y))"
proof (cases "n \<le> s")
  case True
  have "heap_live h = insert (unat p, unat s) (heap_live h - {(unat p, unat s)})" using assms(2) by blast
  moreover have "unat n \<le> unat s" using True by (simp add: word_le_nat_alt)
  ultimately show ?thesis using True assms(1) krealloc_live [OF assms(1,2), of n] by auto
next
  case False
  obtain q g where m: "kmalloc n h = (q, g)" by force
  note kr = krealloc_live [OF assms(1,2), of n, unfolded m]
  show ?thesis
  proof (cases "q = 0")
    case True
    then show ?thesis using kr False kmalloc_cases [OF assms(1) m] by simp
  next
    case q: False
    then show ?thesis using kr False krealloc_move [OF assms(1,2) False assms(3) m q] by auto
  qed
qed

lemma krealloc_preserves_witness: "\<exists>q h'. krealloc 4120 200 demo_heap1 = Some (q, h') \<and>
    (q = 0 \<longrightarrow> h' = demo_heap1) \<and> (q \<noteq> 0 \<longrightarrow> (\<exists>t\<ge>200. heap_live h' = {(unat q, t)}))"
proof -
  have "(unat (4120::u64), unat (104::u64)) \<in> heap_live demo_heap1" by (simp add: demo_heap1_state(2))
  from krealloc_preserves [OF demo_heap1_state(1) this, of 200] show ?thesis
    by (auto simp: demo_heap1_state(2) split: if_splits)
qed



end
