(* ===== verification/Page_Tables.thy ===== *)
theory Page_Tables
  imports Phys_Memory
begin

text \<open>
  kernel/memory/page_tables.c and kernel/memory/virtual_memory.c: the four-level AArch64
  tables.  A table is a page of 512 words in the word memory \<open>vm_mem\<close>, reached by the
  addresses stored in the entries, as in the source; new tables come from the physical
  allocator.  The loops of \<open>virt_map\<close> and \<open>virt_unmap\<close> count in 64 bits and may not end, so
  they are partial functions.
\<close>

section \<open>State and operations\<close>

record vm =
  vm_phys :: phys_mem
  vm_mem :: "u64 \<Rightarrow> u64"

definition PTE_VALID :: u64 where "PTE_VALID = 1"
definition PTE_TABLE :: u64 where "PTE_TABLE = 2"
definition PTE_PAGE :: u64 where "PTE_PAGE = 2"
definition PTE_AF :: u64 where "PTE_AF = push_bit 10 1"
definition PTE_SH_INNER :: u64 where "PTE_SH_INNER = push_bit 8 3"
definition PTE_MAIR_IDX :: "u64 \<Rightarrow> u64" where "PTE_MAIR_IDX n = push_bit 2 n"
definition PTE_AP_RW_EL1 :: u64 where "PTE_AP_RW_EL1 = 0"
definition PTE_AP_RW_ALL :: u64 where "PTE_AP_RW_ALL = push_bit 6 1"
definition PTE_AP_RO_EL1 :: u64 where "PTE_AP_RO_EL1 = push_bit 6 2"
definition PTE_AP_RO_ALL :: u64 where "PTE_AP_RO_ALL = push_bit 6 3"
definition PTE_AP_MASK :: u64 where "PTE_AP_MASK = push_bit 6 3"
definition PTE_PXN :: u64 where "PTE_PXN = push_bit 53 1"
definition PTE_UXN :: u64 where "PTE_UXN = push_bit 54 1"
definition PTE_ADDR_MASK :: u64 where "PTE_ADDR_MASK = 0x0000FFFFFFFFF000"
definition AEGIS_VM_WRITE :: u32 where "AEGIS_VM_WRITE = 2"
definition AEGIS_VM_EXEC :: u32 where "AEGIS_VM_EXEC = 4"
definition AEGIS_VM_USER :: u32 where "AEGIS_VM_USER = 8"
definition AEGIS_VM_GUARD :: u32 where "AEGIS_VM_GUARD = 32"

lemmas pte_consts = PTE_VALID_def PTE_TABLE_def PTE_PAGE_def PTE_AF_def PTE_SH_INNER_def PTE_MAIR_IDX_def
  PTE_AP_RW_EL1_def PTE_AP_RW_ALL_def PTE_AP_RO_EL1_def PTE_AP_RO_ALL_def PTE_AP_MASK_def PTE_PXN_def
  PTE_UXN_def PTE_ADDR_MASK_def
lemmas vm_flags = AEGIS_VM_WRITE_def AEGIS_VM_EXEC_def AEGIS_VM_USER_def AEGIS_VM_GUARD_def

text \<open>The address of the word \<open>t[i]\<close> of a table of \<open>u64\<close>.\<close>

definition slot :: "u64 \<Rightarrow> u64 \<Rightarrow> u64" where
  "slot t i = t + 8 * i"

definition alloc_page_table :: "vm \<Rightarrow> u64 \<times> vm" where
  "alloc_page_table s =
     (let (pa, m) = phys_alloc_page (vm_phys s)
      in if pa = 0 then (0, s\<lparr>vm_phys := m\<rparr>)
         else (pa, s\<lparr>vm_phys := m, vm_mem := fold (\<lambda>i mem. mem(slot pa (of_nat i) := 0)) [0..<512] (vm_mem s)\<rparr>))"

definition page_attrs_from_flags :: "u32 \<Rightarrow> u64" where
  "page_attrs_from_flags flags =
     (let attrs = PTE_VALID OR PTE_PAGE OR PTE_AF OR PTE_SH_INNER OR PTE_MAIR_IDX 0
      in if flags AND AEGIS_VM_USER \<noteq> 0 then
           let attrs = attrs OR (if flags AND AEGIS_VM_WRITE \<noteq> 0 then PTE_AP_RW_ALL else PTE_AP_RO_ALL);
               attrs = attrs OR PTE_PXN
           in if flags AND AEGIS_VM_EXEC = 0 then attrs OR PTE_UXN else attrs
         else
           let attrs = attrs OR (if flags AND AEGIS_VM_WRITE \<noteq> 0 then PTE_AP_RW_EL1 else PTE_AP_RO_EL1)
           in if flags AND AEGIS_VM_EXEC = 0 then attrs OR (PTE_UXN OR PTE_PXN) else attrs OR PTE_UXN)"

definition page_table_init :: "u64 \<Rightarrow> vm \<Rightarrow> int \<times> vm" where
  "page_table_init kernel_pgtable s =
     (AEGIS_OK, s\<lparr>vm_mem := fold (\<lambda>i mem. mem(slot kernel_pgtable (of_nat i) := 0)) [0..<512] (vm_mem s)\<rparr>)"

definition pt_index :: "nat \<Rightarrow> u64 \<Rightarrow> u64" where
  "pt_index shift va = drop_bit shift va AND 0x1FF"

text \<open>
  One level of the descent of \<open>page_table_map\<close>: the table the entry points to, which is
  allocated first when the entry is not valid; \<open>None\<close> when that fails.
\<close>

definition next_table :: "u64 \<Rightarrow> u64 \<Rightarrow> vm \<Rightarrow> u64 option \<times> vm" where
  "next_table t i s =
     (if vm_mem s (slot t i) AND PTE_VALID = 0 then
        let (n, s) = alloc_page_table s
        in if n = 0 then (None, s)
           else let s = s\<lparr>vm_mem := (vm_mem s)(slot t i := (n AND PTE_ADDR_MASK) OR PTE_VALID OR PTE_TABLE)\<rparr>
                in (Some (vm_mem s (slot t i) AND PTE_ADDR_MASK), s)
      else (Some (vm_mem s (slot t i) AND PTE_ADDR_MASK), s))"

definition page_table_map :: "u64 \<Rightarrow> u64 \<Rightarrow> u64 \<Rightarrow> u32 \<Rightarrow> vm \<Rightarrow> int \<times> vm" where
  "page_table_map l0 va pa flags s =
     (if l0 = 0 then (AEGIS_EINVAL, s)
      else if va AND 4095 \<noteq> 0 \<or> pa AND 4095 \<noteq> 0 then (AEGIS_EINVAL, s)
      else if flags AND AEGIS_VM_GUARD \<noteq> 0 then (AEGIS_EINVAL, s)
      else case next_table l0 (pt_index 39 va) s of
        (None, s) \<Rightarrow> (AEGIS_ENOMEM, s)
      | (Some l1, s) \<Rightarrow> (case next_table l1 (pt_index 30 va) s of
          (None, s) \<Rightarrow> (AEGIS_ENOMEM, s)
        | (Some l2, s) \<Rightarrow> (case next_table l2 (pt_index 21 va) s of
            (None, s) \<Rightarrow> (AEGIS_ENOMEM, s)
          | (Some l3, s) \<Rightarrow>
              (AEGIS_OK, s\<lparr>vm_mem := (vm_mem s)
                 (slot l3 (pt_index 12 va) := (pa AND PTE_ADDR_MASK) OR page_attrs_from_flags flags)\<rparr>))))"

text \<open>The result code, and on success the values stored through \<open>pa_out\<close> and \<open>entry_out\<close>.\<close>

definition page_table_query :: "u64 \<Rightarrow> u64 \<Rightarrow> vm \<Rightarrow> int \<times> (u64 \<times> u64) option" where
  "page_table_query l0 va s =
     (let m = vm_mem s in
      if l0 = 0 then (AEGIS_EINVAL, None)
      else if m (slot l0 (pt_index 39 va)) AND PTE_VALID = 0 then (AEGIS_ENOENT, None)
      else let l1 = m (slot l0 (pt_index 39 va)) AND PTE_ADDR_MASK in
      if m (slot l1 (pt_index 30 va)) AND PTE_VALID = 0 then (AEGIS_ENOENT, None)
      else let l2 = m (slot l1 (pt_index 30 va)) AND PTE_ADDR_MASK in
      if m (slot l2 (pt_index 21 va)) AND PTE_VALID = 0 then (AEGIS_ENOENT, None)
      else let l3 = m (slot l2 (pt_index 21 va)) AND PTE_ADDR_MASK; entry = m (slot l3 (pt_index 12 va)) in
      if entry AND PTE_VALID = 0 then (AEGIS_ENOENT, None)
      else (AEGIS_OK, Some ((entry AND PTE_ADDR_MASK) OR (va AND 4095), entry)))"

definition page_table_entry_is_valid :: "u64 \<Rightarrow> bool" where
  "page_table_entry_is_valid entry \<longleftrightarrow> entry AND PTE_VALID \<noteq> 0"

definition page_table_entry_allows_user :: "u64 \<Rightarrow> bool" where
  "page_table_entry_allows_user entry \<longleftrightarrow>
     (let ap = entry AND PTE_AP_MASK in ap = PTE_AP_RW_ALL \<or> ap = PTE_AP_RO_ALL)"

definition page_table_entry_allows_write :: "u64 \<Rightarrow> bool" where
  "page_table_entry_allows_write entry \<longleftrightarrow>
     (let ap = entry AND PTE_AP_MASK in ap = PTE_AP_RW_EL1 \<or> ap = PTE_AP_RW_ALL)"

definition page_table_entry_allows_el0_execute :: "u64 \<Rightarrow> bool" where
  "page_table_entry_allows_el0_execute entry \<longleftrightarrow> page_table_entry_allows_user entry \<and> entry AND PTE_UXN = 0"

definition page_table_entry_is_privileged_only :: "u64 \<Rightarrow> bool" where
  "page_table_entry_is_privileged_only entry \<longleftrightarrow>
     page_table_entry_is_valid entry \<and> \<not> page_table_entry_allows_user entry"

subsection \<open>Ranges of the kernel table\<close>

definition virt_mem_init :: "u64 \<Rightarrow> vm \<Rightarrow> int \<times> vm" where
  "virt_mem_init kernel_pgtable s = page_table_init kernel_pgtable s"

partial_function (option) virt_map_loop ::
  "u64 \<Rightarrow> u64 \<Rightarrow> u64 \<Rightarrow> u64 \<Rightarrow> u32 \<Rightarrow> u64 \<Rightarrow> vm \<Rightarrow> (int \<times> vm) option" where
  "virt_map_loop kernel_pgtable va pa sz flags offset s =
     (if offset < sz then
        let (ret, s) = page_table_map kernel_pgtable (va + offset) (pa + offset) flags s
        in if ret \<noteq> AEGIS_OK then Some (ret, s)
           else virt_map_loop kernel_pgtable va pa sz flags (offset + 4096) s
      else Some (AEGIS_OK, s))"

definition virt_map :: "u64 \<Rightarrow> u64 \<Rightarrow> u64 \<Rightarrow> u64 \<Rightarrow> u32 \<Rightarrow> vm \<Rightarrow> (int \<times> vm) option" where
  "virt_map kernel_pgtable va pa sz flags s = virt_map_loop kernel_pgtable va pa sz flags 0 s"

text \<open>The walk of \<open>virt_unmap\<close> for one page; its table addresses keep all upper entry bits.\<close>

definition unmap_page :: "u64 \<Rightarrow> u64 \<Rightarrow> vm \<Rightarrow> vm" where
  "unmap_page l0 cur s =
     (let m = vm_mem s; e0 = m (slot l0 (pt_index 39 cur)) in
      if e0 AND 1 = 0 then s
      else let e1 = m (slot (e0 AND NOT 0xFFF) (pt_index 30 cur)) in
      if e1 AND 1 = 0 then s
      else let e2 = m (slot (e1 AND NOT 0xFFF) (pt_index 21 cur)) in
      if e2 AND 1 = 0 then s
      else s\<lparr>vm_mem := m(slot (e2 AND NOT 0xFFF) (pt_index 12 cur) := 0)\<rparr>)"

partial_function (option) virt_unmap_loop :: "u64 \<Rightarrow> u64 \<Rightarrow> u64 \<Rightarrow> u64 \<Rightarrow> vm \<Rightarrow> vm option" where
  "virt_unmap_loop kernel_pgtable va sz offset s =
     (if offset < sz then virt_unmap_loop kernel_pgtable va sz (offset + 4096) (unmap_page kernel_pgtable (va + offset) s)
      else Some s)"

definition virt_unmap :: "u64 \<Rightarrow> u64 \<Rightarrow> u64 \<Rightarrow> vm \<Rightarrow> (int \<times> vm) option" where
  "virt_unmap kernel_pgtable va sz s = map_option (Pair AEGIS_OK) (virt_unmap_loop kernel_pgtable va sz 0 s)"

text \<open>
  \<open>virt_to_phys\<close> asks the MMU: \<open>at s1e1r\<close> followed by a read of \<open>PAR_EL1\<close> is the parameter
  \<open>par_el1\<close>.
\<close>

definition virt_to_phys :: "(u64 \<Rightarrow> u64) \<Rightarrow> u64 \<Rightarrow> u64" where
  "virt_to_phys par_el1 va =
     (let par = par_el1 va in if par AND 1 \<noteq> 0 then 0 else (par AND PTE_ADDR_MASK) OR (va AND 0xFFF))"

section \<open>Words of a table\<close>

lemma and_valid: "e AND PTE_VALID = 0 \<longleftrightarrow> \<not> bit e 0" for e :: u64
  by (simp add: PTE_VALID_def and_one_eq bit_0 even_iff_mod_2_eq_zero [symmetric])

lemma pt_index_take: "pt_index n va = take_bit 9 (drop_bit n va)"
proof -
  have "(0x1FF :: u64) = mask 9" by (simp add: mask_eq_exp_minus_1)
  then show ?thesis by (simp add: pt_index_def take_bit_eq_mask)
qed

lemma pt_index_less: "unat (pt_index n va) < 512"
proof -
  have "unat (pt_index n va) = take_bit 9 (unat (drop_bit n va))" by (simp only: pt_index_take unsigned_take_bit_eq)
  then show ?thesis using take_bit_nat_less_exp [of 9] by simp
qed

definition aligned :: "u64 \<Rightarrow> bool" where
  "aligned t \<longleftrightarrow> unat t mod 4096 = 0"

lemma unat_slot:
  assumes "aligned t" and "unat i < 512"
  shows "unat (slot t i) = unat t + 8 * unat i"
proof -
  have "unat (8 * i) = 8 * unat i"
    using assms(2) unat_mult_lem [of 8 i] by simp
  moreover obtain k where "unat t = 4096 * k" using assms(1) by (auto simp: aligned_def dvd_def mod_eq_0_iff_dvd)
  moreover have "unat t < 2 ^ 64" using unat_bounds(4) [of t] by simp
  ultimately have "unat t + unat (8 * i) < 2 ^ 64" using assms(2) by simp
  then show ?thesis unfolding slot_def using \<open>unat (8 * i) = _\<close> by (subst unat_plus_small) simp_all
qed

lemma slot_inj:
  assumes "aligned t" "aligned u" "unat i < 512" "unat j < 512" "slot t i = slot u j"
  shows "t = u \<and> i = j"
proof -
  have eq: "unat t + 8 * unat i = unat u + 8 * unat j"
    using assms unat_slot by metis
  obtain k l where kl: "unat t = 4096 * k" "unat u = 4096 * l"
    using assms(1,2) by (auto simp: aligned_def dvd_def mod_eq_0_iff_dvd)
  have "k = l" using eq kl assms(3,4) by linarith
  then have "unat t = unat u" "unat i = unat j" using eq kl by auto
  then show ?thesis by (simp add: word_unat_eq_iff)
qed

lemma zero_fold:
  "fold (\<lambda>i mem. mem(slot pa (of_nat i) := 0)) [0..<n] mem x =
     (if \<exists>i<n. x = slot pa (of_nat i) then 0 else mem x)"
  by (induction n) (auto simp: less_Suc_eq)

lemma zeroed:
  "aligned pa \<Longrightarrow> unat i < 512 \<Longrightarrow>
     fold (\<lambda>i mem. mem(slot pa (of_nat i) := 0)) [0..<512] mem (slot pa i) = 0"
  unfolding zero_fold by (auto intro: exI [of _ "unat i"])

lemma zeroed_other:
  assumes "aligned pa" "aligned t" "t \<noteq> pa" "unat i < 512"
  shows "fold (\<lambda>i mem. mem(slot pa (of_nat i) := 0)) [0..<512] mem (slot t i) = mem (slot t i)"
proof -
  have "slot t i \<noteq> slot pa (of_nat k)" if "k < 512" for k
    using slot_inj [OF assms(2,1,4), of "of_nat k"] assms(3) that by (auto simp: unat_of_nat_small)
  then show ?thesis unfolding zero_fold by auto
qed

section \<open>The tree of tables\<close>

text \<open>
  \<open>lev\<close> assigns a level to every table in use.  Tables are frames of the allocator below
  2^48; a valid entry of a table above the last level leads to a table of the next level,
  and to each table leads one entry only.
\<close>

definition child :: "u64 \<Rightarrow> u64" where
  "child e = e AND PTE_ADDR_MASK"

definition pt_inv :: "u64 \<Rightarrow> (u64 \<Rightarrow> nat option) \<Rightarrow> vm \<Rightarrow> bool" where
  "pt_inv l0 lev s \<longleftrightarrow>
     phys_ok (vm_phys s) \<and> unat (phys_base (vm_phys s)) + unat (total_pages (vm_phys s)) * 4096 \<le> 2 ^ 48 \<and>
     lev l0 = Some 0 \<and> dom lev \<subseteq> owned_pages (vm_phys s) \<and>
     (\<forall>t k i. lev t = Some k \<and> k < 3 \<and> unat i < 512 \<and> bit (vm_mem s (slot t i)) 0 \<longrightarrow>
        lev (child (vm_mem s (slot t i))) = Some (Suc k) \<and>
        child (vm_mem s (slot t i)) = vm_mem s (slot t i) AND NOT 0xFFF) \<and>
     (\<forall>t u k l i j. lev t = Some k \<and> k < 3 \<and> unat i < 512 \<and> bit (vm_mem s (slot t i)) 0 \<and>
        lev u = Some l \<and> l < 3 \<and> unat j < 512 \<and> bit (vm_mem s (slot u j)) 0 \<and>
        child (vm_mem s (slot t i)) = child (vm_mem s (slot u j)) \<longrightarrow> t = u \<and> i = j)"

lemma owned_facts:
  assumes "phys_ok m" and "unat (phys_base m) + unat (total_pages m) * 4096 \<le> 2 ^ 48" and "t \<in> owned_pages m"
  shows "aligned t" and "unat t < 2 ^ 48" and "t \<noteq> 0"
proof -
  obtain i where i: "i < unat (total_pages m)" "t = frame_addr m i"
    using assms(3) by (auto simp: owned_pages_def used_frames_def)
  have lay: "phys_layout_ok m" using assms(1) by (simp add: phys_ok_def)
  show "aligned t"
    using frame_addr_aligned [OF lay i(1)] page_aligned_iff [of t] i(2) by (simp add: aligned_def frame_addr_def)
  show "t \<noteq> 0" using frame_addr_nonzero [OF lay i(1)] i(2) by simp
  show "unat t < 2 ^ 48" using unat_frame_addr [OF lay i(1)] assms(2) i by simp
qed

lemma pt_inv_table:
  assumes "pt_inv l0 lev s" and "lev t = Some k"
  shows "aligned t" and "unat t < 2 ^ 48" and "t \<noteq> 0" and "t \<in> owned_pages (vm_phys s)"
proof -
  have o: "t \<in> owned_pages (vm_phys s)" and "phys_ok (vm_phys s)"
    "unat (phys_base (vm_phys s)) + unat (total_pages (vm_phys s)) * 4096 \<le> 2 ^ 48"
    using assms unfolding pt_inv_def by auto
  then show "aligned t" "unat t < 2 ^ 48" "t \<noteq> 0" "t \<in> owned_pages (vm_phys s)"
    using owned_facts by auto
qed

lemma pt_inv_child:
  assumes "pt_inv l0 lev s" "lev t = Some k" "k < 3" "unat i < 512" "bit (vm_mem s (slot t i)) 0"
  shows "lev (child (vm_mem s (slot t i))) = Some (Suc k)"
    and "child (vm_mem s (slot t i)) = vm_mem s (slot t i) AND NOT 0xFFF"
proof -
  have "\<forall>t k i. lev t = Some k \<and> k < 3 \<and> unat i < 512 \<and> bit (vm_mem s (slot t i)) 0 \<longrightarrow>
        lev (child (vm_mem s (slot t i))) = Some (Suc k) \<and>
        child (vm_mem s (slot t i)) = vm_mem s (slot t i) AND NOT 0xFFF"
    using assms(1) unfolding pt_inv_def by blast
  with assms(2-) show "lev (child (vm_mem s (slot t i))) = Some (Suc k)"
    "child (vm_mem s (slot t i)) = vm_mem s (slot t i) AND NOT 0xFFF" by blast+
qed

lemma pt_inv_unique:
  assumes "pt_inv l0 lev s" "lev t = Some k" "k < 3" "unat i < 512" "bit (vm_mem s (slot t i)) 0"
    "lev u = Some l" "l < 3" "unat j < 512" "bit (vm_mem s (slot u j)) 0"
    "child (vm_mem s (slot t i)) = child (vm_mem s (slot u j))"
  shows "t = u \<and> i = j"
proof -
  have "\<forall>t u k l i j. lev t = Some k \<and> k < 3 \<and> unat i < 512 \<and> bit (vm_mem s (slot t i)) 0 \<and>
        lev u = Some l \<and> l < 3 \<and> unat j < 512 \<and> bit (vm_mem s (slot u j)) 0 \<and>
        child (vm_mem s (slot t i)) = child (vm_mem s (slot u j)) \<longrightarrow> t = u \<and> i = j"
    using assms(1) unfolding pt_inv_def by blast
  with assms(2-) show ?thesis by blast
qed

text \<open>Storing a table address in an entry and reading it back.\<close>

lemma addr_mask_bits: "bit PTE_ADDR_MASK n \<longleftrightarrow> 12 \<le> n \<and> n < 48"
proof -
  have eq: "PTE_ADDR_MASK = push_bit 12 (mask 36)" by (simp add: PTE_ADDR_MASK_def mask_eq_exp_minus_1)
  show ?thesis unfolding eq by (auto simp: bit_push_bit_iff bit_mask_iff)
qed

lemma aligned_bits: "aligned t \<Longrightarrow> n < 12 \<Longrightarrow> \<not> bit t n"
proof -
  assume *: "aligned t" "n < 12"
  then have "t AND 4095 = 0" by (simp add: page_aligned_iff aligned_def)
  moreover have "(4095 :: u64) = mask 12" by (simp add: mask_eq_exp_minus_1)
  ultimately have "\<not> bit (t AND mask 12) n" by simp
  then show ?thesis using * by (simp add: bit_simps)
qed

lemma small_bits: "unat (t::u64) < 2 ^ 48 \<Longrightarrow> 48 \<le> n \<Longrightarrow> \<not> bit t n"
proof -
  assume *: "unat t < 2 ^ 48" "48 \<le> n"
  then have "unat (take_bit 48 t) = unat t" by (simp only: unsigned_take_bit_eq take_bit_nat_eq_self)
  then have "take_bit 48 t = t" by (simp only: word_unat_eq_iff)
  then show ?thesis using * by (metis bit_take_bit_iff not_less)
qed

lemma frame_masked: "aligned t \<Longrightarrow> unat t < 2 ^ 48 \<Longrightarrow> t AND PTE_ADDR_MASK = t"
  by (rule bit_word_eqI) (metis aligned_bits addr_mask_bits bit_and_iff not_less small_bits)

lemma table_entry:
  assumes "aligned n" and "unat n < 2 ^ 48"
  defines "e \<equiv> (n AND PTE_ADDR_MASK) OR PTE_VALID OR PTE_TABLE"
  shows "bit e 0" and "child e = n" and "e AND NOT 0xFFF = n"
proof -
  have low: "PTE_VALID AND PTE_ADDR_MASK = 0" "PTE_TABLE AND PTE_ADDR_MASK = 0"
    "PTE_VALID AND NOT 0xFFF = 0" "PTE_TABLE AND NOT 0xFFF = 0"
    by (simp_all add: pte_consts)
  have e: "e = n OR (PTE_VALID OR PTE_TABLE)" using frame_masked [OF assms(1,2)] by (simp add: e_def or.assoc)
  show "bit e 0" unfolding e by (simp only: bit_or_iff PTE_VALID_def) simp
  show "child e = n" unfolding e child_def bit.conj_disj_distrib2 using low frame_masked [OF assms(1,2)] by simp
  have "n AND NOT 0xFFF = n"
  proof -
    have eq: "(0xFFF :: u64) = mask 12" by (simp add: mask_eq_exp_minus_1)
    show ?thesis unfolding eq using aligned_bits [OF assms(1)] by (intro bit_word_eqI) (auto simp: bit_simps)
  qed
  then show "e AND NOT 0xFFF = n" unfolding e bit.conj_disj_distrib2 using low by simp
qed

lemma pt_inv_base:
  assumes "pt_inv l0 lev s"
  shows "phys_ok (vm_phys s)" and "unat (phys_base (vm_phys s)) + unat (total_pages (vm_phys s)) * 4096 \<le> 2 ^ 48"
    and "lev l0 = Some 0" and "dom lev \<subseteq> owned_pages (vm_phys s)"
  using assms unfolding pt_inv_def by blast+

lemma pt_inv_transfer:
  assumes "pt_inv l0 lev s"
    and "\<And>u l j. lev u = Some l \<Longrightarrow> l < 3 \<Longrightarrow> unat j < 512 \<Longrightarrow> vm_mem s' (slot u j) = vm_mem s (slot u j)"
    and "vm_phys s' = vm_phys s"
  shows "pt_inv l0 lev s'"
proof -
  have "lev (child (vm_mem s' (slot t i))) = Some (Suc k) \<and>
        child (vm_mem s' (slot t i)) = vm_mem s' (slot t i) AND NOT 0xFFF"
    if "lev t = Some k \<and> k < 3 \<and> unat i < 512 \<and> bit (vm_mem s' (slot t i)) 0" for t k i
    using that assms(2) [of t k i] pt_inv_child [OF assms(1), of t k i] by simp
  moreover have "t = u \<and> i = j"
    if "lev t = Some k \<and> k < 3 \<and> unat i < 512 \<and> bit (vm_mem s' (slot t i)) 0 \<and>
        lev u = Some l \<and> l < 3 \<and> unat j < 512 \<and> bit (vm_mem s' (slot u j)) 0 \<and>
        child (vm_mem s' (slot t i)) = child (vm_mem s' (slot u j))" for t u k l i j
    using that assms(2) [of t k i] assms(2) [of u l j] by (intro pt_inv_unique [OF assms(1), of t k i u l j]) simp_all
  ultimately show ?thesis using pt_inv_base [OF assms(1)] unfolding pt_inv_def assms(3) by blast
qed

section \<open>Walks\<close>

text \<open>
  \<open>walk_tab m t is\<close> follows the indices \<open>is\<close> from table \<open>t\<close> through valid entries;
  \<open>pte m l0 is\<close> is the valid leaf entry at the end of a full path.
\<close>

fun walk_tab :: "(u64 \<Rightarrow> u64) \<Rightarrow> u64 \<Rightarrow> u64 list \<Rightarrow> u64 option" where
  "walk_tab m t [] = Some t"
| "walk_tab m t (i # is) =
     (if bit (m (slot t i)) 0 then walk_tab m (child (m (slot t i))) is else None)"

definition pte :: "(u64 \<Rightarrow> u64) \<Rightarrow> u64 \<Rightarrow> u64 list \<times> u64 \<Rightarrow> u64 option" where
  "pte m l0 p = (case walk_tab m l0 (fst p) of None \<Rightarrow> None
     | Some t \<Rightarrow> if bit (m (slot t (snd p))) 0 then Some (m (slot t (snd p))) else None)"

definition va_path :: "u64 \<Rightarrow> u64 list \<times> u64" where
  "va_path va = ([pt_index 39 va, pt_index 30 va, pt_index 21 va], pt_index 12 va)"

definition path_ok :: "u64 list \<times> u64 \<Rightarrow> bool" where
  "path_ok p \<longleftrightarrow> length (fst p) = 3 \<and> (\<forall>i\<in>set (fst p). unat i < 512) \<and> unat (snd p) < 512"

lemma path_ok_va [simp]: "path_ok (va_path va)"
  by (simp add: path_ok_def va_path_def pt_index_less)

lemma page_table_query_pte:
  "l0 \<noteq> 0 \<Longrightarrow> page_table_query l0 va s = (case pte (vm_mem s) l0 (va_path va) of
     None \<Rightarrow> (AEGIS_ENOENT, None)
   | Some e \<Rightarrow> (AEGIS_OK, Some ((e AND PTE_ADDR_MASK) OR (va AND 4095), e)))"
  by (simp add: page_table_query_def Let_def pte_def va_path_def and_valid child_def)

lemma pte_Cons:
  "pte m t (i # is, j) = (if bit (m (slot t i)) 0 then pte m (child (m (slot t i))) (is, j) else None)"
  by (auto simp: pte_def split: option.splits)

lemma walk_tab_append:
  "walk_tab m t (is @ js) = Option.bind (walk_tab m t is) (\<lambda>u. walk_tab m u js)"
  by (induction "is" arbitrary: t) auto

lemma walk_tab_level:
  assumes "pt_inv l0 lev s" and "walk_tab (vm_mem s) t is = Some u" and "lev t = Some k"
    and "k + length is \<le> 3" and "\<forall>i\<in>set is. unat i < 512"
  shows "lev u = Some (k + length is)"
  using assms(2-)
proof (induction "is" arbitrary: t k)
  case (Cons i "is")
  have v: "bit (vm_mem s (slot t i)) 0" and w: "walk_tab (vm_mem s) (child (vm_mem s (slot t i))) is = Some u"
    using Cons.prems(1) by (auto split: if_splits)
  have "lev (child (vm_mem s (slot t i))) = Some (Suc k)"
    using Cons.prems(3,4) by (intro pt_inv_child(1) [OF assms(1) Cons.prems(2) _ _ v]) auto
  from Cons.IH [OF w this] Cons.prems(3,4) show ?case by simp
qed simp

text \<open>To a table leads one path only.\<close>

lemma walk_tab_inj:
  assumes "pt_inv l0 lev s" and "length is = length js" and "length is \<le> 3"
    and "\<forall>i\<in>set is. unat i < 512" and "\<forall>i\<in>set js. unat i < 512"
    and "walk_tab (vm_mem s) l0 is = Some u" and "walk_tab (vm_mem s) l0 js = Some u"
  shows "is = js"
  using assms(2-)
proof (induction "is" arbitrary: js u rule: rev_induct)
  case (snoc i "is")
  then obtain j js' where js: "js = js' @ [j]" by (cases js rule: rev_cases) auto
  obtain t where t: "walk_tab (vm_mem s) l0 is = Some t" "bit (vm_mem s (slot t i)) 0" "child (vm_mem s (slot t i)) = u"
    using snoc.prems(5) by (auto simp: walk_tab_append bind_eq_Some_conv split: if_splits)
  obtain t' where t': "walk_tab (vm_mem s) l0 js' = Some t'" "bit (vm_mem s (slot t' j)) 0" "child (vm_mem s (slot t' j)) = u"
    using snoc.prems(6) by (auto simp: js walk_tab_append bind_eq_Some_conv split: if_splits)
  have l0: "lev l0 = Some 0" using assms(1) by (simp add: pt_inv_def)
  have "lev t = Some (length is)" "lev t' = Some (length js')"
    using walk_tab_level [OF assms(1) t(1) l0] walk_tab_level [OF assms(1) t'(1) l0] snoc.prems(1-4) js by auto
  note lv = this
  have "t = t' \<and> i = j"
    using snoc.prems(1-4) js t(3) t'(3)
    by (intro pt_inv_unique [OF assms(1) lv(1) _ _ t(2) lv(2) _ _ t'(2)]) auto
  then show ?case using snoc.IH [of js' t] snoc.prems(1-4) js t(1) t'(1) by auto
qed simp

lemma pte_same_tables:
  assumes "pt_inv l0 lev s" and "path_ok p"
    and "\<And>t k i. lev t = Some k \<Longrightarrow> unat i < 512 \<Longrightarrow> m (slot t i) = vm_mem s (slot t i)"
  shows "pte m l0 p = pte (vm_mem s) l0 p"
proof -
  have walk: "walk_tab m t is = walk_tab (vm_mem s) t is"
    if "lev t = Some k" "k + length is \<le> 3" "\<forall>i\<in>set is. unat i < 512" for t k "is"
    using that
  proof (induction "is" arbitrary: t k)
    case (Cons i "is")
    show ?case
      using assms(3) [OF Cons.prems(1), of i] Cons.prems(2,3) pt_inv_child(1) [OF assms(1) Cons.prems(1), of i]
        Cons.IH [of "child (vm_mem s (slot t i))" "Suc k"] by auto
  qed simp
  have l0: "lev l0 = Some 0" using assms(1) by (simp add: pt_inv_def)
  have p: "length (fst p) = 3" "\<forall>i\<in>set (fst p). unat i < 512" "unat (snd p) < 512"
    using assms(2) by (auto simp: path_ok_def)
  have "walk_tab m l0 (fst p) = walk_tab (vm_mem s) l0 (fst p)" using walk [OF l0] p by simp
  then show ?thesis
    using walk_tab_level [OF assms(1) _ l0, of "fst p"] assms(3) p
    by (auto simp: pte_def split: option.splits)
qed

section \<open>Descending one level\<close>

text \<open>Linking a fresh zeroed table into an empty entry.\<close>

definition link :: "u64 \<Rightarrow> u64 \<Rightarrow> u64 \<Rightarrow> (u64 \<Rightarrow> u64) \<Rightarrow> u64 \<Rightarrow> u64" where
  "link t i n m = (fold (\<lambda>i mem. mem(slot n (of_nat i) := 0)) [0..<512] m)
     (slot t i := (n AND PTE_ADDR_MASK) OR PTE_VALID OR PTE_TABLE)"

lemma link_words:
  assumes "aligned n" "unat n < 2 ^ 48" "aligned t" "unat i < 512" "t \<noteq> n"
  shows "unat j < 512 \<Longrightarrow> link t i n m (slot n j) = 0"
    and "aligned u \<Longrightarrow> u \<noteq> n \<Longrightarrow> unat j < 512 \<Longrightarrow> (u, j) \<noteq> (t, i) \<Longrightarrow> link t i n m (slot u j) = m (slot u j)"
    and "bit (link t i n m (slot t i)) 0" and "child (link t i n m (slot t i)) = n"
    and "link t i n m (slot t i) AND NOT 0xFFF = n"
proof -
  show "link t i n m (slot n j) = 0" if "unat j < 512"
  proof -
    have "slot n j \<noteq> slot t i" using slot_inj [OF assms(1,3) that assms(4)] assms(5) by auto
    then show ?thesis using zeroed [OF assms(1) that] by (simp add: link_def)
  qed
  show "link t i n m (slot u j) = m (slot u j)" if "aligned u" "u \<noteq> n" "unat j < 512" "(u, j) \<noteq> (t, i)"
  proof -
    have "slot u j \<noteq> slot t i" using slot_inj [OF that(1) assms(3) that(3) assms(4)] that(4) by auto
    then show ?thesis using zeroed_other [OF assms(1) that(1,2,3)] by (simp add: link_def)
  qed
qed (use table_entry [OF assms(1,2)] in \<open>simp_all add: link_def\<close>)

lemma next_table_cases:
  assumes "pt_inv l0 lev s" and "lev t = Some k"
  obtains (found) "bit (vm_mem s (slot t i)) 0" "next_table t i s = (Some (child (vm_mem s (slot t i))), s)"
  | (oom) "next_table t i s = (None, s)"
  | (fresh) n m where "\<not> bit (vm_mem s (slot t i)) 0" "phys_alloc_page (vm_phys s) = (n, m)" "n \<noteq> 0"
      "lev n = None" "aligned n" "unat n < 2 ^ 48" "phys_ok m" "n \<in> owned_pages m"
      "owned_pages (vm_phys s) \<subseteq> owned_pages m"
      "next_table t i s = (Some n, \<lparr>vm_phys = m, vm_mem = link t i n (vm_mem s)\<rparr>)"
proof (cases "bit (vm_mem s (slot t i)) 0")
  case True
  then show ?thesis by (intro found) (simp_all add: next_table_def and_valid child_def)
next
  case False
  obtain n m where a: "phys_alloc_page (vm_phys s) = (n, m)" by force
  have ok: "phys_ok (vm_phys s)" "dom lev \<subseteq> owned_pages (vm_phys s)"
    and top: "unat (phys_base (vm_phys s)) + unat (total_pages (vm_phys s)) * 4096 \<le> 2 ^ 48"
    using assms(1) by (auto simp: pt_inv_def)
  show ?thesis
  proof (cases "n = 0")
    case True
    then have "m = vm_phys s" using pa.alloc_fail [OF ok(1)] a by simp
    with True False a show ?thesis by (intro oom) (simp add: next_table_def and_valid alloc_page_table_def)
  next
    case n: False
    have fr: "n \<notin> owned_pages (vm_phys s)" "owned_pages m = insert n (owned_pages (vm_phys s))" and m: "phys_ok m"
      using pa.alloc_fresh [OF ok(1)] pa.alloc_inv [OF ok(1)] a n by auto
    have "m = snd (phys_alloc_page (vm_phys s))" using a by simp
    then have "phys_base m = phys_base (vm_phys s)" "total_pages m = total_pages (vm_phys s)" by simp_all
    then have "aligned n" "unat n < 2 ^ 48" using owned_facts [OF m, of n] top fr(2) by simp_all
    moreover from this have "child ((n AND PTE_ADDR_MASK) OR PTE_VALID OR PTE_TABLE) = n" by (rule table_entry)
    moreover have "lev n = None" using fr(1) ok(2) by auto
    ultimately show ?thesis using False n a fr(2) m
      by (intro fresh) (auto simp: next_table_def and_valid alloc_page_table_def link_def child_def)
  qed
qed

text \<open>Linking keeps the tree and changes no translation.\<close>

lemma link_pt_inv:
  assumes inv: "pt_inv l0 lev s" and t: "lev t = Some k" "k < 3" and i: "unat i < 512"
    and empty: "\<not> bit (vm_mem s (slot t i)) 0"
    and n: "lev n = None" "aligned n" "unat n < 2 ^ 48" "phys_ok m" "n \<in> owned_pages m"
    and m: "owned_pages (vm_phys s) \<subseteq> owned_pages m" "phys_base m = phys_base (vm_phys s)"
      "total_pages m = total_pages (vm_phys s)"
  defines "s' \<equiv> \<lparr>vm_phys = m, vm_mem = link t i n (vm_mem s)\<rparr>" and "lev' \<equiv> lev(n \<mapsto> Suc k)"
  shows "pt_inv l0 lev' s'"
proof -
  have tn: "t \<noteq> n" using t n by auto
  have ta: "aligned t" using pt_inv_table(1) [OF inv t(1)] .
  note lw = link_words [OF n(2,3) ta i tn, where m = "vm_mem s"]
  have old: "vm_mem s' (slot u j) = vm_mem s (slot u j)" if "lev u = Some l" "unat j < 512" "(u, j) \<noteq> (t, i)" for u l j
    using lw(2) [of u j] pt_inv_table(1) [OF inv that(1)] that n(1) by (cases "u = n") (auto simp: s'_def)
  have valid: "(u = t \<and> j = i \<and> l = k) \<or> (lev u = Some l \<and> (u, j) \<noteq> (t, i) \<and> bit (vm_mem s (slot u j)) 0)"
    if "lev' u = Some l" "unat j < 512" "bit (vm_mem s' (slot u j)) 0" for u l j
  proof (cases "u = n")
    case True
    then show ?thesis using lw(1) [OF that(2)] that(3) by (simp add: s'_def)
  next
    case False
    then have "lev u = Some l" using that(1) by (simp add: lev'_def)
    then show ?thesis using old [of u l j] that t(1) by (cases "(u, j) = (t, i)") auto
  qed
  have st: "vm_mem s' (slot t i) AND NOT 0xFFF = n" "child (vm_mem s' (slot t i)) = n"
    using lw(4,5) by (simp_all add: s'_def)
  have childn: "child (vm_mem s (slot u j)) \<noteq> n"
    if "lev u = Some l" "l < 3" "unat j < 512" "bit (vm_mem s (slot u j)) 0" for u l j
    using pt_inv_child(1) [OF inv that] n(1) by auto
  have 1: "lev' (child (vm_mem s' (slot u j))) = Some (Suc l) \<and>
        child (vm_mem s' (slot u j)) = vm_mem s' (slot u j) AND NOT 0xFFF"
    if *: "lev' u = Some l \<and> l < 3 \<and> unat j < 512 \<and> bit (vm_mem s' (slot u j)) 0" for u l j
  proof (cases "u = t \<and> j = i")
    case True
    then show ?thesis using valid [of u l j] * st by (auto simp: lev'_def)
  next
    case False
    then have o: "lev u = Some l" "bit (vm_mem s (slot u j)) 0" using valid [of u l j] * by auto
    show ?thesis
      using old [OF o(1)] False * pt_inv_child [OF inv o(1) _ _ o(2)] childn [OF o(1) _ _ o(2)] by (simp add: lev'_def)
  qed
  have 2: "u = v \<and> j = j'"
    if *: "lev' u = Some l \<and> l < 3 \<and> unat j < 512 \<and> bit (vm_mem s' (slot u j)) 0 \<and>
        lev' v = Some l' \<and> l' < 3 \<and> unat j' < 512 \<and> bit (vm_mem s' (slot v j')) 0 \<and>
        child (vm_mem s' (slot u j)) = child (vm_mem s' (slot v j'))" for u v l l' j j'
  proof (cases "(u, j) = (t, i) \<or> (v, j') = (t, i)")
    case True
    then show ?thesis using valid [of u l j] valid [of v l' j'] * st old [of u l j] old [of v l' j'] childn by metis
  next
    case False
    then have o: "lev u = Some l" "bit (vm_mem s (slot u j)) 0" "lev v = Some l'" "bit (vm_mem s (slot v j')) 0"
      using valid [of u l j] valid [of v l' j'] * by auto
    show ?thesis
      using old [OF o(1)] old [OF o(3)] False * by (intro pt_inv_unique [OF inv o(1) _ _ o(2,3) _ _ o(4)]) auto
  qed
  have "phys_ok (vm_phys s')" "unat (phys_base (vm_phys s')) + unat (total_pages (vm_phys s')) * 4096 \<le> 2 ^ 48"
    "lev' l0 = Some 0" "dom lev' \<subseteq> owned_pages (vm_phys s')"
    using pt_inv_base [OF inv] n m by (auto simp: s'_def lev'_def)
  then show ?thesis unfolding pt_inv_def using 1 2 by blast
qed

lemma link_pte:
  assumes inv: "pt_inv l0 lev s" and t: "lev t = Some k" "k < 3" and i: "unat i < 512"
    and empty: "\<not> bit (vm_mem s (slot t i)) 0"
    and n: "lev n = None" "aligned n" "unat n < 2 ^ 48" and p: "path_ok p"
  shows "pte (link t i n (vm_mem s)) l0 p = pte (vm_mem s) l0 p"
proof -
  let ?m = "link t i n (vm_mem s)"
  have tn: "t \<noteq> n" using t n by auto
  have ta: "aligned t" using pt_inv_table(1) [OF inv t(1)] .
  note lw = link_words [OF n(2,3) ta i tn, where m = "vm_mem s"]
  have old: "?m (slot u j) = vm_mem s (slot u j)" if "lev u = Some l" "unat j < 512" "(u, j) \<noteq> (t, i)" for u l j
    using lw(2) [of u j] pt_inv_table(1) [OF inv that(1)] that n(1) by (cases "u = n") auto
  have empty_path: "pte ?m n (is, j) = None" if "\<forall>i\<in>set is. unat i < 512" "unat j < 512" for "is" j
    using that lw(1) by (cases "is") (auto simp: pte_def)
  have "pte ?m u (is, j) = pte (vm_mem s) u (is, j)"
    if "lev u = Some l" "l + length is = 3" "\<forall>i\<in>set is. unat i < 512" "unat j < 512" for u l "is" j
    using that
  proof (induction "is" arbitrary: u l)
    case Nil
    then have "(u, j) \<noteq> (t, i)" using t by auto
    then show ?case using old [OF Nil.prems(1,4)] by (simp add: pte_def)
  next
    case (Cons a "is")
    show ?case
    proof (cases "(u, a) = (t, i)")
      case True
      then have "pte ?m u (a # is, j) = pte ?m n (is, j)" using lw(3,4) by (simp add: pte_Cons)
      also have "\<dots> = None" using Cons.prems by (intro empty_path) auto
      also have "\<dots> = pte (vm_mem s) u (a # is, j)" using True empty by (simp add: pte_Cons)
      finally show ?thesis .
    next
      case False
      have "unat a < 512" "l < 3" using Cons.prems by auto
      then have "?m (slot u a) = vm_mem s (slot u a)" "bit (vm_mem s (slot u a)) 0 \<Longrightarrow>
          pte ?m (child (vm_mem s (slot u a))) (is, j) = pte (vm_mem s) (child (vm_mem s (slot u a))) (is, j)"
        using old [OF Cons.prems(1)] False Cons.IH [of "child (vm_mem s (slot u a))" "Suc l"]
          pt_inv_child(1) [OF inv Cons.prems(1)] Cons.prems by auto
      then show ?thesis by (simp add: pte_Cons)
    qed
  qed
  moreover have "lev l0 = Some 0" using inv by (simp add: pt_inv_def)
  ultimately show ?thesis using p unfolding path_ok_def by (metis add_0 prod.collapse)
qed

text \<open>
  A step of the descent keeps the tree and every translation and, unless it runs out of
  memory, ends in a table of the next level that the entry now leads to; entries that were
  valid stay as they were.
\<close>

definition descends :: "u64 \<Rightarrow> (u64 \<Rightarrow> nat option) \<Rightarrow> vm \<Rightarrow> (u64 \<Rightarrow> nat option) \<Rightarrow> vm \<Rightarrow> bool" where
  "descends l0 lev s lev' s' \<longleftrightarrow> pt_inv l0 lev' s' \<and> lev \<subseteq>\<^sub>m lev' \<and>
     (\<forall>p. path_ok p \<longrightarrow> pte (vm_mem s') l0 p = pte (vm_mem s) l0 p) \<and>
     (\<forall>u l j. lev u = Some l \<and> unat j < 512 \<and> bit (vm_mem s (slot u j)) 0 \<longrightarrow>
        vm_mem s' (slot u j) = vm_mem s (slot u j))"

lemma descends_refl: "pt_inv l0 lev s \<Longrightarrow> descends l0 lev s lev s"
  by (simp add: descends_def)

lemma descends_trans:
  assumes 1: "descends l0 lev s lev' s'" and 2: "descends l0 lev' s' lev'' s''"
  shows "descends l0 lev s lev'' s''"
proof -
  have "lev u = Some l \<Longrightarrow> lev' u = Some l" for u l
    using 1 by (auto simp: descends_def map_le_def dom_def)
  then have "vm_mem s'' (slot u j) = vm_mem s (slot u j)"
    if "lev u = Some l" "unat j < 512" "bit (vm_mem s (slot u j)) 0" for u l j
    using that 1 2 unfolding descends_def by metis
  moreover have "lev \<subseteq>\<^sub>m lev''" using 1 2 map_le_trans by (auto simp: descends_def)
  ultimately show ?thesis using 1 2 by (auto simp: descends_def)
qed

lemma next_table_spec:
  assumes "pt_inv l0 lev s" "lev t = Some k" "k < 3" "unat i < 512" "next_table t i s = (r, s')"
  shows "\<exists>lev'. descends l0 lev s lev' s' \<and>
    (case r of None \<Rightarrow> True
     | Some u \<Rightarrow> lev' u = Some (Suc k) \<and> bit (vm_mem s' (slot t i)) 0 \<and> child (vm_mem s' (slot t i)) = u)"
proof (cases i rule: next_table_cases [OF assms(1,2), case_names found oom fresh])
  case found
  then show ?thesis using descends_refl [OF assms(1)] pt_inv_child(1) [OF assms(1-4) found(1)] assms(5)
    by (intro exI [of _ lev]) auto
next
  case oom
  then show ?thesis using descends_refl [OF assms(1)] assms(5) by (intro exI [of _ lev]) auto
next
  case (fresh n m)
  have r: "r = Some n" "s' = \<lparr>vm_phys = m, vm_mem = link t i n (vm_mem s)\<rparr>" using fresh(10) assms(5) by simp_all
  have "m = snd (phys_alloc_page (vm_phys s))" using fresh(2) by simp
  then have m: "phys_base m = phys_base (vm_phys s)" "total_pages m = total_pages (vm_phys s)" by simp_all
  have tn: "t \<noteq> n" using assms(2) fresh(4) by auto
  note lw = link_words [OF fresh(5,6) pt_inv_table(1) [OF assms(1,2)] assms(4) tn, where m = "vm_mem s"]
  have keep: "vm_mem s' (slot u j) = vm_mem s (slot u j)"
    if "lev u = Some l" "unat j < 512" "bit (vm_mem s (slot u j)) 0" for u l j
    using lw(2) [of u j] pt_inv_table(1) [OF assms(1) that(1)] that fresh(1,4)
    by (cases "u = n") (auto simp: r)
  have "descends l0 lev s (lev(n \<mapsto> Suc k)) s'"
    unfolding descends_def
    using link_pt_inv [OF assms(1-4) fresh(1,4-9) m] link_pte [OF assms(1-4) fresh(1,4-6)] keep fresh(4)
    by (auto simp: r map_le_def)
  then show ?thesis using lw(3,4) by (intro exI [of _ "lev(n \<mapsto> Suc k)"]) (auto simp: r)
qed

section \<open>Mapping one page\<close>

text \<open>Writing a leaf entry changes the translation of its own path only.\<close>

lemma leaf_write:
  fixes e :: u64
  assumes inv: "pt_inv l0 lev s" and p: "path_ok p" and w: "walk_tab (vm_mem s) l0 (fst p) = Some t"
  defines "s' \<equiv> s\<lparr>vm_mem := (vm_mem s)(slot t (snd p) := e)\<rparr>"
  shows "pt_inv l0 lev s'"
    and "path_ok q \<Longrightarrow> pte (vm_mem s') l0 q =
      (if q = p then (if bit e 0 then Some e else None) else pte (vm_mem s) l0 q)"
proof -
  note base = pt_inv_base [OF inv]
  have pp: "length (fst p) = 3" "\<forall>i\<in>set (fst p). unat i < 512" "unat (snd p) < 512"
    using p by (auto simp: path_ok_def)
  have t: "lev t = Some 3" using walk_tab_level [OF inv w base(3)] pp by simp
  have same: "vm_mem s' (slot u j) = vm_mem s (slot u j)" if "lev u = Some l" "unat j < 512" "(u, j) \<noteq> (t, snd p)" for u l j
    using slot_inj [OF pt_inv_table(1) [OF inv that(1)] pt_inv_table(1) [OF inv t] that(2) pp(3)] that(3)
    by (auto simp: s'_def)
  have low: "vm_mem s' (slot u j) = vm_mem s (slot u j)" if "lev u = Some l" "l < 3" "unat j < 512" for u l j
    using same [OF that(1,3)] t that(1,2) by (cases "u = t") auto
  show "pt_inv l0 lev s'"
  proof (rule pt_inv_transfer [OF inv low])
    show "vm_phys s' = vm_phys s" by (simp add: s'_def)
  qed
  have walk: "walk_tab (vm_mem s') u is = walk_tab (vm_mem s) u is"
    if "lev u = Some l" "l + length is \<le> 3" "\<forall>i\<in>set is. unat i < 512" for u l "is"
    using that
  proof (induction "is" arbitrary: u l)
    case (Cons i "is")
    then have "l < 3" "unat i < 512" by auto
    then show ?case
      using low [OF Cons.prems(1)] pt_inv_child(1) [OF inv Cons.prems(1)]
        Cons.IH [of "child (vm_mem s (slot u i))" "Suc l"] Cons.prems by auto
  qed simp
  assume q: "path_ok q"
  then have qq: "length (fst q) = 3" "\<forall>i\<in>set (fst q). unat i < 512" "unat (snd q) < 512"
    by (auto simp: path_ok_def)
  have wq: "walk_tab (vm_mem s') l0 (fst q) = walk_tab (vm_mem s) l0 (fst q)" using walk [OF base(3)] qq by simp
  show "pte (vm_mem s') l0 q = (if q = p then (if bit e 0 then Some e else None) else pte (vm_mem s) l0 q)"
  proof (cases "walk_tab (vm_mem s) l0 (fst q)")
    case None
    then show ?thesis using wq w by (auto simp: pte_def)
  next
    case (Some u)
    have u: "lev u = Some 3" using walk_tab_level [OF inv Some base(3)] qq by simp
    have "fst q = fst p" if "u = t"
      using walk_tab_inj [OF inv _ _ qq(2) pp(2) Some] w that qq(1) pp(1) by simp
    then have "(u, snd q) = (t, snd p) \<longleftrightarrow> q = p" using w Some by (auto simp: prod_eq_iff)
    then show ?thesis
      using wq Some w same [OF u qq(3)] by (cases "q = p") (auto simp: pte_def s'_def)
  qed
qed

text \<open>The descent of \<open>page_table_map\<close> as a whole.\<close>

lemma walk_descends:
  assumes "descends l0 lev s lev' s'" "pt_inv l0 lev s" "walk_tab (vm_mem s) l0 is = Some t"
    "length is \<le> 3" "\<forall>i\<in>set is. unat i < 512"
  shows "walk_tab (vm_mem s') l0 is = Some t"
proof -
  have "walk_tab (vm_mem s') u is = Some t"
    if "lev u = Some l" "l + length is \<le> 3" "\<forall>i\<in>set is. unat i < 512" "walk_tab (vm_mem s) u is = Some t" for u l "is"
    using that
  proof (induction "is" arbitrary: u l)
    case (Cons i "is")
    have v: "bit (vm_mem s (slot u i)) 0" "walk_tab (vm_mem s) (child (vm_mem s (slot u i))) is = Some t"
      using Cons.prems(4) by (auto split: if_splits)
    have "unat i < 512" "l < 3" using Cons.prems(2,3) by auto
    then have "vm_mem s' (slot u i) = vm_mem s (slot u i)" "lev (child (vm_mem s (slot u i))) = Some (Suc l)"
      using assms(1) v(1) Cons.prems(1) pt_inv_child(1) [OF assms(2) Cons.prems(1)] by (auto simp: descends_def)
    then show ?case using v Cons.IH [of "child (vm_mem s (slot u i))" "Suc l"] Cons.prems(2,3) by simp
  qed simp
  then show ?thesis using assms(3-) pt_inv_base(3) [OF assms(2)] by simp
qed

lemma descend_step:
  assumes "pt_inv l0 lev s" "walk_tab (vm_mem s) l0 is = Some t" "length is < 3" "\<forall>i\<in>set is. unat i < 512"
    "unat i < 512" "next_table t i s = (r, s')"
  shows "\<exists>lev'. descends l0 lev s lev' s' \<and> pt_inv l0 lev' s' \<and>
    (\<forall>u. r = Some u \<longrightarrow> walk_tab (vm_mem s') l0 (is @ [i]) = Some u)"
proof -
  have t: "lev t = Some (length is)" using walk_tab_level [OF assms(1,2) pt_inv_base(3) [OF assms(1)]] assms(3,4) by simp
  obtain lev' where d: "descends l0 lev s lev' s'" and c: "case r of None \<Rightarrow> True
      | Some u \<Rightarrow> lev' u = Some (Suc (length is)) \<and> bit (vm_mem s' (slot t i)) 0 \<and> child (vm_mem s' (slot t i)) = u"
    using next_table_spec [OF assms(1) t assms(3,5,6)] by blast
  have "walk_tab (vm_mem s') l0 is = Some t" using walk_descends [OF d assms(1,2)] assms(3,4) by simp
  then have "\<forall>u. r = Some u \<longrightarrow> walk_tab (vm_mem s') l0 (is @ [i]) = Some u"
    using c by (auto simp: walk_tab_append split: option.splits)
  moreover have "pt_inv l0 lev' s'" using d by (simp add: descends_def)
  ultimately show ?thesis using d by blast
qed

lemma page_table_map_spec:
  assumes inv: "pt_inv l0 lev s" and al: "va AND 4095 = 0" "pa AND 4095 = 0" "flags AND AEGIS_VM_GUARD = 0"
    and r: "page_table_map l0 va pa flags s = (ret, s')"
  defines "e \<equiv> (pa AND PTE_ADDR_MASK) OR page_attrs_from_flags flags"
  shows "\<exists>lev'. pt_inv l0 lev' s' \<and> (ret = AEGIS_OK \<or> ret = AEGIS_ENOMEM) \<and>
    (\<forall>p. path_ok p \<longrightarrow> pte (vm_mem s') l0 p =
       (if ret = AEGIS_OK \<and> p = va_path va then (if bit e 0 then Some e else None) else pte (vm_mem s) l0 p))"
proof -
  have l0: "l0 \<noteq> 0" using pt_inv_table(3) [OF inv pt_inv_base(3) [OF inv]] .
  note map = r [unfolded page_table_map_def, simplified l0 al, simplified]
  have fail: ?thesis if "ret = AEGIS_ENOMEM" "descends l0 lev s lev' s'" for lev'
    using that by (auto simp: descends_def)
  obtain r1 s1 where n1: "next_table l0 (pt_index 39 va) s = (r1, s1)" by force
  obtain lev1 where d1: "descends l0 lev s lev1 s1" "pt_inv l0 lev1 s1"
    "\<forall>u. r1 = Some u \<longrightarrow> walk_tab (vm_mem s1) l0 [pt_index 39 va] = Some u"
    using descend_step [OF inv _ _ _ pt_index_less n1, of "[]"] by auto
  show ?thesis
  proof (cases r1)
    case None
    then show ?thesis using map n1 fail d1(1) by simp
  next
    case Some1: (Some l1)
    obtain r2 s2 where n2: "next_table l1 (pt_index 30 va) s1 = (r2, s2)" by force
    obtain lev2 where d2: "descends l0 lev1 s1 lev2 s2" "pt_inv l0 lev2 s2"
      "\<forall>u. r2 = Some u \<longrightarrow> walk_tab (vm_mem s2) l0 [pt_index 39 va, pt_index 30 va] = Some u"
      using descend_step [OF d1(2) d1(3) [rule_format, OF Some1] _ _ pt_index_less n2] by (auto simp: pt_index_less)
    note d12 = descends_trans [OF d1(1) d2(1)]
    show ?thesis
    proof (cases r2)
      case None
      then show ?thesis using map n1 n2 Some1 fail d12 by simp
    next
      case Some2: (Some l2)
      obtain r3 s3 where n3: "next_table l2 (pt_index 21 va) s2 = (r3, s3)" by force
      obtain lev3 where d3: "descends l0 lev2 s2 lev3 s3" "pt_inv l0 lev3 s3"
        "\<forall>u. r3 = Some u \<longrightarrow> walk_tab (vm_mem s3) l0 (fst (va_path va)) = Some u"
        using descend_step [OF d2(2) d2(3) [rule_format, OF Some2] _ _ pt_index_less n3]
        by (auto simp: pt_index_less va_path_def)
      note d13 = descends_trans [OF d12 d3(1)]
      show ?thesis
      proof (cases r3)
        case None
        then show ?thesis using map n1 n2 n3 Some1 Some2 fail d13 by simp
      next
        case Some3: (Some l3)
        have s': "ret = AEGIS_OK" "s' = s3\<lparr>vm_mem := (vm_mem s3)(slot l3 (snd (va_path va)) := e)\<rparr>"
          using map n1 n2 n3 Some1 Some2 Some3 by (auto simp: e_def va_path_def)
        show ?thesis
          using leaf_write [OF d3(2) path_ok_va d3(3) [rule_format, OF Some3], where e = e] d13 s'
          by (auto simp: descends_def intro!: exI [of _ lev3])
      qed
    qed
  qed
qed

section \<open>Entries and page numbers\<close>

lemma page_attrs_bits:
  "page_attrs_from_flags flags AND PTE_ADDR_MASK = 0" "bit (page_attrs_from_flags flags) 0"
  "page_attrs_from_flags flags AND PTE_AP_MASK =
     (if flags AND AEGIS_VM_USER \<noteq> 0 then (if flags AND AEGIS_VM_WRITE \<noteq> 0 then PTE_AP_RW_ALL else PTE_AP_RO_ALL)
      else (if flags AND AEGIS_VM_WRITE \<noteq> 0 then PTE_AP_RW_EL1 else PTE_AP_RO_EL1))"
  "page_attrs_from_flags flags AND PTE_UXN = 0 \<longleftrightarrow> flags AND AEGIS_VM_USER \<noteq> 0 \<and> flags AND AEGIS_VM_EXEC \<noteq> 0"
  "page_attrs_from_flags flags AND PTE_PXN = 0 \<longleftrightarrow> flags AND AEGIS_VM_USER = 0 \<and> flags AND AEGIS_VM_EXEC \<noteq> 0"
  by (auto simp: page_attrs_from_flags_def pte_consts Let_def)

lemma leaf_entry:
  fixes pa :: u64 and flags :: u32
  defines "e \<equiv> (pa AND PTE_ADDR_MASK) OR page_attrs_from_flags flags"
  shows "bit e 0" and "e AND PTE_ADDR_MASK = pa AND PTE_ADDR_MASK"
    and "x AND PTE_ADDR_MASK = 0 \<Longrightarrow> e AND x = page_attrs_from_flags flags AND x"
proof -
  show "bit e 0" using page_attrs_bits(2) by (simp add: e_def bit_or_iff)
  show "e AND PTE_ADDR_MASK = pa AND PTE_ADDR_MASK"
    unfolding e_def bit.conj_disj_distrib2 using page_attrs_bits(1) by (simp add: and.assoc)
  assume "x AND PTE_ADDR_MASK = 0"
  then have "PTE_ADDR_MASK AND x = 0" by (simp add: and.commute)
  then show "e AND x = page_attrs_from_flags flags AND x"
    unfolding e_def bit.conj_disj_distrib2 by (simp add: and.assoc)
qed

text \<open>The virtual page number: the address bits that the walk looks at.\<close>

definition vpn :: "u64 \<Rightarrow> u64" where
  "vpn va = take_bit 36 (drop_bit 12 va)"

lemma vpn_index: "pt_index (12 + k) va = take_bit 9 (drop_bit k (vpn va))" if "k \<le> 27"
  using that by (intro bit_word_eqI) (auto simp: pt_index_take vpn_def bit_simps ac_simps)

lemma index_vpn: "vpn va = pt_index 12 va OR push_bit 9 (pt_index 21 va) OR push_bit 18 (pt_index 30 va) OR
    push_bit 27 (pt_index 39 va)"
proof (rule bit_word_eqI)
  fix n :: nat
  have "27 \<le> n \<Longrightarrow> 39 + (n - 27) = 12 + n" "18 \<le> n \<Longrightarrow> 30 + (n - 18) = 12 + n" "9 \<le> n \<Longrightarrow> 21 + (n - 9) = 12 + n"
    by simp_all
  then show "bit (vpn va) n \<longleftrightarrow> bit (pt_index 12 va OR push_bit 9 (pt_index 21 va) OR push_bit 18 (pt_index 30 va) OR
    push_bit 27 (pt_index 39 va)) n" if "n < LENGTH(64)"
    using that by (cases "n < 9"; cases "n < 18"; cases "n < 27") (auto simp: pt_index_take vpn_def bit_simps)
qed

lemma va_path_eq: "va_path va = va_path va' \<longleftrightarrow> vpn va = vpn va'"
proof
  assume "va_path va = va_path va'"
  then show "vpn va = vpn va'" unfolding index_vpn by (simp add: va_path_def)
next
  assume "vpn va = vpn va'"
  then show "va_path va = va_path va'"
    using vpn_index [of 0] vpn_index [of 9] vpn_index [of 18] vpn_index [of 27] by (simp add: va_path_def)
qed

lemma unat_vpn: "unat va < 2 ^ 48 \<Longrightarrow> unat (vpn va) = unat va div 4096"
proof -
  assume "unat va < 2 ^ 48"
  then have "unat va div 2 ^ 12 < 2 ^ 36" by simp
  then show ?thesis by (simp add: vpn_def unsigned_take_bit_eq unsigned_drop_bit_eq drop_bit_eq_div take_bit_nat_eq_self unat_div)
qed

section \<open>Ranges\<close>

lemma page_offset:
  assumes "unat va + sz \<le> 2 ^ 48" "4096 * k < sz" "unat va mod 4096 = 0"
  shows "unat (va + of_nat (4096 * k)) = unat va + 4096 * k"
    and "(va + of_nat (4096 * k)) AND 4095 = 0" and "unat (vpn (va + of_nat (4096 * k))) = unat va div 4096 + k"
proof -
  have "unat (of_nat (4096 * k) :: u64) = 4096 * k" using assms(1,2) by (intro unat_of_nat_small) simp
  then show u: "unat (va + of_nat (4096 * k)) = unat va + 4096 * k"
    using assms(1,2) by (subst unat_plus_small) simp_all
  show "(va + of_nat (4096 * k)) AND 4095 = 0" unfolding page_aligned_iff u using assms(3) by (simp add: mod_add_eq)
  have "unat va + 4096 * k < 2 ^ 48" using assms(1,2) by simp
  then show "unat (vpn (va + of_nat (4096 * k))) = unat va div 4096 + k" using unat_vpn u by simp
qed

lemma next_offset: "unat (sz::u64) \<le> 2 ^ 48 \<Longrightarrow> of_nat (4096 * k) < sz \<longleftrightarrow> 4096 * k < unat sz" if "4096 * k < 2 ^ 64"
  using that by (simp add: word_less_nat_alt unat_of_nat_small del: of_nat_mult)

lemma virt_map_loop_spec:
  assumes "pt_inv l0 lev s" "unat va mod 4096 = 0" "unat pa mod 4096 = 0" "flags AND AEGIS_VM_GUARD = 0"
    and top: "unat va + unat sz \<le> 2 ^ 48" "unat pa + unat sz \<le> 2 ^ 48"
  defines "P \<equiv> \<lambda>i. va_path (va + of_nat (4096 * i))"
    and "E \<equiv> \<lambda>i. ((pa + of_nat (4096 * i)) AND PTE_ADDR_MASK) OR page_attrs_from_flags flags"
  shows "4096 * k < unat sz + 4096 \<Longrightarrow> \<exists>ret s' lev' n. virt_map_loop l0 va pa sz flags (of_nat (4096 * k)) s = Some (ret, s') \<and>
    pt_inv l0 lev' s' \<and> (ret = AEGIS_OK \<and> unat sz \<le> 4096 * n \<or> ret = AEGIS_ENOMEM) \<and> 4096 * n < unat sz + 4096 \<and> k \<le> n \<and>
    (\<forall>i. k \<le> i \<and> i < n \<longrightarrow> pte (vm_mem s') l0 (P i) = Some (E i)) \<and>
    (\<forall>p. path_ok p \<and> (\<forall>i. k \<le> i \<and> i < n \<longrightarrow> p \<noteq> P i) \<longrightarrow> pte (vm_mem s') l0 p = pte (vm_mem s) l0 p)"
  using assms(1)
proof (induction "unat sz + 4096 - 4096 * k" arbitrary: k s lev rule: less_induct)
  case less
  have small: "unat sz \<le> 2 ^ 48" using top by simp
  then have k64: "4096 * k < 2 ^ 64" using less.prems(1) by simp
  show ?case
  proof (cases "4096 * k < unat sz")
    case False
    then have "virt_map_loop l0 va pa sz flags (of_nat (4096 * k)) s = Some (AEGIS_OK, s)"
      using next_offset [OF k64 small] by (subst virt_map_loop.simps) simp
    then show ?thesis using less.prems False
      by (intro exI [of _ AEGIS_OK] exI [of _ s] exI [of _ lev] exI [of _ k]) auto
  next
    case True
    note off = page_offset [OF top(1) True assms(2)] page_offset [OF top(2) True assms(3)]
    obtain ret s1 where m: "page_table_map l0 (va + of_nat (4096 * k)) (pa + of_nat (4096 * k)) flags s = (ret, s1)" by force
    obtain lev1 where 1: "pt_inv l0 lev1 s1" "ret = AEGIS_OK \<or> ret = AEGIS_ENOMEM"
      "\<And>p. path_ok p \<Longrightarrow> pte (vm_mem s1) l0 p = (if ret = AEGIS_OK \<and> p = P k then Some (E k) else pte (vm_mem s) l0 p)"
      using page_table_map_spec [OF less.prems(2) off(2,5) assms(4) m] leaf_entry(1) unfolding P_def E_def by auto
    show ?thesis
    proof (cases "ret = AEGIS_OK")
      case False
      then have "virt_map_loop l0 va pa sz flags (of_nat (4096 * k)) s = Some (ret, s1)"
        using next_offset [OF k64 small] True m by (subst virt_map_loop.simps) simp
      then show ?thesis using False 1 less.prems(1)
        by (intro exI [of _ ret] exI [of _ s1] exI [of _ lev1] exI [of _ k]) auto
    next
      case ok: True
      have step: "virt_map_loop l0 va pa sz flags (of_nat (4096 * k)) s =
          virt_map_loop l0 va pa sz flags (of_nat (4096 * Suc k)) s1"
        using next_offset [OF k64 small] True m ok by (subst virt_map_loop.simps) (simp add: ac_simps)
      have "4096 * Suc k < unat sz + 4096" "unat sz + 4096 - 4096 * Suc k < unat sz + 4096 - 4096 * k"
        using True by simp_all
      from less.hyps [OF this(2,1) 1(1)] obtain ret' s' lev' n where
        r: "virt_map_loop l0 va pa sz flags (of_nat (4096 * Suc k)) s1 = Some (ret', s')" "pt_inv l0 lev' s'"
        "ret' = AEGIS_OK \<and> unat sz \<le> 4096 * n \<or> ret' = AEGIS_ENOMEM" "4096 * n < unat sz + 4096" "Suc k \<le> n"
        "\<And>i. Suc k \<le> i \<Longrightarrow> i < n \<Longrightarrow> pte (vm_mem s') l0 (P i) = Some (E i)"
        "\<And>p. path_ok p \<Longrightarrow> (\<And>i. Suc k \<le> i \<Longrightarrow> i < n \<Longrightarrow> p \<noteq> P i) \<Longrightarrow> pte (vm_mem s') l0 p = pte (vm_mem s1) l0 p"
        by blast
      have "P k \<noteq> P i" if "Suc k \<le> i" "i < n" for i
        using page_offset(3) [OF top(1) _ assms(2), of i] off(3) that r(4) unfolding P_def va_path_eq by auto
      then have "pte (vm_mem s') l0 (P k) = Some (E k)"
        using r(7) [of "P k"] 1(3) [of "P k"] ok path_ok_va unfolding P_def by simp
      then have "pte (vm_mem s') l0 (P i) = Some (E i)" if "k \<le> i" "i < n" for i
        using r(6) [of i] that by (cases "i = k") auto
      moreover have "pte (vm_mem s') l0 p = pte (vm_mem s) l0 p"
        if "path_ok p" "\<forall>i. k \<le> i \<and> i < n \<longrightarrow> p \<noteq> P i" for p
        using r(5) r(7) [of p] 1(3) [of p] that by auto
      ultimately show ?thesis using r(1-5) step by (intro exI [of _ ret'] exI [of _ s'] exI [of _ lev'] exI [of _ n]) auto
    qed
  qed
qed

lemma unmap_page_walk:
  assumes inv: "pt_inv l0 lev s"
  shows "unmap_page l0 va s = (case walk_tab (vm_mem s) l0 (fst (va_path va)) of None \<Rightarrow> s
    | Some t \<Rightarrow> s\<lparr>vm_mem := (vm_mem s)(slot t (snd (va_path va)) := 0)\<rparr>)"
proof -
  have b: "e AND 1 = 0 \<longleftrightarrow> \<not> bit e 0" for e :: u64 using and_valid [of e] by (simp add: PTE_VALID_def)
  have c: "vm_mem s (slot t (pt_index n va)) AND NOT 0xFFF = child (vm_mem s (slot t (pt_index n va)))"
    "lev (child (vm_mem s (slot t (pt_index n va)))) = Some (Suc k)"
    if "lev t = Some k" "k < 3" "bit (vm_mem s (slot t (pt_index n va))) 0" for t k n
    using pt_inv_child [OF inv that(1,2) pt_index_less that(3)] by simp_all
  show ?thesis
    using c [OF pt_inv_base(3) [OF inv]] c [of _ "Suc 0"] c [of _ "Suc (Suc 0)"]
    by (simp add: unmap_page_def Let_def b va_path_def del: bit_0)
qed

lemma unmap_page_spec:
  assumes inv: "pt_inv l0 lev s"
  shows "pt_inv l0 lev (unmap_page l0 va s)"
    and "path_ok p \<Longrightarrow> pte (vm_mem (unmap_page l0 va s)) l0 p = (if p = va_path va then None else pte (vm_mem s) l0 p)"
proof -
  show "pt_inv l0 lev (unmap_page l0 va s)"
    using leaf_write(1) [OF inv path_ok_va] inv by (auto simp: unmap_page_walk [OF inv] split: option.splits)
  assume p: "path_ok p"
  show "pte (vm_mem (unmap_page l0 va s)) l0 p = (if p = va_path va then None else pte (vm_mem s) l0 p)"
  proof (cases "walk_tab (vm_mem s) l0 (fst (va_path va))")
    case None
    then show ?thesis by (auto simp: unmap_page_walk [OF inv] pte_def)
  next
    case (Some t)
    then show ?thesis using leaf_write(2) [OF inv path_ok_va Some p, of 0] by (simp add: unmap_page_walk [OF inv])
  qed
qed

lemma virt_unmap_loop_spec:
  assumes "pt_inv l0 lev s" "unat va mod 4096 = 0" and top: "unat va + unat sz \<le> 2 ^ 48"
  shows "4096 * k < unat sz + 4096 \<Longrightarrow> \<exists>s'. virt_unmap_loop l0 va sz (of_nat (4096 * k)) s = Some s' \<and> pt_inv l0 lev s' \<and>
    (\<forall>p. path_ok p \<longrightarrow> pte (vm_mem s') l0 p =
       (if \<exists>i\<ge>k. 4096 * i < unat sz \<and> p = va_path (va + of_nat (4096 * i)) then None else pte (vm_mem s) l0 p))"
  using assms(1)
proof (induction "unat sz + 4096 - 4096 * k" arbitrary: k s rule: less_induct)
  case less
  have small: "unat sz \<le> 2 ^ 48" using top by simp
  then have k64: "4096 * k < 2 ^ 64" using less.prems(1) by simp
  show ?case
  proof (cases "4096 * k < unat sz")
    case False
    then show ?thesis using next_offset [OF k64 small] less.prems
      by (subst virt_unmap_loop.simps) (auto dest: le_trans)
  next
    case True
    let ?s = "unmap_page l0 (va + of_nat (4096 * k)) s"
    have step: "virt_unmap_loop l0 va sz (of_nat (4096 * k)) s = virt_unmap_loop l0 va sz (of_nat (4096 * Suc k)) ?s"
      using next_offset [OF k64 small] True by (subst virt_unmap_loop.simps) (simp add: ac_simps)
    note sp = unmap_page_spec [OF less.prems(2)]
    have "4096 * Suc k < unat sz + 4096" "unat sz + 4096 - 4096 * Suc k < unat sz + 4096 - 4096 * k"
      using True by simp_all
    from less.hyps [OF this(2,1) sp(1)] obtain s' where r: "virt_unmap_loop l0 va sz (of_nat (4096 * Suc k)) ?s = Some s'"
      "pt_inv l0 lev s'" "\<And>p. path_ok p \<Longrightarrow> pte (vm_mem s') l0 p =
       (if \<exists>i\<ge>Suc k. 4096 * i < unat sz \<and> p = va_path (va + of_nat (4096 * i)) then None else pte (vm_mem ?s) l0 p)"
      by blast
    have "(\<exists>i\<ge>k. 4096 * i < unat sz \<and> p = va_path (va + of_nat (4096 * i))) \<longleftrightarrow>
        p = va_path (va + of_nat (4096 * k)) \<or> (\<exists>i\<ge>Suc k. 4096 * i < unat sz \<and> p = va_path (va + of_nat (4096 * i)))" for p
      using True by (metis Suc_le_eq le_eq_less_or_eq)
    then show ?thesis using r sp(2) step by auto
  qed
qed

section \<open>Correctness\<close>

text \<open>An empty root table is a tree, and \<open>page_table_init\<close> makes one.\<close>

lemma pt_inv_empty:
  assumes "phys_ok (vm_phys s)" "unat (phys_base (vm_phys s)) + unat (total_pages (vm_phys s)) * 4096 \<le> 2 ^ 48"
    "l0 \<in> owned_pages (vm_phys s)" "\<And>i. unat i < 512 \<Longrightarrow> vm_mem s (slot l0 i) = 0"
  shows "pt_inv l0 [l0 \<mapsto> 0] s" and "page_table_query l0 va s = (AEGIS_ENOENT, None)"
proof -
  show "pt_inv l0 [l0 \<mapsto> 0] s" unfolding pt_inv_def using assms by (auto split: if_splits)
  have "l0 \<noteq> 0" using owned_facts(3) [OF assms(1-3)] .
  then show "page_table_query l0 va s = (AEGIS_ENOENT, None)"
    using assms(4) [OF pt_index_less] by (simp add: page_table_query_def)
qed

lemma page_table_init_inv:
  assumes "phys_ok (vm_phys s)" "unat (phys_base (vm_phys s)) + unat (total_pages (vm_phys s)) * 4096 \<le> 2 ^ 48"
    "l0 \<in> owned_pages (vm_phys s)"
  shows "pt_inv l0 [l0 \<mapsto> 0] (snd (page_table_init l0 s))"
proof (rule pt_inv_empty(1))
  show "vm_mem (snd (page_table_init l0 s)) (slot l0 i) = 0" if "unat i < 512" for i
    using zeroed [OF owned_facts(1) [OF assms] that] by (simp add: page_table_init_def)
qed (use assms in \<open>simp_all add: page_table_init_def\<close>)

definition demo_vm :: vm where
  "demo_vm = snd (page_table_init 0x40000000 \<lparr>vm_phys = snd (phys_alloc_page demo_mem), vm_mem = (\<lambda>_. 0)\<rparr>)"

lemma demo_vm_inv: "pt_inv 0x40000000 [0x40000000 \<mapsto> 0] demo_vm"
proof -
  have ok: "phys_ok demo_mem" by (rule demo_mem_ok)
  have "fst (phys_alloc_page demo_mem) = 0x40000000"
  proof (cases demo_mem rule: phys_alloc_page_cases)
    case oom
    then show ?thesis using demo_mem_unused by (simp add: used_free_frames demo_mem_simps lessThan_empty_iff)
  next
    case (found i)
    have "0 \<in> free_frames demo_mem" using demo_mem_unused by (auto simp: used_free_frames demo_mem_simps)
    then have "i = 0" using found(2) by auto
    then show ?thesis using found by (simp add: frame_addr_def demo_mem_simps)
  qed
  then have "0x40000000 \<in> owned_pages (snd (phys_alloc_page demo_mem))"
    using pa.alloc_fresh [OF ok] by simp
  then show ?thesis unfolding demo_vm_def
    using pa.alloc_inv [OF ok] by (intro page_table_init_inv) (simp_all add: demo_mem_simps)
qed

text \<open>
  C10.  Mapping a page either succeeds or runs out of memory, and keeps the tables a tree.
  After success a query of any address of that page returns the mapped frame with the
  entry's attributes; every query of another page, and every query after a failure, returns
  what it did before.
\<close>

theorem page_table_map_correct:
  assumes "pt_inv l0 lev s" "va AND 4095 = 0" "pa AND 4095 = 0" "unat pa < 2 ^ 48" "flags AND AEGIS_VM_GUARD = 0"
    and "page_table_map l0 va pa flags s = (ret, s')"
  shows "\<exists>lev'. pt_inv l0 lev' s' \<and> (ret = AEGIS_OK \<or> ret = AEGIS_ENOMEM) \<and>
    (\<forall>va'. page_table_query l0 va' s' =
      (if ret = AEGIS_OK \<and> vpn va' = vpn va
       then (AEGIS_OK, Some (pa OR (va' AND 4095), pa OR page_attrs_from_flags flags))
       else page_table_query l0 va' s))"
proof -
  have l0: "l0 \<noteq> 0" using pt_inv_table(3) [OF assms(1) pt_inv_base(3) [OF assms(1)]] .
  have pa: "pa AND PTE_ADDR_MASK = pa" using assms(3,4) by (intro frame_masked) (simp_all add: aligned_def page_aligned_iff)
  note e = leaf_entry(1,2) [of pa flags, unfolded pa]
  obtain lev' where lev': "pt_inv l0 lev' s'" "ret = AEGIS_OK \<or> ret = AEGIS_ENOMEM"
    "\<And>p. path_ok p \<Longrightarrow> pte (vm_mem s') l0 p = (if ret = AEGIS_OK \<and> p = va_path va
       then Some (pa OR page_attrs_from_flags flags) else pte (vm_mem s) l0 p)"
    using page_table_map_spec [OF assms(1-3,5,6), unfolded pa] e(1) by auto
  have "page_table_query l0 va' s' = (if ret = AEGIS_OK \<and> vpn va' = vpn va
       then (AEGIS_OK, Some (pa OR (va' AND 4095), pa OR page_attrs_from_flags flags))
       else page_table_query l0 va' s)" for va'
    using lev'(3) [of "va_path va'"] path_ok_va e(2) unfolding page_table_query_pte [OF l0] va_path_eq by simp
  then show ?thesis using lev'(1,2) by blast
qed

lemma page_table_map_correct_witness:
  "\<exists>ret s'. page_table_map 0x40000000 0x1000 0x40005000 2 demo_vm = (ret, s') \<and>
     (ret = AEGIS_OK \<longrightarrow> fst (page_table_query 0x40000000 0x1234 s') = AEGIS_OK)"
proof -
  obtain ret s' where m: "page_table_map 0x40000000 0x1000 0x40005000 2 demo_vm = (ret, s')" by force
  have "vpn 0x1234 = vpn 0x1000" by (simp add: vpn_def take_bit_eq_mod)
  then show ?thesis using page_table_map_correct [OF demo_vm_inv _ _ _ _ m] m by (auto simp: AEGIS_VM_GUARD_def)
qed

lemma page_entry_facts:
  fixes pa :: u64 and flags :: u32
  defines "e \<equiv> (pa AND PTE_ADDR_MASK) OR page_attrs_from_flags flags"
  shows "page_table_entry_is_valid e" and "e AND PTE_ADDR_MASK = pa AND PTE_ADDR_MASK"
    and "page_table_entry_allows_user e \<longleftrightarrow> flags AND AEGIS_VM_USER \<noteq> 0"
    and "page_table_entry_allows_write e \<longleftrightarrow> flags AND AEGIS_VM_WRITE \<noteq> 0"
    and "page_table_entry_allows_el0_execute e \<longleftrightarrow> flags AND AEGIS_VM_USER \<noteq> 0 \<and> flags AND AEGIS_VM_EXEC \<noteq> 0"
    and "page_table_entry_is_privileged_only e \<longleftrightarrow> flags AND AEGIS_VM_USER = 0"
    and "e AND PTE_PXN = 0 \<longleftrightarrow> flags AND AEGIS_VM_USER = 0 \<and> flags AND AEGIS_VM_EXEC \<noteq> 0"
proof -
  have "PTE_AP_MASK AND PTE_ADDR_MASK = 0" "PTE_UXN AND PTE_ADDR_MASK = 0" "PTE_PXN AND PTE_ADDR_MASK = 0"
    by (simp_all add: pte_consts)
  note x = this [THEN leaf_entry(3) [of _ pa flags, folded e_def]] page_attrs_bits(3-5) [of flags]
  have ap: "PTE_AP_RW_ALL \<noteq> PTE_AP_RO_ALL" "PTE_AP_RW_EL1 \<noteq> PTE_AP_RW_ALL" "PTE_AP_RW_EL1 \<noteq> PTE_AP_RO_ALL"
    "PTE_AP_RO_EL1 \<noteq> PTE_AP_RW_ALL" "PTE_AP_RO_EL1 \<noteq> PTE_AP_RO_ALL" "PTE_AP_RO_EL1 \<noteq> PTE_AP_RW_EL1"
    by (simp_all add: pte_consts)
  show valid: "page_table_entry_is_valid e"
    using leaf_entry(1) [of pa flags] by (simp add: page_table_entry_is_valid_def and_valid e_def)
  show "e AND PTE_ADDR_MASK = pa AND PTE_ADDR_MASK" using leaf_entry(2) by (simp add: e_def)
  show user: "page_table_entry_allows_user e \<longleftrightarrow> flags AND AEGIS_VM_USER \<noteq> 0"
    using ap x by (auto simp: page_table_entry_allows_user_def Let_def)
  show "page_table_entry_allows_write e \<longleftrightarrow> flags AND AEGIS_VM_WRITE \<noteq> 0"
    using ap x by (auto simp: page_table_entry_allows_write_def Let_def)
  show "page_table_entry_allows_el0_execute e \<longleftrightarrow> flags AND AEGIS_VM_USER \<noteq> 0 \<and> flags AND AEGIS_VM_EXEC \<noteq> 0"
    using user x by (auto simp: page_table_entry_allows_el0_execute_def)
  show "page_table_entry_is_privileged_only e \<longleftrightarrow> flags AND AEGIS_VM_USER = 0"
    using user valid by (simp add: page_table_entry_is_privileged_only_def)
  show "e AND PTE_PXN = 0 \<longleftrightarrow> flags AND AEGIS_VM_USER = 0 \<and> flags AND AEGIS_VM_EXEC \<noteq> 0" using x by simp
qed

text \<open>
  C11.  The entry that a set of mapping flags produces is valid, keeps the frame address, and
  grants exactly what the flags ask for: user access for user mappings only, writes for
  writable mappings only, execution at EL0 for executable user mappings only; a user mapping
  is never executable by the kernel.
\<close>

theorem page_entry_permissions:
  "let e = (pa AND PTE_ADDR_MASK) OR page_attrs_from_flags flags in
     page_table_entry_is_valid e \<and> e AND PTE_ADDR_MASK = pa AND PTE_ADDR_MASK \<and>
     (page_table_entry_allows_user e \<longleftrightarrow> flags AND AEGIS_VM_USER \<noteq> 0) \<and>
     (page_table_entry_allows_write e \<longleftrightarrow> flags AND AEGIS_VM_WRITE \<noteq> 0) \<and>
     (page_table_entry_allows_el0_execute e \<longleftrightarrow> flags AND AEGIS_VM_USER \<noteq> 0 \<and> flags AND AEGIS_VM_EXEC \<noteq> 0) \<and>
     (page_table_entry_is_privileged_only e \<longleftrightarrow> flags AND AEGIS_VM_USER = 0) \<and>
     (e AND PTE_PXN = 0 \<longleftrightarrow> flags AND AEGIS_VM_USER = 0 \<and> flags AND AEGIS_VM_EXEC \<noteq> 0)"
  unfolding Let_def by (intro conjI page_entry_facts)

text \<open>
  C12.  \<open>virt_map\<close> of an aligned range that fits the 48-bit address space returns.  On success
  every page of the range translates to the frame at the same offset, after running out of
  memory a prefix of it does; all other addresses translate as before.
\<close>

theorem virt_map_correct:
  assumes "pt_inv l0 lev s" "va AND 4095 = 0" "pa AND 4095 = 0" "flags AND AEGIS_VM_GUARD = 0"
    and "unat va + unat sz \<le> 2 ^ 48" "unat pa + unat sz \<le> 2 ^ 48"
  shows "\<exists>ret s' lev' n. virt_map l0 va pa sz flags s = Some (ret, s') \<and> pt_inv l0 lev' s' \<and>
    (ret = AEGIS_OK \<and> unat sz \<le> 4096 * n \<or> ret = AEGIS_ENOMEM) \<and> 4096 * n < unat sz + 4096 \<and>
    (\<forall>i<n. page_table_query l0 (va + of_nat (4096 * i)) s' =
       (AEGIS_OK, Some (pa + of_nat (4096 * i), (pa + of_nat (4096 * i)) OR page_attrs_from_flags flags))) \<and>
    (\<forall>va'. (\<forall>i<n. vpn va' \<noteq> vpn (va + of_nat (4096 * i))) \<longrightarrow> page_table_query l0 va' s' = page_table_query l0 va' s)"
proof -
  have l0: "l0 \<noteq> 0" using pt_inv_table(3) [OF assms(1) pt_inv_base(3) [OF assms(1)]] .
  have al: "unat va mod 4096 = 0" "unat pa mod 4096 = 0" using assms(2,3) by (simp_all add: page_aligned_iff)
  have "4096 * (0::nat) < unat sz + 4096" by simp
  from virt_map_loop_spec [OF assms(1) al assms(4-6) this] obtain ret s' lev' n where
    r: "virt_map_loop l0 va pa sz flags (of_nat (4096 * 0)) s = Some (ret, s')" "pt_inv l0 lev' s'"
    "ret = AEGIS_OK \<and> unat sz \<le> 4096 * n \<or> ret = AEGIS_ENOMEM" "4096 * n < unat sz + 4096"
    "\<forall>i. 0 \<le> i \<and> i < n \<longrightarrow> pte (vm_mem s') l0 (va_path (va + of_nat (4096 * i))) =
       Some (((pa + of_nat (4096 * i)) AND PTE_ADDR_MASK) OR page_attrs_from_flags flags)"
    "\<forall>p. path_ok p \<and> (\<forall>i. 0 \<le> i \<and> i < n \<longrightarrow> p \<noteq> va_path (va + of_nat (4096 * i))) \<longrightarrow>
       pte (vm_mem s') l0 p = pte (vm_mem s) l0 p"
    by (elim exE conjE) (rule that)
  have q: "page_table_query l0 (va + of_nat (4096 * i)) s' =
       (AEGIS_OK, Some (pa + of_nat (4096 * i), (pa + of_nat (4096 * i)) OR page_attrs_from_flags flags))" if "i < n" for i
  proof -
    have i: "4096 * i < unat sz" using that r(4) by simp
    note off = page_offset [OF assms(5) i al(1)] page_offset [OF assms(6) i al(2)]
    have m: "(pa + of_nat (4096 * i)) AND PTE_ADDR_MASK = pa + of_nat (4096 * i)"
      using off(4,5) i assms(6) unfolding page_aligned_iff by (intro frame_masked) (simp_all add: aligned_def)
    show ?thesis
      using r(5) [rule_format, of i] that off(2) leaf_entry(2) [of "pa + of_nat (4096 * i)" flags]
      unfolding page_table_query_pte [OF l0] m by simp
  qed
  have "page_table_query l0 va' s' = page_table_query l0 va' s" if "\<forall>i<n. vpn va' \<noteq> vpn (va + of_nat (4096 * i))" for va'
    using r(6) [rule_format, of "va_path va'"] that path_ok_va unfolding page_table_query_pte [OF l0] va_path_eq by simp
  then show ?thesis using r(1-4) q unfolding virt_map_def by (intro exI [of _ ret] exI [of _ s'] exI [of _ lev'] exI [of _ n]) simp
qed

lemma virt_map_correct_witness:
  "\<exists>ret s'. virt_map 0x40000000 0x10000 0x40000000 0x2000 2 demo_vm = Some (ret, s') \<and>
     (ret = AEGIS_OK \<longrightarrow> fst (page_table_query 0x40000000 0x11000 s') = AEGIS_OK)"
proof -
  obtain ret s' n where r: "virt_map 0x40000000 0x10000 0x40000000 0x2000 2 demo_vm = Some (ret, s')"
    "ret = AEGIS_OK \<and> 8192 \<le> 4096 * n \<or> ret = AEGIS_ENOMEM" "\<And>i. i < n \<Longrightarrow>
      page_table_query 0x40000000 (0x10000 + of_nat (4096 * i)) s' = (AEGIS_OK, Some (0x40000000 + of_nat (4096 * i),
        (0x40000000 + of_nat (4096 * i)) OR page_attrs_from_flags 2))"
    using virt_map_correct [OF demo_vm_inv, where va = "0x10000" and pa = "0x40000000" and flags = 2 and sz = "0x2000"] by (auto simp: AEGIS_VM_GUARD_def)
  then show ?thesis using r(3) [of 1] by auto
qed

text \<open>
  C13.  \<open>virt_unmap\<close> of an aligned range returns, keeps the tables a tree, and removes exactly
  the translations of the pages of the range.
\<close>

theorem virt_unmap_correct:
  assumes "pt_inv l0 lev s" "va AND 4095 = 0" "unat va + unat sz \<le> 2 ^ 48"
  shows "\<exists>s'. virt_unmap l0 va sz s = Some (AEGIS_OK, s') \<and> pt_inv l0 lev s' \<and>
    (\<forall>va'. page_table_query l0 va' s' =
       (if \<exists>i. 4096 * i < unat sz \<and> vpn va' = vpn (va + of_nat (4096 * i)) then (AEGIS_ENOENT, None)
        else page_table_query l0 va' s))"
proof -
  have l0: "l0 \<noteq> 0" using pt_inv_table(3) [OF assms(1) pt_inv_base(3) [OF assms(1)]] .
  have al: "unat va mod 4096 = 0" using assms(2) by (simp add: page_aligned_iff)
  have "4096 * (0::nat) < unat sz + 4096" by simp
  from virt_unmap_loop_spec [OF assms(1) al assms(3) this] obtain s' where
    r: "virt_unmap_loop l0 va sz 0 s = Some s'" "pt_inv l0 lev s'" "\<And>p. path_ok p \<Longrightarrow> pte (vm_mem s') l0 p =
      (if \<exists>i. 4096 * i < unat sz \<and> p = va_path (va + of_nat (4096 * i)) then None else pte (vm_mem s) l0 p)" by auto
  have "page_table_query l0 va' s' = (if \<exists>i. 4096 * i < unat sz \<and> vpn va' = vpn (va + of_nat (4096 * i))
      then (AEGIS_ENOENT, None) else page_table_query l0 va' s)" for va'
    using r(3) [of "va_path va'"] path_ok_va unfolding page_table_query_pte [OF l0] va_path_eq by auto
  then show ?thesis using r(1,2) by (simp add: virt_unmap_def)
qed

lemma virt_unmap_correct_witness:
  "\<exists>s'. virt_unmap 0x40000000 0x10000 0x2000 demo_vm = Some (AEGIS_OK, s') \<and>
     page_table_query 0x40000000 0x10000 s' = (AEGIS_ENOENT, None)"
proof -
  have "\<exists>i. 4096 * i < (8192::nat) \<and> vpn 0x10000 = vpn (0x10000 + of_nat (4096 * i))" by (intro exI [of _ 0]) simp
  then show ?thesis using virt_unmap_correct [OF demo_vm_inv, where va = "0x10000" and sz = "0x2000"] by auto
qed

end
