(* ===== verification/Service_Manager.thy ===== *)
theory Service_Manager
  imports Aegis_Prelude
begin

text \<open>
  kernel/core/service_manager.c: the registry of kernel services and the preparation of
  their dependency graph.  The service table is a list of \<open>AEGIS_SERVICE_MAX\<close> entries of
  which the first \<open>service_count\<close> are in use; a NULL string argument is \<open>None\<close>.
\<close>

section \<open>State and operations\<close>

definition AEGIS_SERVICE_NAME_MAX :: nat where "AEGIS_SERVICE_NAME_MAX = 32"
definition AEGIS_SERVICE_MAX :: nat where "AEGIS_SERVICE_MAX = 32"
definition AEGIS_SERVICE_DEPS_MAX :: nat where "AEGIS_SERVICE_DEPS_MAX = 4"

datatype aegis_service_state = SERVICE_EMPTY | SERVICE_REGISTERED | SERVICE_PREPARED | SERVICE_RUNNING | SERVICE_FAILED

definition SERVICE_FLAG_REQUIRED :: u32 where "SERVICE_FLAG_REQUIRED = 1"
definition SERVICE_FLAG_KERNEL :: u32 where "SERVICE_FLAG_KERNEL = 2"

record aegis_service =
  svc_id :: nat
  svc_name :: string
  svc_state :: aegis_service_state
  svc_flags :: u32
  svc_dependency_count :: nat
  svc_dependencies :: "nat list"

record service_manager =
  services :: "aegis_service list"
  service_count :: nat
  manager_prepared :: bool

definition service_zero :: aegis_service where
  "service_zero = \<lparr>svc_id = 0, svc_name = [], svc_state = SERVICE_EMPTY, svc_flags = 0,
     svc_dependency_count = 0, svc_dependencies = replicate AEGIS_SERVICE_DEPS_MAX 0\<rparr>"

definition service_name_copy :: "string option \<Rightarrow> string" where
  "service_name_copy src = copy_bounded (AEGIS_SERVICE_NAME_MAX - 1) (case src of None \<Rightarrow> ''unnamed'' | Some s \<Rightarrow> s)"

fun service_state_name :: "aegis_service_state \<Rightarrow> string" where
  "service_state_name SERVICE_EMPTY = ''empty''"
| "service_state_name SERVICE_REGISTERED = ''registered''"
| "service_state_name SERVICE_PREPARED = ''prepared''"
| "service_state_name SERVICE_RUNNING = ''running''"
| "service_state_name SERVICE_FAILED = ''failed''"

definition service_manager_init :: service_manager where
  "service_manager_init = \<lparr>services = replicate AEGIS_SERVICE_MAX service_zero, service_count = 0, manager_prepared = False\<rparr>"

definition service_manager_get :: "nat \<Rightarrow> service_manager \<Rightarrow> aegis_service option" where
  "service_manager_get i m = (if i = 0 \<or> i > service_count m then None else Some (services m ! (i - 1)))"

definition service_manager_find :: "string option \<Rightarrow> service_manager \<Rightarrow> aegis_service option" where
  "service_manager_find name m = (case name of None \<Rightarrow> None | Some n \<Rightarrow>
     map_option ((!) (services m))
       (scan (\<lambda>s. svc_state s \<noteq> SERVICE_EMPTY \<and> str_eq (svc_name s) n) (take (service_count m) (services m))))"

text \<open>The loop that resolves the names of the dependencies into \<open>svc->dependencies\<close>.\<close>

fun resolve_deps :: "service_manager \<Rightarrow> string option list \<Rightarrow> nat \<Rightarrow> nat \<Rightarrow> nat list \<Rightarrow> int \<times> nat list" where
  "resolve_deps m names i 0 ds = (AEGIS_OK, ds)"
| "resolve_deps m names i (Suc k) ds =
     (if length names \<le> i \<or> names ! i = None then (AEGIS_EINVAL, ds)
      else case service_manager_find (names ! i) m of
        None \<Rightarrow> (AEGIS_ENOENT, ds)
      | Some dep \<Rightarrow> resolve_deps m names (Suc i) k (ds[i := svc_id dep]))"

definition service_manager_register_kernel ::
  "string option \<Rightarrow> u32 \<Rightarrow> string option list \<Rightarrow> nat \<Rightarrow> service_manager \<Rightarrow> int \<times> nat option \<times> service_manager" where
  "service_manager_register_kernel name flags deps dependency_count m =
     (if name = None \<or> length (the name) = 0 \<or> dependency_count > AEGIS_SERVICE_DEPS_MAX then (AEGIS_EINVAL, None, m)
      else if manager_prepared m then (AEGIS_EBUSY, None, m)
      else if service_count m \<ge> AEGIS_SERVICE_MAX then (AEGIS_ENOMEM, None, m)
      else if service_manager_find name m \<noteq> None then (AEGIS_EBUSY, None, m)
      else let svc = service_zero\<lparr>svc_id := service_count m + 1, svc_state := SERVICE_REGISTERED,
                      svc_flags := flags OR SERVICE_FLAG_KERNEL, svc_dependency_count := dependency_count,
                      svc_name := service_name_copy name\<rparr>;
               (rc, ds) = resolve_deps m deps 0 dependency_count (svc_dependencies svc);
               m = m\<lparr>services := (services m)[service_count m := svc\<lparr>svc_dependencies := ds\<rparr>]\<rparr>
           in if rc \<noteq> AEGIS_OK then (rc, None, m)
              else (AEGIS_OK, Some (svc_id svc), m\<lparr>service_count := service_count m + 1\<rparr>))"

fun register_all :: "(string \<times> string list) list \<Rightarrow> service_manager \<Rightarrow> int \<times> service_manager" where
  "register_all [] m = (AEGIS_OK, m)"
| "register_all ((name, deps) # rest) m =
     (let (rc, i, m) = service_manager_register_kernel (Some name) SERVICE_FLAG_REQUIRED (map Some deps) (length deps) m
      in if rc \<noteq> AEGIS_OK then (rc, m) else register_all rest m)"

definition service_manager_register_builtin_kernel_services :: "service_manager \<Rightarrow> int \<times> service_manager" where
  "service_manager_register_builtin_kernel_services m = register_all
     [(''vfs'', []), (''initramfs'', [''vfs'']), (''devfs'', [''vfs'']), (''procfs'', [''vfs'']), (''capability'', []),
      (''ipc'', [''capability'']), (''security'', [''capability'', ''ipc'']), (''network'', []), (''firewall'', []),
      (''router'', [''network'', ''firewall'', ''security'']),
      (''aegisd'', [''vfs'', ''ipc'', ''security'', ''router''])] m"

definition dependency_is_prepared :: "service_manager \<Rightarrow> nat \<Rightarrow> bool" where
  "dependency_is_prepared m dep_id =
     (case service_manager_get dep_id m of None \<Rightarrow> False | Some dep \<Rightarrow> svc_state dep = SERVICE_PREPARED)"

text \<open>
  One pass over the services \<open>i\<close>, \<open>i + 1\<close>, \dots: the error code, the number of services
  prepared so far, whether the pass made progress, and the new state.
\<close>

fun prepare_pass :: "nat \<Rightarrow> nat \<Rightarrow> nat \<Rightarrow> bool \<Rightarrow> service_manager \<Rightarrow> int \<times> nat \<times> bool \<times> service_manager" where
  "prepare_pass i 0 tot progressed m = (AEGIS_OK, tot, progressed, m)"
| "prepare_pass i (Suc k) tot progressed m =
     (let svc = services m ! i in
      if svc_state svc = SERVICE_PREPARED then prepare_pass (Suc i) k tot progressed m
      else if svc_state svc \<noteq> SERVICE_REGISTERED then (AEGIS_EINVAL, tot, progressed, m)
      else if \<not> list_all (dependency_is_prepared m) (take (svc_dependency_count svc) (svc_dependencies svc))
      then prepare_pass (Suc i) k tot progressed m
      else prepare_pass (Suc i) k (tot + 1) True
             (m\<lparr>services := (services m)[i := svc\<lparr>svc_state := SERVICE_PREPARED\<rparr>]\<rparr>))"

fun prepare_passes :: "nat \<Rightarrow> nat \<Rightarrow> service_manager \<Rightarrow> int \<times> nat \<times> service_manager" where
  "prepare_passes 0 tot m = (AEGIS_OK, tot, m)"
| "prepare_passes (Suc k) tot m =
     (if tot < service_count m then
        let (rc, tot, progressed, m) = prepare_pass 0 (service_count m) tot False m
        in if rc \<noteq> AEGIS_OK then (rc, tot, m)
           else if \<not> progressed then (AEGIS_OK, tot, m)
           else prepare_passes k tot m
      else (AEGIS_OK, tot, m))"

definition service_manager_prepare :: "service_manager \<Rightarrow> int \<times> service_manager" where
  "service_manager_prepare m =
     (if service_count m = 0 then (AEGIS_EINVAL, m)
      else let (rc, tot, m) = prepare_passes AEGIS_SERVICE_MAX 0 m
           in if rc \<noteq> AEGIS_OK then (rc, m)
              else if tot \<noteq> service_count m then (AEGIS_EINVAL, m)
              else (AEGIS_OK, m\<lparr>manager_prepared := True\<rparr>))"

definition service_manager_count :: "service_manager \<Rightarrow> nat" where
  "service_manager_count m = service_count m"

definition service_manager_registered_count :: "service_manager \<Rightarrow> nat" where
  "service_manager_registered_count m =
     length (filter (\<lambda>s. svc_state s = SERVICE_REGISTERED) (take (service_count m) (services m)))"

definition service_manager_prepared_count :: "service_manager \<Rightarrow> nat" where
  "service_manager_prepared_count m =
     length (filter (\<lambda>s. svc_state s = SERVICE_PREPARED) (take (service_count m) (services m)))"

definition service_manager_is_prepared :: "service_manager \<Rightarrow> bool" where
  "service_manager_is_prepared m = manager_prepared m"

definition service_manager_selftest :: "service_manager \<Rightarrow> int" where
  "service_manager_selftest m =
     (if \<not> manager_prepared m then AEGIS_EINVAL
      else if service_count m < 10 then AEGIS_EINVAL
      else if service_manager_prepared_count m \<noteq> service_count m then AEGIS_EINVAL
      else case (service_manager_find (Some ''vfs'') m, service_manager_find (Some ''initramfs'') m,
                 service_manager_find (Some ''aegisd'') m, service_manager_find (Some ''router'') m) of
        (Some vfs, Some initramfs, Some aegisd, Some router) \<Rightarrow>
          if svc_state vfs \<noteq> SERVICE_PREPARED then AEGIS_EINVAL
          else if svc_dependency_count initramfs \<noteq> 1 \<or> svc_dependencies initramfs ! 0 \<noteq> svc_id vfs then AEGIS_EINVAL
          else if svc_dependency_count router \<noteq> 3 then AEGIS_EINVAL
          else if svc_dependency_count aegisd \<noteq> 4 then AEGIS_EINVAL
          else if svc_flags aegisd AND SERVICE_FLAG_KERNEL = 0 then AEGIS_EINVAL
          else AEGIS_OK
      | _ \<Rightarrow> AEGIS_ENOENT)"

section \<open>The dependency order\<close>

text \<open>
  In a well-formed registry the service in slot \<open>i\<close> has number \<open>i + 1\<close>, is registered or
  prepared, and depends on services with smaller numbers only.
\<close>

definition service_ok :: "nat \<Rightarrow> aegis_service \<Rightarrow> bool" where
  "service_ok i s \<longleftrightarrow> svc_id s = i + 1 \<and> (svc_state s = SERVICE_REGISTERED \<or> svc_state s = SERVICE_PREPARED) \<and>
     svc_dependency_count s \<le> length (svc_dependencies s) \<and>
     (\<forall>d < svc_dependency_count s. 0 < svc_dependencies s ! d \<and> svc_dependencies s ! d \<le> i)"

definition services_inv :: "service_manager \<Rightarrow> bool" where
  "services_inv m \<longleftrightarrow> length (services m) = AEGIS_SERVICE_MAX \<and> service_count m \<le> AEGIS_SERVICE_MAX \<and>
     (\<forall>i < service_count m. service_ok i (services m ! i))"

lemma services_inv_init: "services_inv service_manager_init"
  by (simp add: services_inv_def service_manager_init_def)

lemma service_manager_find_inv:
  assumes "services_inv m" and "service_manager_find n m = Some s"
  shows "0 < svc_id s \<and> svc_id s \<le> service_count m"
proof -
  obtain k where "scan (\<lambda>s. svc_state s \<noteq> SERVICE_EMPTY \<and> str_eq (svc_name s) (the n)) (take (service_count m) (services m)) = Some k"
    "s = services m ! k" using assms(2) by (auto simp: service_manager_find_def split: option.splits)
  then have "k < service_count m" "s = services m ! k" by (auto dest: scan_less)
  then show ?thesis using assms(1) by (auto simp: services_inv_def service_ok_def)
qed

lemma resolve_deps_spec:
  assumes "services_inv m" and "i + k \<le> length ds" and "\<forall>d<i. 0 < ds ! d \<and> ds ! d \<le> service_count m"
    and "resolve_deps m names i k ds = (AEGIS_OK, ds')"
  shows "length ds' = length ds \<and> (\<forall>d<i + k. 0 < ds' ! d \<and> ds' ! d \<le> service_count m)"
  using assms(2-)
proof (induction k arbitrary: i ds)
  case (Suc k)
  obtain dep where dep: "service_manager_find (names ! i) m = Some dep"
    and r: "resolve_deps m names (Suc i) k (ds[i := svc_id dep]) = (AEGIS_OK, ds')"
    using Suc.prems(3) by (auto split: if_splits option.splits)
  have "\<forall>d<Suc i. 0 < ds[i := svc_id dep] ! d \<and> ds[i := svc_id dep] ! d \<le> service_count m"
    using Suc.prems(1,2) service_manager_find_inv [OF assms(1) dep] by (auto simp: less_Suc_eq)
  from Suc.IH [OF _ this r] Suc.prems(1) show ?case by simp
qed simp

lemma register_kernel_inv:
  assumes "services_inv m" and "service_manager_register_kernel name flags deps dc m = (rc, i, m')"
  shows "services_inv m'"
proof (cases "rc = AEGIS_OK")
  case False
  then show ?thesis
    using assms by (auto simp: service_manager_register_kernel_def services_inv_def Let_def nth_list_update
        split: if_splits prod.splits)
next
  case True
  let ?svc = "service_zero\<lparr>svc_id := service_count m + 1, svc_state := SERVICE_REGISTERED,
      svc_flags := flags OR SERVICE_FLAG_KERNEL, svc_dependency_count := dc, svc_name := service_name_copy name\<rparr>"
  obtain ds where ds: "resolve_deps m deps 0 dc (svc_dependencies ?svc) = (AEGIS_OK, ds)"
    and c: "service_count m < AEGIS_SERVICE_MAX" "dc \<le> AEGIS_SERVICE_DEPS_MAX"
    and m': "m' = m\<lparr>services := (services m)[service_count m := ?svc\<lparr>svc_dependencies := ds\<rparr>], service_count := service_count m + 1\<rparr>"
    using assms(2) True by (auto simp: service_manager_register_kernel_def Let_def split: if_splits prod.splits)
  have "length ds = AEGIS_SERVICE_DEPS_MAX" "\<forall>d<dc. 0 < ds ! d \<and> ds ! d \<le> service_count m"
    using resolve_deps_spec [OF assms(1) _ _ ds] c(2) by (simp_all add: service_zero_def)
  then have "service_ok (service_count m) (?svc\<lparr>svc_dependencies := ds\<rparr>)" using c(2) by (simp add: service_ok_def)
  then show ?thesis using assms(1) c by (auto simp: m' services_inv_def nth_list_update less_Suc_eq)
qed

lemma prepare_pass_spec:
  assumes "services_inv m" and "i + k = service_count m"
    and "\<forall>j<i. svc_state (services m ! j) = SERVICE_PREPARED"
    and "\<forall>j. i \<le> j \<and> j < service_count m \<longrightarrow> svc_state (services m ! j) = SERVICE_REGISTERED"
  shows "\<exists>m'. prepare_pass i k tot progressed m = (AEGIS_OK, tot + k, progressed \<or> 0 < k, m') \<and>
    services_inv m' \<and> service_count m' = service_count m \<and>
    (\<forall>j < service_count m. svc_state (services m' ! j) = SERVICE_PREPARED)"
  using assms
proof (induction k arbitrary: i tot progressed m)
  case (Suc k)
  let ?svc = "services m ! i"
  let ?m = "m\<lparr>services := (services m)[i := ?svc\<lparr>svc_state := SERVICE_PREPARED\<rparr>]\<rparr>"
  have i: "i < service_count m" "i < length (services m)" using Suc.prems(1,2) by (auto simp: services_inv_def)
  have ok: "service_ok i ?svc" using Suc.prems(1) i by (simp add: services_inv_def)
  have "dependency_is_prepared m d" if "d \<in> set (take (svc_dependency_count ?svc) (svc_dependencies ?svc))" for d
  proof -
    have "0 < d" "d \<le> i" using that ok by (auto simp: service_ok_def in_set_conv_nth)
    then show ?thesis using Suc.prems(3) i(1) by (auto simp: dependency_is_prepared_def service_manager_get_def)
  qed
  then have step: "prepare_pass i (Suc k) tot progressed m = prepare_pass (Suc i) k (tot + 1) True ?m"
    using Suc.prems(4) i by (simp add: list_all_iff)
  have "services_inv ?m" using Suc.prems(1) ok i by (auto simp: services_inv_def service_ok_def nth_list_update)
  from Suc.IH [of ?m "Suc i" "tot + 1" True, OF this] Suc.prems(2-4) i show ?case
    unfolding step by (auto simp: less_Suc_eq nth_list_update)
qed auto

lemma service_manager_prepare_spec:
  assumes "services_inv m" and "0 < service_count m"
    and "\<forall>j < service_count m. svc_state (services m ! j) = SERVICE_REGISTERED"
  shows "\<exists>m'. service_manager_prepare m = (AEGIS_OK, m') \<and> services_inv m' \<and> manager_prepared m' \<and>
    service_count m' = service_count m \<and> (\<forall>j < service_count m. svc_state (services m' ! j) = SERVICE_PREPARED)"
proof -
  obtain m' where m': "prepare_pass 0 (service_count m) 0 False m = (AEGIS_OK, service_count m, True, m')"
    "services_inv m'" "service_count m' = service_count m"
    "\<forall>j < service_count m. svc_state (services m' ! j) = SERVICE_PREPARED"
    using prepare_pass_spec [OF assms(1), of 0 "service_count m" 0 False] assms(2,3) by auto
  have "prepare_passes n (service_count m) m' = (AEGIS_OK, service_count m, m')" for n
    using m'(3) by (cases n) auto
  then have "prepare_passes (Suc n) 0 m = (AEGIS_OK, service_count m, m')" for n
    using m'(1) assms(2) by simp
  from this [of 31] have "prepare_passes AEGIS_SERVICE_MAX 0 m = (AEGIS_OK, service_count m, m')"
    by (simp add: AEGIS_SERVICE_MAX_def del: prepare_passes.simps)
  then show ?thesis using m'(2-) assms(2) by (simp add: service_manager_prepare_def services_inv_def)
qed

section \<open>Correctness\<close>

text \<open>
  C14.  Registration keeps the registry well formed: services are numbered in order and depend
  on earlier services only.  In every well-formed registry of registered services
  preparation returns success, whatever the number of services, and leaves every service
  prepared.
\<close>

theorem service_dependencies_prepare:
  assumes "services_inv m"
  shows "(service_manager_register_kernel name flags deps dc m = (rc, i, m1) \<longrightarrow> services_inv m1) \<and>
    (0 < service_count m \<and> (\<forall>j < service_count m. svc_state (services m ! j) = SERVICE_REGISTERED) \<longrightarrow>
       (\<exists>m'. service_manager_prepare m = (AEGIS_OK, m') \<and> services_inv m' \<and> service_manager_is_prepared m' \<and>
         (\<forall>j < service_count m. svc_state (services m' ! j) = SERVICE_PREPARED)))"
  using register_kernel_inv [OF assms] service_manager_prepare_spec [OF assms]
  by (auto simp: service_manager_is_prepared_def)

lemma service_dependencies_prepare_witness:
  "\<exists>i m1. service_manager_register_kernel (Some ''vfs'') 1 [] 0 service_manager_init = (AEGIS_OK, i, m1) \<and> services_inv m1"
proof -
  obtain i m1 where "service_manager_register_kernel (Some ''vfs'') 1 [] 0 service_manager_init = (AEGIS_OK, i, m1)"
    by (simp add: service_manager_register_kernel_def service_manager_init_def service_manager_find_def
        AEGIS_SERVICE_MAX_def AEGIS_SERVICE_DEPS_MAX_def)
  then show ?thesis using service_dependencies_prepare [OF services_inv_init] by blast
qed


end
