(* ===== verification/Userland_State.thy ===== *)
theory Userland_State
  imports Aegis_Prelude
begin

text \<open>
  kernel/include/userland.h: the constants, the region, process descriptor and feature
  records, and the handoff state of the early userland bring-up.
\<close>

section \<open>Constants\<close>

definition AEGIS_USERLAND_FEATURE_MAX :: nat where "AEGIS_USERLAND_FEATURE_MAX = 24"
definition AEGIS_USERLAND_NAME_MAX :: nat where "AEGIS_USERLAND_NAME_MAX = 32"
definition AEGIS_USERLAND_PATH_MAX :: nat where "AEGIS_USERLAND_PATH_MAX = 64"
definition AEGIS_USERLAND_PROCESS_MAX :: nat where "AEGIS_USERLAND_PROCESS_MAX = 8"
definition AEGIS_USER_ARGV_MAX :: nat where "AEGIS_USER_ARGV_MAX = 4"
definition AEGIS_USER_ENVP_MAX :: nat where "AEGIS_USER_ENVP_MAX = 4"
definition AEGIS_USER_ARG_STRING_MAX :: nat where "AEGIS_USER_ARG_STRING_MAX = 64"
definition AEGIS_USER_STACK_BOOTSTRAP_SIZE :: u64 where "AEGIS_USER_STACK_BOOTSTRAP_SIZE = 512"
definition AEGIS_USER_PROCESS_STRIDE :: u64 where "AEGIS_USER_PROCESS_STRIDE = 0x1000000"
definition AEGIS_USER_STACK_STRIDE :: u64 where "AEGIS_USER_STACK_STRIDE = 0x20000"
definition AEGIS_USER_TEXT_BASE :: u64 where "AEGIS_USER_TEXT_BASE = 0x400000"
definition AEGIS_USER_TEXT_SIZE :: u64 where "AEGIS_USER_TEXT_SIZE = 0x200000"
definition AEGIS_USER_HEAP_BASE :: u64 where "AEGIS_USER_HEAP_BASE = 0x10000000"
definition AEGIS_USER_HEAP_SIZE :: u64 where "AEGIS_USER_HEAP_SIZE = 0x1000000"
definition AEGIS_USER_IPC_BASE :: u64 where "AEGIS_USER_IPC_BASE = 0x20000000"
definition AEGIS_USER_IPC_SIZE :: u64 where "AEGIS_USER_IPC_SIZE = 0x100000"
definition AEGIS_USER_STACK_TOP :: u64 where "AEGIS_USER_STACK_TOP = 0x7fff000000"
definition AEGIS_USER_STACK_SIZE :: u64 where "AEGIS_USER_STACK_SIZE = 0x10000"
definition AEGIS_USER_SYSCALL_GATE :: u64 where "AEGIS_USER_SYSCALL_GATE = 0x7fffff0000"
definition REGION_READ :: u32 where "REGION_READ = 1"
definition REGION_WRITE :: u32 where "REGION_WRITE = 2"
definition REGION_EXEC :: u32 where "REGION_EXEC = 4"
definition REGION_USER :: u32 where "REGION_USER = 8"
definition REGION_GUARD :: u32 where "REGION_GUARD = 16"
definition REGION_KERNEL :: u32 where "REGION_KERNEL = 32"
definition REGION_MAPPED :: u32 where "REGION_MAPPED = 64"
definition FEATURE_REQUIRED :: u32 where "FEATURE_REQUIRED = 1"
definition FEATURE_KERNEL_BACKED :: u32 where "FEATURE_KERNEL_BACKED = 2"
definition FEATURE_PROCESS :: u32 where "FEATURE_PROCESS = 4"
definition FEATURE_CONTROL_PLANE :: u32 where "FEATURE_CONTROL_PLANE = 8"

lemmas user_layout_consts =
  AEGIS_USER_STACK_BOOTSTRAP_SIZE_def AEGIS_USER_PROCESS_STRIDE_def AEGIS_USER_STACK_STRIDE_def
  AEGIS_USER_TEXT_BASE_def AEGIS_USER_TEXT_SIZE_def AEGIS_USER_HEAP_BASE_def AEGIS_USER_HEAP_SIZE_def
  AEGIS_USER_IPC_BASE_def AEGIS_USER_IPC_SIZE_def AEGIS_USER_STACK_TOP_def AEGIS_USER_STACK_SIZE_def
  AEGIS_USER_SYSCALL_GATE_def
lemmas region_flag_consts =
  REGION_READ_def REGION_WRITE_def REGION_EXEC_def REGION_USER_def REGION_GUARD_def REGION_KERNEL_def
  REGION_MAPPED_def
lemmas feature_flags =
  FEATURE_REQUIRED_def FEATURE_KERNEL_BACKED_def FEATURE_PROCESS_def FEATURE_CONTROL_PLANE_def
lemmas user_maxima =
  AEGIS_USERLAND_FEATURE_MAX_def AEGIS_USERLAND_NAME_MAX_def AEGIS_USERLAND_PATH_MAX_def
  AEGIS_USERLAND_PROCESS_MAX_def AEGIS_USER_ARGV_MAX_def AEGIS_USER_ENVP_MAX_def
  AEGIS_USER_ARG_STRING_MAX_def

section \<open>Data\<close>

datatype aegis_userland_state = USERLAND_EMPTY | USERLAND_REGISTERED | USERLAND_BOUND | USERLAND_HANDOFF_READY
  | USERLAND_NATIVE_RUNNING | USERLAND_FAILED

datatype aegis_user_process_state = PROCESS_EMPTY | DESCRIPTOR_READY | LAYOUT_READY | SYSCALL_ABI_READY | ELF_LOADED
  | EL0_PROBE_READY | EL0_ENTERED | EL0_SVC_TRAPPED | FIRST_LAUNCH_READY | FIRST_RUNNING | FIRST_SYSCALL_TRAPPED
  | FIRST_SYSCALL_RETURN_READY | FIRST_CONTINUED_AFTER_SYSCALL | ARGV_ENVP_READY | SECONDARY_DESCRIPTOR_READY
  | MULTIPROCESS_LAUNCH_READY | NATIVE_SCHEDULED | NATIVE_RUNNING | FIRST_EXITED

record aegis_user_region =
  region_base :: u64
  region_size :: u64
  region_flags :: u32

record aegis_user_process_descriptor =
  up_id :: u32
  up_feature_id :: u32
  up_service_id :: u32
  up_name :: string
  up_image_path :: string
  up_state :: aegis_user_process_state
  up_entry :: u64
  up_text :: aegis_user_region
  up_heap :: aegis_user_region
  up_ipc :: aegis_user_region
  up_stack :: aegis_user_region
  up_stack_guard :: aegis_user_region
  up_syscall_gate :: u64
  up_initial_sp :: u64
  up_argc :: u32
  up_envc :: u32
  up_argv_user :: u64
  up_envp_user :: u64
  up_auxv_user :: u64
  up_bootstrap_sp :: u64
  up_bootstrap_stack_bytes :: u64
  up_argv :: "string list"
  up_envp :: "string list"

record aegis_userland_feature =
  uf_id :: u32
  uf_name :: string
  uf_service_name :: string
  uf_image_path :: string
  uf_state :: aegis_userland_state
  uf_flags :: u32
  uf_service_id :: u32
  uf_live_pid :: u32

record aegis_userland_handoff =
  initialised :: bool
  feature_catalogue_ready :: bool
  services_bound :: bool
  syscall_surface_ready :: bool
  handoff_ready :: bool
  fake_process_descriptor_ready :: bool
  user_stack_layout_ready :: bool
  syscall_abi_kernel_safe_ready :: bool
  pre_el0_ready :: bool
  el0_transition_prepared :: bool
  el0_entry_selected :: bool
  el0_stack_selected :: bool
  el0_svc_trap_seen :: bool
  controlled_el0_transition_seen :: bool
  first_user_process_descriptor_ready :: bool
  first_user_process_launch_ready :: bool
  first_user_process_seen :: bool
  first_user_process_syscall_seen :: bool
  first_user_process_syscall_return_ready :: bool
  first_user_process_continued_after_syscall :: bool
  first_user_process_exit_requested :: bool
  first_user_process_exited :: bool
  elf_loader_ready :: bool
  elf_aegis_init_validated :: bool
  first_user_process_loaded_from_elf :: bool
  elf_pt_load_segments_copied :: bool
  user_kernel_page_permissions_ready :: bool
  user_stack_argv_envp_ready :: bool
  multiple_process_descriptors_ready :: bool
  real_multiprocess_launch_ready :: bool
  syscall_expansion_ready :: bool
  post_exit_scheduler_handoff :: bool
  scheduler_handoff_no_runnable_user :: bool
  el0_probe_entry :: u64
  el0_probe_sp :: u64
  el0_probe_syscall_nr :: u64
  el0_probe_arg0 :: u64
  el0_probe_elr :: u64
  el0_probe_spsr :: u64
  first_user_process_entry :: u64
  first_user_process_sp :: u64
  first_user_process_syscall_nr :: u64
  first_user_process_arg0 :: u64
  first_user_process_elr :: u64
  first_user_process_spsr :: u64
  first_user_process_syscall_return_value :: int
  first_user_process_continuation_syscall_nr :: u64
  first_user_process_continuation_arg0 :: u64
  first_user_process_continuation_elr :: u64
  first_user_process_continuation_spsr :: u64
  first_user_process_exit_syscall_nr :: u64
  first_user_process_exit_code :: u64
  first_user_process_exit_elr :: u64
  first_user_process_exit_spsr :: u64
  elf_entry :: u64
  elf_text_base :: u64
  elf_text_size :: u64
  elf_text_file_bytes_copied :: u64
  elf_text_zero_bytes :: u64
  elf_text_region_flags :: u32
  bootstrap_argc :: u32
  bootstrap_envc :: u32
  secondary_process_descriptor_count :: u32
  launchable_process_descriptor_count :: u32
  scheduled_user_process_count :: u32
  syscall_expanded_count :: u32
  spawn_request_count :: u32
  last_spawn_pid :: u32
  bootstrap_stack_pointer :: u64
  bootstrap_argv_user :: u64
  bootstrap_envp_user :: u64
  bootstrap_auxv_user :: u64
  first_user_process_pid :: u32
  feature_count :: u32
  ready_count :: u32
  bound_count :: u32
  process_descriptor_count :: u32

section \<open>Zeroed values\<close>

definition zero_region :: aegis_user_region where
  "zero_region = \<lparr>region_base = 0, region_size = 0, region_flags = 0\<rparr>"

definition zero_process :: aegis_user_process_descriptor where
  "zero_process = \<lparr>up_id = 0, up_feature_id = 0, up_service_id = 0, up_name = [], up_image_path = [],
     up_state = PROCESS_EMPTY, up_entry = 0, up_text = zero_region, up_heap = zero_region, up_ipc = zero_region,
     up_stack = zero_region, up_stack_guard = zero_region, up_syscall_gate = 0, up_initial_sp = 0, up_argc = 0,
     up_envc = 0, up_argv_user = 0, up_envp_user = 0, up_auxv_user = 0, up_bootstrap_sp = 0,
     up_bootstrap_stack_bytes = 0, up_argv = replicate AEGIS_USER_ARGV_MAX [], up_envp = replicate AEGIS_USER_ENVP_MAX []\<rparr>"

definition zero_feature :: aegis_userland_feature where
  "zero_feature = \<lparr>uf_id = 0, uf_name = [], uf_service_name = [], uf_image_path = [], uf_state = USERLAND_EMPTY,
     uf_flags = 0, uf_service_id = 0, uf_live_pid = 0\<rparr>"

definition zero_handoff :: aegis_userland_handoff where
  "zero_handoff = \<lparr>initialised = False, feature_catalogue_ready = False, services_bound = False, syscall_surface_ready
     = False, handoff_ready = False, fake_process_descriptor_ready = False, user_stack_layout_ready =
     False, syscall_abi_kernel_safe_ready = False, pre_el0_ready = False, el0_transition_prepared =
     False, el0_entry_selected = False, el0_stack_selected = False, el0_svc_trap_seen = False,
     controlled_el0_transition_seen = False, first_user_process_descriptor_ready = False,
     first_user_process_launch_ready = False, first_user_process_seen = False,
     first_user_process_syscall_seen = False, first_user_process_syscall_return_ready = False,
     first_user_process_continued_after_syscall = False, first_user_process_exit_requested = False,
     first_user_process_exited = False, elf_loader_ready = False, elf_aegis_init_validated = False,
     first_user_process_loaded_from_elf = False, elf_pt_load_segments_copied = False,
     user_kernel_page_permissions_ready = False, user_stack_argv_envp_ready = False,
     multiple_process_descriptors_ready = False, real_multiprocess_launch_ready = False,
     syscall_expansion_ready = False, post_exit_scheduler_handoff = False,
     scheduler_handoff_no_runnable_user = False, el0_probe_entry = 0, el0_probe_sp = 0,
     el0_probe_syscall_nr = 0, el0_probe_arg0 = 0, el0_probe_elr = 0, el0_probe_spsr = 0,
     first_user_process_entry = 0, first_user_process_sp = 0, first_user_process_syscall_nr = 0,
     first_user_process_arg0 = 0, first_user_process_elr = 0, first_user_process_spsr = 0,
     first_user_process_syscall_return_value = 0, first_user_process_continuation_syscall_nr = 0,
     first_user_process_continuation_arg0 = 0, first_user_process_continuation_elr = 0,
     first_user_process_continuation_spsr = 0, first_user_process_exit_syscall_nr = 0,
     first_user_process_exit_code = 0, first_user_process_exit_elr = 0, first_user_process_exit_spsr = 0,
     elf_entry = 0, elf_text_base = 0, elf_text_size = 0, elf_text_file_bytes_copied = 0,
     elf_text_zero_bytes = 0, elf_text_region_flags = 0, bootstrap_argc = 0, bootstrap_envc = 0,
     secondary_process_descriptor_count = 0, launchable_process_descriptor_count = 0,
     scheduled_user_process_count = 0, syscall_expanded_count = 0, spawn_request_count = 0,
     last_spawn_pid = 0, bootstrap_stack_pointer = 0, bootstrap_argv_user = 0, bootstrap_envp_user = 0,
     bootstrap_auxv_user = 0, first_user_process_pid = 0, feature_count = 0, ready_count = 0, bound_count
     = 0, process_descriptor_count = 0\<rparr>"

text \<open>The file-level variables of userland.c.\<close>

record userland =
  features :: "aegis_userland_feature list"
  user_processes :: "aegis_user_process_descriptor list"
  handoff :: aegis_userland_handoff
  next_feature_id :: u32
  next_process_id :: u32

end
