(* ===== verification/Userland.thy ===== *)
theory Userland
  imports Userland_State Service_Manager
begin

text \<open>
  kernel/core/userland.c: the early userland handoff.  Every operation takes the file-level
  state \<open>userland\<close> and returns the result code with the new state.  Pointers to strings that
  may be NULL are options.  The dispatcher of kernel/core/syscall.c, which some steps call
  with a number and a first argument, and the mount test of fs/vfs.c are arguments of the
  operations that use them.
\<close>

section \<open>Helpers\<close>

definition copy_name :: "nat \<Rightarrow> string option \<Rightarrow> string" where
  "copy_name dst_len src = copy_bounded (dst_len - 1) (case src of None \<Rightarrow> ''unnamed'' | Some s \<Rightarrow> s)"

definition region_aligned :: "aegis_user_region \<Rightarrow> bool" where
  "region_aligned r \<longleftrightarrow> region_size r \<noteq> 0 \<and> region_base r AND 4095 = 0 \<and> region_size r AND 4095 = 0"

definition region_end :: "u64 \<Rightarrow> u64 \<Rightarrow> u64 option" where
  "region_end base sz = (let e = base + sz in if e \<le> base then None else Some e)"

definition regions_do_not_overlap :: "aegis_user_region \<Rightarrow> aegis_user_region \<Rightarrow> bool" where
  "regions_do_not_overlap a b =
     (case region_end (region_base a) (region_size a) of None \<Rightarrow> False
      | Some a_end \<Rightarrow> (case region_end (region_base b) (region_size b) of None \<Rightarrow> False
          | Some b_end \<Rightarrow> a_end \<le> region_base b \<or> b_end \<le> region_base a))"

definition per_process_text_base :: "u32 \<Rightarrow> u64" where
  "per_process_text_base index = AEGIS_USER_TEXT_BASE + ucast index * AEGIS_USER_PROCESS_STRIDE"

definition per_process_heap_base :: "u32 \<Rightarrow> u64" where
  "per_process_heap_base index = AEGIS_USER_HEAP_BASE + ucast index * AEGIS_USER_PROCESS_STRIDE"

definition per_process_ipc_base :: "u32 \<Rightarrow> u64" where
  "per_process_ipc_base index = AEGIS_USER_IPC_BASE + ucast index * (AEGIS_USER_IPC_SIZE * 2)"

definition per_process_stack_top :: "u32 \<Rightarrow> u64" where
  "per_process_stack_top index = AEGIS_USER_STACK_TOP - ucast index * AEGIS_USER_STACK_STRIDE"

text \<open>The layout that \<open>assign_process_layout\<close> writes before it checks it.\<close>

definition layout_of :: "u32 \<Rightarrow> aegis_user_process_descriptor \<Rightarrow> aegis_user_process_descriptor" where
  "layout_of index p =
     (let stack_top = per_process_stack_top index; stack_base = stack_top - AEGIS_USER_STACK_SIZE
      in p\<lparr>up_text := \<lparr>region_base = per_process_text_base index, region_size = AEGIS_USER_TEXT_SIZE,
                       region_flags = REGION_READ OR REGION_EXEC OR REGION_USER\<rparr>,
           up_heap := \<lparr>region_base = per_process_heap_base index, region_size = AEGIS_USER_HEAP_SIZE,
                       region_flags = REGION_READ OR REGION_WRITE OR REGION_USER\<rparr>,
           up_ipc := \<lparr>region_base = per_process_ipc_base index, region_size = AEGIS_USER_IPC_SIZE,
                      region_flags = REGION_READ OR REGION_WRITE OR REGION_USER\<rparr>,
           up_stack := \<lparr>region_base = stack_base, region_size = AEGIS_USER_STACK_SIZE,
                        region_flags = REGION_READ OR REGION_WRITE OR REGION_USER\<rparr>,
           up_stack_guard := \<lparr>region_base = stack_base - 4096, region_size = 4096,
                              region_flags = REGION_GUARD OR REGION_USER\<rparr>,
           up_initial_sp := stack_top - 16\<rparr>)"

definition assign_process_layout :: "u32 \<Rightarrow> aegis_user_process_descriptor \<Rightarrow> int \<times> aegis_user_process_descriptor" where
  "assign_process_layout index p =
     (let p = layout_of index p
      in (first_fail
           [(up_initial_sp p AND 0xF \<noteq> 0, AEGIS_EINVAL),
            (\<not> region_aligned (up_text p) \<or> \<not> region_aligned (up_heap p) \<or> \<not> region_aligned (up_ipc p) \<or>
             \<not> region_aligned (up_stack p) \<or> \<not> region_aligned (up_stack_guard p), AEGIS_EINVAL),
            (region_base (up_stack_guard p) + region_size (up_stack_guard p) \<noteq> region_base (up_stack p), AEGIS_EINVAL),
            (\<not> regions_do_not_overlap (up_text p) (up_heap p), AEGIS_EINVAL),
            (\<not> regions_do_not_overlap (up_text p) (up_ipc p), AEGIS_EINVAL),
            (\<not> regions_do_not_overlap (up_text p) (up_stack p), AEGIS_EINVAL),
            (\<not> regions_do_not_overlap (up_heap p) (up_ipc p), AEGIS_EINVAL),
            (\<not> regions_do_not_overlap (up_heap p) (up_stack p), AEGIS_EINVAL),
            (\<not> regions_do_not_overlap (up_ipc p) (up_stack p), AEGIS_EINVAL)], p))"

fun userland_state_name :: "aegis_userland_state \<Rightarrow> string" where
  "userland_state_name USERLAND_EMPTY = ''empty''"
| "userland_state_name USERLAND_REGISTERED = ''registered''"
| "userland_state_name USERLAND_BOUND = ''bound''"
| "userland_state_name USERLAND_HANDOFF_READY = ''handoff-ready''"
| "userland_state_name USERLAND_NATIVE_RUNNING = ''native-running''"
| "userland_state_name USERLAND_FAILED = ''failed''"

text \<open>\<open>MULTIPROCESS_LAUNCH_READY\<close> has no case of its own in the source and falls to the default.\<close>

fun user_process_state_name :: "aegis_user_process_state \<Rightarrow> string" where
  "user_process_state_name PROCESS_EMPTY = ''empty''"
| "user_process_state_name DESCRIPTOR_READY = ''descriptor-ready''"
| "user_process_state_name LAYOUT_READY = ''layout-ready''"
| "user_process_state_name SYSCALL_ABI_READY = ''syscall-abi-ready''"
| "user_process_state_name ELF_LOADED = ''elf-loaded''"
| "user_process_state_name EL0_PROBE_READY = ''el0-probe-ready''"
| "user_process_state_name EL0_ENTERED = ''el0-entered''"
| "user_process_state_name EL0_SVC_TRAPPED = ''el0-svc-trapped''"
| "user_process_state_name FIRST_LAUNCH_READY = ''first-launch-ready''"
| "user_process_state_name FIRST_RUNNING = ''first-running''"
| "user_process_state_name FIRST_SYSCALL_TRAPPED = ''first-syscall-trapped''"
| "user_process_state_name FIRST_SYSCALL_RETURN_READY = ''first-syscall-return-ready''"
| "user_process_state_name FIRST_CONTINUED_AFTER_SYSCALL = ''first-continued-after-syscall''"
| "user_process_state_name ARGV_ENVP_READY = ''argv-envp-ready''"
| "user_process_state_name SECONDARY_DESCRIPTOR_READY = ''secondary-descriptor-ready''"
| "user_process_state_name NATIVE_SCHEDULED = ''native-scheduled''"
| "user_process_state_name NATIVE_RUNNING = ''native-running''"
| "user_process_state_name FIRST_EXITED = ''first-exited''"
| "user_process_state_name MULTIPROCESS_LAUNCH_READY = ''unknown''"

section \<open>Features\<close>

definition userland_handoff_init :: userland where
  "userland_handoff_init = \<lparr>features = replicate AEGIS_USERLAND_FEATURE_MAX zero_feature,
     user_processes = replicate AEGIS_USERLAND_PROCESS_MAX zero_process,
     handoff = zero_handoff\<lparr>initialised := True\<rparr>, next_feature_id = 1, next_process_id = 1\<rparr>"

definition update_feature :: "nat \<Rightarrow> (aegis_userland_feature \<Rightarrow> aegis_userland_feature) \<Rightarrow> userland \<Rightarrow> userland" where
  "update_feature i f u = u\<lparr>features := (features u)[i := f (features u ! i)]\<rparr>"

definition update_process ::
  "nat \<Rightarrow> (aegis_user_process_descriptor \<Rightarrow> aegis_user_process_descriptor) \<Rightarrow> userland \<Rightarrow> userland" where
  "update_process i f u = u\<lparr>user_processes := (user_processes u)[i := f (user_processes u ! i)]\<rparr>"

definition update_handoff :: "(aegis_userland_handoff \<Rightarrow> aegis_userland_handoff) \<Rightarrow> userland \<Rightarrow> userland" where
  "update_handoff f u = u\<lparr>handoff := f (handoff u)\<rparr>"

definition userland_get_feature :: "u32 \<Rightarrow> userland \<Rightarrow> aegis_userland_feature option" where
  "userland_get_feature i u =
     (if i = 0 \<or> feature_count (handoff u) < i then None else Some (features u ! unat (i - 1)))"

definition find_feature_index :: "(aegis_userland_feature \<Rightarrow> string) \<Rightarrow> string option \<Rightarrow> userland \<Rightarrow> nat option" where
  "find_feature_index key name u = (case name of None \<Rightarrow> None
     | Some n \<Rightarrow> scan (\<lambda>f. uf_state f \<noteq> USERLAND_EMPTY \<and> str_eq (key f) n) (take (unat (feature_count (handoff u))) (features u)))"

definition userland_find_feature :: "string option \<Rightarrow> userland \<Rightarrow> aegis_userland_feature option" where
  "userland_find_feature name u = map_option ((!) (features u)) (find_feature_index uf_name name u)"

definition userland_find_feature_by_path :: "string option \<Rightarrow> userland \<Rightarrow> aegis_userland_feature option" where
  "userland_find_feature_by_path path u = map_option ((!) (features u)) (find_feature_index uf_image_path path u)"

definition userland_find_feature_mut :: "string option \<Rightarrow> userland \<Rightarrow> nat option" where
  "userland_find_feature_mut name u = find_feature_index uf_name name u"

definition native_text_flags :: u32 where
  "native_text_flags = REGION_READ OR REGION_EXEC OR REGION_USER OR REGION_MAPPED"

definition native_stack_flags :: u32 where
  "native_stack_flags = REGION_READ OR REGION_WRITE OR REGION_USER OR REGION_MAPPED"

definition userland_note_native_process_spawn ::
  "string option \<Rightarrow> string option \<Rightarrow> u32 \<Rightarrow> u64 \<Rightarrow> u64 \<Rightarrow> u64 \<Rightarrow> u64 \<Rightarrow> u64 \<Rightarrow> userland \<Rightarrow> int \<times> userland" where
  "userland_note_native_process_spawn name path pid entry text_base text_size stack_base stack_size u =
     (if name = None \<or> path = None \<or> pid = 0 \<or> entry = 0 \<or> text_base = 0 \<or> text_size = 0 \<or> stack_base = 0 \<or> stack_size = 0
      then (AEGIS_EINVAL, u)
      else case userland_find_feature_mut name u of
        None \<Rightarrow> (AEGIS_ENOENT, u)
      | Some k \<Rightarrow>
          let feature = features u ! k in
          if \<not> str_eq (uf_image_path feature) (the path) then (AEGIS_ENOENT, u)
          else if uf_live_pid feature \<noteq> 0 \<and> uf_live_pid feature \<noteq> pid then (AEGIS_EBUSY, u)
          else
            let u = update_feature k (\<lambda>f. f\<lparr>uf_live_pid := pid\<rparr>) u; feature = features u ! k;
                n = unat (process_descriptor_count (handoff u));
                place = (\<lambda>p. p\<lparr>up_id := pid, up_entry := entry,
                   up_text := \<lparr>region_base = text_base, region_size = text_size, region_flags = native_text_flags\<rparr>,
                   up_stack := \<lparr>region_base = stack_base, region_size = stack_size, region_flags = native_stack_flags\<rparr>,
                   up_initial_sp := (stack_base + stack_size) AND NOT 0xF, up_state := NATIVE_SCHEDULED\<rparr>)
            in case scan (\<lambda>p. up_id p = pid \<or> str_eq (up_name p) (the name)) (take n (user_processes u)) of
                 Some i \<Rightarrow> (AEGIS_OK, update_process i place u)
               | None \<Rightarrow>
                   if AEGIS_USERLAND_PROCESS_MAX \<le> n then (AEGIS_ENOMEM, u)
                   else let u = update_handoff (\<lambda>h. h\<lparr>process_descriptor_count := process_descriptor_count h + 1\<rparr>) u
                        in (AEGIS_OK, update_process n (\<lambda>_. place (zero_process\<lparr>up_feature_id := uf_id feature,
                              up_service_id := uf_service_id feature, up_name := copy_name AEGIS_USERLAND_NAME_MAX name,
                              up_image_path := copy_name AEGIS_USERLAND_PATH_MAX path\<rparr>)) u))"

text \<open>Setting the state of the descriptor of a live process, if there is one.\<close>

definition set_process_state :: "u32 \<Rightarrow> string option \<Rightarrow> aegis_user_process_state \<Rightarrow> userland \<Rightarrow> userland" where
  "set_process_state pid name st u =
     (case scan (\<lambda>p. up_id p = pid \<and> Some (up_name p) = name) (take (unat (process_descriptor_count (handoff u))) (user_processes u)) of
        None \<Rightarrow> u
      | Some i \<Rightarrow> update_process i (\<lambda>p. p\<lparr>up_state := st\<rparr>) u)"

definition userland_mark_feature_native_running :: "string option \<Rightarrow> u32 \<Rightarrow> userland \<Rightarrow> int \<times> userland" where
  "userland_mark_feature_native_running name pid u =
     (case userland_find_feature_mut name u of
        None \<Rightarrow> (AEGIS_ENOENT, u)
      | Some k \<Rightarrow>
          if pid = 0 then (AEGIS_ENOENT, u)
          else if uf_state (features u ! k) \<noteq> USERLAND_HANDOFF_READY \<and> uf_state (features u ! k) \<noteq> USERLAND_NATIVE_RUNNING
          then (AEGIS_EBUSY, u)
          else (AEGIS_OK, set_process_state pid name NATIVE_RUNNING
                  (update_feature k (\<lambda>f. f\<lparr>uf_state := USERLAND_NATIVE_RUNNING, uf_live_pid := pid\<rparr>) u)))"

definition userland_mark_feature_native_exited :: "string option \<Rightarrow> u32 \<Rightarrow> int \<Rightarrow> userland \<Rightarrow> int \<times> userland" where
  "userland_mark_feature_native_exited name pid exit_code u =
     (case userland_find_feature_mut name u of
        None \<Rightarrow> (AEGIS_ENOENT, u)
      | Some k \<Rightarrow>
          if pid = 0 then (AEGIS_ENOENT, u)
          else if uf_live_pid (features u ! k) \<noteq> pid then (AEGIS_EPERM, u)
          else (AEGIS_OK, set_process_state pid name FIRST_EXITED
                  (update_feature k (\<lambda>f. f\<lparr>uf_live_pid := 0, uf_state := USERLAND_HANDOFF_READY\<rparr>) u)))"

definition userland_first_process_descriptor :: "userland \<Rightarrow> aegis_user_process_descriptor option" where
  "userland_first_process_descriptor u =
     (if process_descriptor_count (handoff u) = 0 then None else Some (user_processes u ! 0))"

definition userland_process_descriptor :: "u32 \<Rightarrow> userland \<Rightarrow> aegis_user_process_descriptor option" where
  "userland_process_descriptor index u =
     (if process_descriptor_count (handoff u) \<le> index then None else Some (user_processes u ! unat index))"

definition register_feature :: "string option \<Rightarrow> string option \<Rightarrow> string option \<Rightarrow> u32 \<Rightarrow> userland \<Rightarrow> int \<times> userland" where
  "register_feature name service_name image_path flags u =
     (if \<not> initialised (handoff u) then (AEGIS_EINVAL, u)
      else if name = None \<or> service_name = None \<or> image_path = None then (AEGIS_EINVAL, u)
      else if length (the name) = 0 \<or> length (the service_name) = 0 \<or> length (the image_path) = 0 then (AEGIS_EINVAL, u)
      else if AEGIS_USERLAND_FEATURE_MAX \<le> unat (feature_count (handoff u)) then (AEGIS_ENOMEM, u)
      else if userland_find_feature name u \<noteq> None then (AEGIS_EBUSY, u)
      else let f = zero_feature\<lparr>uf_id := next_feature_id u, uf_state := USERLAND_REGISTERED, uf_flags := flags,
                     uf_name := copy_name AEGIS_USERLAND_NAME_MAX name,
                     uf_service_name := copy_name AEGIS_USERLAND_NAME_MAX service_name,
                     uf_image_path := copy_name AEGIS_USERLAND_PATH_MAX image_path\<rparr>
           in (AEGIS_OK, update_handoff (\<lambda>h. h\<lparr>feature_count := feature_count h + 1\<rparr>)
                (update_feature (unat (feature_count (handoff u))) (\<lambda>_. f) (u\<lparr>next_feature_id := next_feature_id u + 1\<rparr>))))"

text \<open>The loop of \<open>bind_registered_features\<close> from feature \<open>i\<close>, with \<open>k\<close> features to go.\<close>

fun bind_from :: "service_manager \<Rightarrow> nat \<Rightarrow> nat \<Rightarrow> userland \<Rightarrow> int \<times> userland" where
  "bind_from sm i 0 u = (AEGIS_OK, u)"
| "bind_from sm i (Suc k) u =
     (let f = features u ! i in
      if uf_state f \<noteq> USERLAND_REGISTERED then (AEGIS_EINVAL, u)
      else case service_manager_find (Some (uf_service_name f)) sm of
        None \<Rightarrow> (AEGIS_ENOENT, update_feature i (\<lambda>f. f\<lparr>uf_state := USERLAND_FAILED\<rparr>) u)
      | Some svc \<Rightarrow>
          if svc_state svc \<noteq> SERVICE_PREPARED
          then (AEGIS_ENOENT, update_feature i (\<lambda>f. f\<lparr>uf_state := USERLAND_FAILED\<rparr>) u)
          else bind_from sm (Suc i) k (update_handoff (\<lambda>h. h\<lparr>bound_count := bound_count h + 1\<rparr>)
                 (update_feature i (\<lambda>f. f\<lparr>uf_service_id := of_nat (svc_id svc), uf_state := USERLAND_BOUND\<rparr>) u)))"

definition bind_registered_features :: "service_manager \<Rightarrow> userland \<Rightarrow> int \<times> userland" where
  "bind_registered_features sm u =
     (if \<not> service_manager_is_prepared sm then (AEGIS_EINVAL, u)
      else let (rc, u) = bind_from sm 0 (unat (feature_count (handoff u))) (update_handoff (\<lambda>h. h\<lparr>bound_count := 0\<rparr>) u)
           in if rc \<noteq> AEGIS_OK then (rc, u)
              else let u = update_handoff (\<lambda>h. h\<lparr>services_bound := (bound_count h = feature_count h)\<rparr>) u
                   in (if services_bound (handoff u) then AEGIS_OK else AEGIS_EINVAL, u))"

fun register_features :: "(string \<times> string \<times> string \<times> u32) list \<Rightarrow> userland \<Rightarrow> int \<times> userland" where
  "register_features [] u = (AEGIS_OK, u)"
| "register_features ((name, svc, path, flags) # rest) u =
     (let (rc, u) = register_feature (Some name) (Some svc) (Some path) flags u
      in if rc \<noteq> AEGIS_OK then (rc, u) else register_features rest u)"

definition builtin_features :: "(string \<times> string \<times> string \<times> u32) list" where
  "builtin_features =
     (let RPC = FEATURE_REQUIRED OR FEATURE_PROCESS OR FEATURE_CONTROL_PLANE;
          RPK = FEATURE_REQUIRED OR FEATURE_PROCESS OR FEATURE_KERNEL_BACKED;
          RP = FEATURE_REQUIRED OR FEATURE_PROCESS; PC = FEATURE_PROCESS OR FEATURE_CONTROL_PLANE in
      [(''aegis-init'', ''aegisd'', ''/sbin/aegis-init'', RPC),
       (''service-manager'', ''aegisd'', ''/sbin/service-manager'', RPC),
       (''aegisd'', ''aegisd'', ''/sbin/aegisd'', RPC),
       (''securityd'', ''security'', ''/sbin/securityd'', RPC),
       (''ipcd'', ''ipc'', ''/sbin/ipcd'', RPK),
       (''capability-broker'', ''capability'', ''/sbin/capability-broker'', RPK),
       (''netd'', ''network'', ''/sbin/netd'', RP),
       (''firewalld'', ''firewall'', ''/sbin/firewalld'', RP),
       (''routerd'', ''router'', ''/sbin/routerd'', RPC),
       (''devmgr'', ''devfs'', ''/sbin/devmgr'', RPK),
       (''procd'', ''procfs'', ''/sbin/procd'', RPK),
       (''rustmyadmin'', ''aegisd'', ''/opt/aegisos/rustmyadmin'', PC),
       (''dashboard'', ''aegisd'', ''/sbin/dashboard'', PC),
       (''phoenix-feature-bridge'', ''router'', ''/sbin/phoenix-feature-bridge'', PC)])"

definition userland_connect_builtin_features :: "service_manager \<Rightarrow> userland \<Rightarrow> int \<times> userland" where
  "userland_connect_builtin_features sm u =
     (if \<not> initialised (handoff u) then (AEGIS_EINVAL, u)
      else let (rc, u) = register_features builtin_features u
           in if rc \<noteq> AEGIS_OK then (rc, u)
              else bind_registered_features sm (update_handoff (\<lambda>h. h\<lparr>feature_catalogue_ready := True\<rparr>) u))"

section \<open>The handoff and the first process\<close>

text \<open>
  \<open>sys nr a0\<close> is the result of \<open>syscall_dispatch(nr, a0, 0, 0, 0, 0, 0)\<close>; \<open>mounted path\<close> that
  of \<open>vfs_is_mounted(path)\<close>.
\<close>

abbreviation SYS_WRITE :: u64 where "SYS_WRITE \<equiv> 1"
abbreviation SYS_OPEN :: u64 where "SYS_OPEN \<equiv> 2"
abbreviation SYS_GETPID :: u64 where "SYS_GETPID \<equiv> 5"
abbreviation SYS_MMAP :: u64 where "SYS_MMAP \<equiv> 6"
abbreviation SYS_WAITPID :: u64 where "SYS_WAITPID \<equiv> 14"
abbreviation SYS_GETPPID :: u64 where "SYS_GETPPID \<equiv> 15"
abbreviation SYS_GETTID :: u64 where "SYS_GETTID \<equiv> 16"
definition NR_SYSCALLS :: u64 where "NR_SYSCALLS = 33"

definition syscall_surface_selftest :: "(u64 \<Rightarrow> u64 \<Rightarrow> int) \<Rightarrow> int" where
  "syscall_surface_selftest sys =
     first_fail [(sys SYS_GETPID 0 < 0, AEGIS_EINVAL), (sys (NR_SYSCALLS + 16) 0 \<noteq> AEGIS_EINVAL, AEGIS_EINVAL)]"

fun ready_from :: "nat \<Rightarrow> nat \<Rightarrow> userland \<Rightarrow> int \<times> userland" where
  "ready_from i 0 u = (AEGIS_OK, u)"
| "ready_from i (Suc k) u =
     (if uf_state (features u ! i) \<noteq> USERLAND_BOUND then (AEGIS_EINVAL, u)
      else ready_from (Suc i) k (update_handoff (\<lambda>h. h\<lparr>ready_count := ready_count h + 1\<rparr>)
             (update_feature i (\<lambda>f. f\<lparr>uf_state := USERLAND_HANDOFF_READY\<rparr>) u)))"

definition userland_prepare_handoff :: "(string \<Rightarrow> bool) \<Rightarrow> (u64 \<Rightarrow> u64 \<Rightarrow> int) \<Rightarrow> userland \<Rightarrow> int \<times> userland" where
  "userland_prepare_handoff mounted sys u =
     (let h = handoff u in
      if \<not> initialised h \<or> \<not> feature_catalogue_ready h \<or> \<not> services_bound h then (AEGIS_EINVAL, u)
      else if \<not> mounted ''/'' \<or> \<not> mounted ''/dev'' \<or> \<not> mounted ''/proc'' then (AEGIS_EINVAL, u)
      else if syscall_surface_selftest sys \<noteq> AEGIS_OK then (AEGIS_EINVAL, u)
      else let (rc, u) = ready_from 0 (unat (feature_count h))
                 (update_handoff (\<lambda>h. h\<lparr>syscall_surface_ready := True, ready_count := 0\<rparr>) u)
           in if rc \<noteq> AEGIS_OK then (rc, u)
              else let u = update_handoff (\<lambda>h. h\<lparr>handoff_ready := (ready_count h = feature_count h)\<rparr>) u
                   in (if handoff_ready (handoff u) then AEGIS_OK else AEGIS_EINVAL, u))"

definition create_fake_first_process_descriptor :: "userland \<Rightarrow> int \<times> userland" where
  "create_fake_first_process_descriptor u =
     (if \<not> handoff_ready (handoff u) then (AEGIS_EINVAL, u)
      else if process_descriptor_count (handoff u) \<noteq> 0 then (AEGIS_EBUSY, u)
      else case userland_find_feature (Some ''aegis-init'') u of
        None \<Rightarrow> (AEGIS_ENOENT, u)
      | Some init \<Rightarrow>
          if uf_state init \<noteq> USERLAND_HANDOFF_READY then (AEGIS_ENOENT, u)
          else if uf_flags init AND FEATURE_PROCESS = 0 then (AEGIS_EINVAL, u)
          else let p = zero_process\<lparr>up_id := next_process_id u, up_feature_id := uf_id init,
                     up_service_id := uf_service_id init, up_state := DESCRIPTOR_READY, up_entry := AEGIS_USER_TEXT_BASE,
                     up_syscall_gate := AEGIS_USER_SYSCALL_GATE,
                     up_name := copy_name AEGIS_USERLAND_NAME_MAX (Some (uf_name init)),
                     up_image_path := copy_name AEGIS_USERLAND_PATH_MAX (Some (uf_image_path init))\<rparr>
               in (AEGIS_OK, update_handoff (\<lambda>h. h\<lparr>process_descriptor_count := 1, fake_process_descriptor_ready := True\<rparr>)
                    (update_process 0 (\<lambda>_. p) (u\<lparr>next_process_id := next_process_id u + 1\<rparr>))))"

text \<open>A failed \<open>assign_process_layout\<close> has already written the layout into the descriptor.\<close>

definition prove_user_stack_and_address_layout :: "userland \<Rightarrow> int \<times> userland" where
  "prove_user_stack_and_address_layout u =
     (if \<not> fake_process_descriptor_ready (handoff u) \<or> up_state (user_processes u ! 0) \<noteq> DESCRIPTOR_READY then (AEGIS_EINVAL, u)
      else let (rc, p) = assign_process_layout 0 (user_processes u ! 0); u = update_process 0 (\<lambda>_. p) u
           in if rc \<noteq> AEGIS_OK then (AEGIS_EINVAL, u)
              else if up_entry p < region_base (up_text p) \<or> region_base (up_text p) + region_size (up_text p) \<le> up_entry p
              then (AEGIS_EINVAL, u)
              else (AEGIS_OK, update_handoff (\<lambda>h. h\<lparr>user_stack_layout_ready := True\<rparr>)
                     (update_process 0 (\<lambda>p. p\<lparr>up_state := LAYOUT_READY\<rparr>) u)))"

definition prove_syscall_abi_kernel_safe :: "(u64 \<Rightarrow> u64 \<Rightarrow> int) \<Rightarrow> userland \<Rightarrow> int \<times> userland" where
  "prove_syscall_abi_kernel_safe sys u =
     (let p = user_processes u ! 0;
          rc = first_fail
            [(\<not> user_stack_layout_ready (handoff u) \<or> up_state p \<noteq> LAYOUT_READY, AEGIS_EINVAL),
             (sys SYS_GETPID 0 < 0, AEGIS_EINVAL),
             (sys SYS_WRITE 1 \<noteq> AEGIS_EINVAL, AEGIS_EINVAL),
             (sys SYS_OPEN 0 \<noteq> AEGIS_EINVAL, AEGIS_EINVAL),
             (sys SYS_MMAP AEGIS_USER_HEAP_BASE \<noteq> AEGIS_EINVAL, AEGIS_EINVAL),
             (sys (NR_SYSCALLS + 64) 0 \<noteq> AEGIS_EINVAL, AEGIS_EINVAL),
             (up_syscall_gate p AND 4095 \<noteq> 0, AEGIS_EINVAL),
             (up_syscall_gate p \<le> region_base (up_stack p), AEGIS_EINVAL)]
      in if rc \<noteq> AEGIS_OK then (rc, u)
         else (AEGIS_OK, update_handoff (\<lambda>h. h\<lparr>syscall_abi_kernel_safe_ready := True\<rparr>)
                (update_process 0 (\<lambda>p. p\<lparr>up_state := SYSCALL_ABI_READY\<rparr>) u)))"

definition userland_prepare_pre_el0_contract :: "(u64 \<Rightarrow> u64 \<Rightarrow> int) \<Rightarrow> userland \<Rightarrow> int \<times> userland" where
  "userland_prepare_pre_el0_contract sys u =
     (if \<not> handoff_ready (handoff u) then (AEGIS_EINVAL, u)
      else let (rc, u) = create_fake_first_process_descriptor u in if rc \<noteq> AEGIS_OK then (rc, u)
      else let (rc, u) = prove_user_stack_and_address_layout u in if rc \<noteq> AEGIS_OK then (rc, u)
      else let (rc, u) = prove_syscall_abi_kernel_safe sys u in if rc \<noteq> AEGIS_OK then (rc, u)
      else (AEGIS_OK, update_handoff (\<lambda>h. h\<lparr>pre_el0_ready := True\<rparr>) u))"

definition userland_selftest :: "userland \<Rightarrow> int" where
  "userland_selftest u =
     (let h = handoff u; init = userland_find_feature (Some ''aegis-init'') u; router = userland_find_feature (Some ''routerd'') u;
          admin = userland_find_feature (Some ''rustmyadmin'') u; bridge = userland_find_feature (Some ''phoenix-feature-bridge'') u
      in first_fail
        [(\<not> initialised h, AEGIS_EINVAL), (\<not> feature_catalogue_ready h, AEGIS_EINVAL), (\<not> services_bound h, AEGIS_EINVAL),
         (\<not> syscall_surface_ready h, AEGIS_EINVAL), (\<not> handoff_ready h, AEGIS_EINVAL), (feature_count h < 10, AEGIS_EINVAL),
         (bound_count h \<noteq> feature_count h, AEGIS_EINVAL), (ready_count h \<noteq> feature_count h, AEGIS_EINVAL),
         (init = None \<or> router = None \<or> admin = None \<or> bridge = None, AEGIS_ENOENT),
         (uf_state (the init) \<noteq> USERLAND_HANDOFF_READY, AEGIS_EINVAL), (uf_state (the router) \<noteq> USERLAND_HANDOFF_READY, AEGIS_EINVAL),
         (uf_state (the admin) \<noteq> USERLAND_HANDOFF_READY, AEGIS_EINVAL), (uf_state (the bridge) \<noteq> USERLAND_HANDOFF_READY, AEGIS_EINVAL),
         (uf_flags (the init) AND FEATURE_REQUIRED = 0, AEGIS_EINVAL), (uf_flags (the router) AND FEATURE_CONTROL_PLANE = 0, AEGIS_EINVAL),
         (uf_flags (the admin) AND FEATURE_CONTROL_PLANE = 0, AEGIS_EINVAL)])"

definition userland_pre_el0_selftest :: "userland \<Rightarrow> int" where
  "userland_pre_el0_selftest u =
     (let h = handoff u; q = userland_first_process_descriptor u; p = the q
      in first_fail
        [(\<not> pre_el0_ready h, AEGIS_EINVAL), (\<not> fake_process_descriptor_ready h, AEGIS_EINVAL),
         (\<not> user_stack_layout_ready h, AEGIS_EINVAL), (\<not> syscall_abi_kernel_safe_ready h, AEGIS_EINVAL),
         (process_descriptor_count h \<noteq> 1, AEGIS_EINVAL), (q = None, AEGIS_ENOENT), (up_state p \<noteq> SYSCALL_ABI_READY, AEGIS_EINVAL),
         (\<not> str_eq (up_name p) ''aegis-init'', AEGIS_EINVAL), (\<not> str_eq (up_image_path p) ''/sbin/aegis-init'', AEGIS_EINVAL),
         (region_base (up_text p) \<noteq> AEGIS_USER_TEXT_BASE \<or> region_size (up_stack p) \<noteq> AEGIS_USER_STACK_SIZE, AEGIS_EINVAL),
         (up_initial_sp p AND 0xF \<noteq> 0, AEGIS_EINVAL), (region_flags (up_text p) AND REGION_EXEC = 0, AEGIS_EINVAL),
         (region_flags (up_stack p) AND REGION_WRITE = 0, AEGIS_EINVAL),
         (region_flags (up_stack_guard p) AND REGION_GUARD = 0, AEGIS_EINVAL)])"

section \<open>The EL0 transition probe\<close>

definition in_stack :: "u64 \<Rightarrow> aegis_user_process_descriptor \<Rightarrow> bool" where
  "in_stack sp p \<longleftrightarrow> \<not> (sp < region_base (up_stack p) \<or> region_base (up_stack p) + region_size (up_stack p) \<le> sp)"

definition userland_prepare_controlled_el0_transition :: "u64 \<Rightarrow> u64 \<Rightarrow> userland \<Rightarrow> int \<times> userland" where
  "userland_prepare_controlled_el0_transition entry user_sp u =
     (let h = handoff u; proc = user_processes u ! 0;
          rc = first_fail
            [(\<not> pre_el0_ready h, AEGIS_EINVAL), (\<not> syscall_abi_kernel_safe_ready h, AEGIS_EINVAL),
             (process_descriptor_count h < 1, AEGIS_EINVAL), (entry = 0 \<or> user_sp = 0, AEGIS_EINVAL),
             (up_state proc \<noteq> SYSCALL_ABI_READY, AEGIS_EINVAL), (entry AND 0x3 \<noteq> 0, AEGIS_EINVAL),
             (user_sp AND 0xF \<noteq> 0, AEGIS_EINVAL), (\<not> in_stack user_sp proc, AEGIS_EINVAL)]
      in if rc \<noteq> AEGIS_OK then (rc, u)
         else (AEGIS_OK, update_process 0 (\<lambda>p. p\<lparr>up_state := EL0_PROBE_READY\<rparr>)
                (update_handoff (\<lambda>h. h\<lparr>el0_probe_entry := entry, el0_probe_sp := user_sp, el0_entry_selected := True,
                   el0_stack_selected := True, el0_svc_trap_seen := False, controlled_el0_transition_seen := False,
                   el0_probe_syscall_nr := 0, el0_probe_arg0 := 0, el0_probe_elr := 0, el0_probe_spsr := 0,
                   el0_transition_prepared := True\<rparr>) u)))"

definition userland_controlled_el0_transition_active :: "userland \<Rightarrow> bool" where
  "userland_controlled_el0_transition_active u \<longleftrightarrow> el0_transition_prepared (handoff u) \<and> \<not> el0_svc_trap_seen (handoff u)"

definition userland_controlled_el0_transition_seen :: "userland \<Rightarrow> bool" where
  "userland_controlled_el0_transition_seen u = controlled_el0_transition_seen (handoff u)"

text \<open>Setting the state of the first descriptor once one exists.\<close>

definition mark_first_process :: "aegis_user_process_state \<Rightarrow> userland \<Rightarrow> userland" where
  "mark_first_process st u =
     (if 1 \<le> process_descriptor_count (handoff u) then update_process 0 (\<lambda>p. p\<lparr>up_state := st\<rparr>) u else u)"

definition userland_mark_el0_svc_trap :: "u64 \<Rightarrow> u64 \<Rightarrow> u64 \<Rightarrow> u64 \<Rightarrow> userland \<Rightarrow> userland" where
  "userland_mark_el0_svc_trap syscall_nr arg0 elr spsr u =
     mark_first_process EL0_SVC_TRAPPED (update_handoff (\<lambda>h. h\<lparr>el0_probe_syscall_nr := syscall_nr, el0_probe_arg0 := arg0,
       el0_probe_elr := elr, el0_probe_spsr := spsr, el0_svc_trap_seen := True, controlled_el0_transition_seen := True\<rparr>) u)"

definition userland_controlled_el0_transition_selftest :: "userland \<Rightarrow> int" where
  "userland_controlled_el0_transition_selftest u =
     (let h = handoff u; q = userland_first_process_descriptor u; p = the q
      in first_fail
        [(\<not> el0_transition_prepared h, AEGIS_EINVAL), (\<not> el0_entry_selected h \<or> \<not> el0_stack_selected h, AEGIS_EINVAL),
         (el0_probe_entry h = 0 \<or> el0_probe_sp h = 0, AEGIS_EINVAL), (el0_probe_entry h AND 0x3 \<noteq> 0, AEGIS_EINVAL),
         (el0_probe_sp h AND 0xF \<noteq> 0, AEGIS_EINVAL), (q = None, AEGIS_ENOENT),
         (up_state p \<noteq> EL0_PROBE_READY \<and> up_state p \<noteq> EL0_SVC_TRAPPED, AEGIS_EINVAL),
         (\<not> in_stack (el0_probe_sp h) p, AEGIS_EINVAL)])"

section \<open>Binding the ELF image\<close>

definition userland_bind_first_process_to_loaded_elf ::
  "string option \<Rightarrow> u64 \<Rightarrow> u64 \<Rightarrow> u64 \<Rightarrow> u32 \<Rightarrow> u64 \<Rightarrow> u64 \<Rightarrow> userland \<Rightarrow> int \<times> userland" where
  "userland_bind_first_process_to_loaded_elf path entry text_base text_size text_flags file_bytes_copied zero_bytes u =
     (let h = handoff u; proc = user_processes u ! 0; required = REGION_READ OR REGION_EXEC OR REGION_USER OR REGION_MAPPED;
          rc = first_fail
            [(\<not> pre_el0_ready h, AEGIS_EINVAL), (process_descriptor_count h \<noteq> 1, AEGIS_EINVAL),
             (path = None \<or> entry = 0 \<or> text_base = 0 \<or> text_size = 0, AEGIS_EINVAL), (entry AND 0x3 \<noteq> 0, AEGIS_EINVAL),
             (text_base AND 4095 \<noteq> 0, AEGIS_EINVAL), (text_size AND 4095 \<noteq> 0, AEGIS_EINVAL),
             (file_bytes_copied = 0 \<or> text_size < file_bytes_copied, AEGIS_EINVAL),
             (zero_bytes \<noteq> text_size - file_bytes_copied, AEGIS_EINVAL),
             (text_flags AND required \<noteq> required, AEGIS_EINVAL), (text_flags AND REGION_WRITE \<noteq> 0, AEGIS_EPERM),
             (text_flags AND REGION_KERNEL \<noteq> 0, AEGIS_EPERM),
             (up_state proc \<noteq> SYSCALL_ABI_READY \<and> up_state proc \<noteq> ELF_LOADED, AEGIS_EINVAL),
             (\<not> str_eq (up_name proc) ''aegis-init'', AEGIS_EINVAL), (\<not> str_eq (up_image_path proc) (the path), AEGIS_EINVAL),
             (entry < text_base \<or> text_base + text_size \<le> entry, AEGIS_EINVAL)]
      in if rc \<noteq> AEGIS_OK then (rc, u)
         else (AEGIS_OK, update_handoff (\<lambda>h. h\<lparr>elf_loader_ready := True, elf_aegis_init_validated := True,
                  first_user_process_loaded_from_elf := True, elf_pt_load_segments_copied := True,
                  user_kernel_page_permissions_ready := True, elf_entry := entry, elf_text_base := text_base,
                  elf_text_size := text_size, elf_text_file_bytes_copied := file_bytes_copied,
                  elf_text_zero_bytes := zero_bytes, elf_text_region_flags := text_flags\<rparr>)
                (update_process 0 (\<lambda>p. p\<lparr>up_entry := entry, up_text := \<lparr>region_base = text_base, region_size = text_size,
                   region_flags = text_flags\<rparr>, up_state := ELF_LOADED\<rparr>) u)))"

definition userland_bind_first_process_to_elf :: "string option \<Rightarrow> u64 \<Rightarrow> u64 \<Rightarrow> u64 \<Rightarrow> userland \<Rightarrow> int \<times> userland" where
  "userland_bind_first_process_to_elf path entry text_base text_size u =
     userland_bind_first_process_to_loaded_elf path entry text_base text_size
       (REGION_READ OR REGION_EXEC OR REGION_USER OR REGION_MAPPED) 1 (text_size - 1) u"

definition userland_first_process_elf_loader_selftest :: "userland \<Rightarrow> int" where
  "userland_first_process_elf_loader_selftest u =
     (let h = handoff u; q = userland_first_process_descriptor u; p = the q
      in first_fail
        [(\<not> elf_loader_ready h \<or> \<not> elf_aegis_init_validated h, AEGIS_EINVAL),
         (\<not> first_user_process_loaded_from_elf h, AEGIS_EINVAL),
         (elf_entry h = 0 \<or> elf_text_base h = 0 \<or> elf_text_size h = 0, AEGIS_EINVAL),
         (elf_text_base h AND 4095 \<noteq> 0, AEGIS_EINVAL), (elf_text_size h AND 4095 \<noteq> 0, AEGIS_EINVAL),
         (elf_entry h < elf_text_base h \<or> elf_text_base h + elf_text_size h \<le> elf_entry h, AEGIS_EINVAL),
         (q = None, AEGIS_ENOENT), (up_state p \<noteq> ELF_LOADED, AEGIS_EINVAL), (up_entry p \<noteq> elf_entry h, AEGIS_EINVAL),
         (region_base (up_text p) \<noteq> elf_text_base h, AEGIS_EINVAL), (region_size (up_text p) \<noteq> elf_text_size h, AEGIS_EINVAL),
         (region_flags (up_text p) AND REGION_EXEC = 0, AEGIS_EINVAL)])"

definition userland_pt_load_permissions_selftest :: "userland \<Rightarrow> int" where
  "userland_pt_load_permissions_selftest u =
     (let h = handoff u; q = userland_first_process_descriptor u; p = the q; tf = region_flags (up_text p);
          hf = region_flags (up_heap p); sf = region_flags (up_stack p)
      in first_fail
        [(\<not> elf_pt_load_segments_copied h, AEGIS_EINVAL), (\<not> user_kernel_page_permissions_ready h, AEGIS_EINVAL),
         (elf_text_file_bytes_copied h = 0, AEGIS_EINVAL), (elf_text_size h < elf_text_file_bytes_copied h, AEGIS_EINVAL),
         (elf_text_zero_bytes h \<noteq> elf_text_size h - elf_text_file_bytes_copied h, AEGIS_EINVAL), (q = None, AEGIS_ENOENT),
         (tf AND REGION_READ = 0, AEGIS_EINVAL), (tf AND REGION_EXEC = 0, AEGIS_EINVAL), (tf AND REGION_USER = 0, AEGIS_EINVAL),
         (tf AND REGION_MAPPED = 0, AEGIS_EINVAL), (tf AND REGION_WRITE \<noteq> 0, AEGIS_EPERM), (hf AND REGION_WRITE = 0, AEGIS_EINVAL),
         (hf AND REGION_EXEC \<noteq> 0, AEGIS_EPERM), (sf AND REGION_WRITE = 0, AEGIS_EINVAL), (sf AND REGION_EXEC \<noteq> 0, AEGIS_EPERM),
         (region_flags (up_stack_guard p) AND REGION_GUARD = 0, AEGIS_EINVAL)])"

section \<open>Stacks and further processes\<close>

text \<open>The arithmetic of the bootstrap stack, shared by the first and the secondary processes.\<close>

definition bootstrap_sp_of :: "aegis_user_process_descriptor \<Rightarrow> u64" where
  "bootstrap_sp_of p = (region_base (up_stack p) + region_size (up_stack p) - AEGIS_USER_STACK_BOOTSTRAP_SIZE) AND NOT 0xF"

definition place_bootstrap :: "aegis_user_process_descriptor \<Rightarrow> aegis_user_process_descriptor" where
  "place_bootstrap p =
     (let sp = bootstrap_sp_of p; envp = sp + ucast (up_argc p + 1) * 8
      in p\<lparr>up_bootstrap_sp := sp, up_bootstrap_stack_bytes := AEGIS_USER_STACK_BOOTSTRAP_SIZE, up_argv_user := sp,
           up_envp_user := envp, up_auxv_user := envp + ucast (up_envc p + 1) * 8, up_initial_sp := sp\<rparr>)"

definition userland_prepare_user_stack_bootstrap :: "userland \<Rightarrow> int \<times> userland" where
  "userland_prepare_user_stack_bootstrap u =
     (let h = handoff u; proc = user_processes u ! 0;
          rc = first_fail
            [(\<not> elf_pt_load_segments_copied h \<or> \<not> user_kernel_page_permissions_ready h, AEGIS_EINVAL),
             (process_descriptor_count h < 1, AEGIS_ENOENT), (up_state proc \<noteq> ELF_LOADED, AEGIS_EINVAL),
             (\<not> str_eq (up_name proc) ''aegis-init'', AEGIS_EINVAL),
             (\<not> str_eq (up_image_path proc) ''/sbin/aegis-init'', AEGIS_EINVAL)]
      in if rc \<noteq> AEGIS_OK then (rc, u)
         else
           let arg = (\<lambda>s. copy_name AEGIS_USER_ARG_STRING_MAX (Some s));
               u = update_process 0 (\<lambda>p. p\<lparr>up_argc := 3, up_envc := 3,
                     up_argv := (up_argv p)[0 := arg ''/sbin/aegis-init'', 1 := arg ''--system'', 2 := arg ''--router-bringup''],
                     up_envp := (up_envp p)[0 := arg ''PATH=/sbin:/bin'', 1 := arg ''AEGIS_PROFILE=router'',
                       2 := arg ''RUSTMYADMIN_MODE=kernel-handoff'']\<rparr>) u
           in if \<not> in_stack (bootstrap_sp_of (user_processes u ! 0)) (user_processes u ! 0) then (AEGIS_EINVAL, u)
              else
                let u = update_process 0 (\<lambda>p. (place_bootstrap p)\<lparr>up_state := ARGV_ENVP_READY\<rparr>) u; p = user_processes u ! 0
                in if up_argv_user p < region_base (up_stack p) \<or> region_base (up_stack p) + region_size (up_stack p) \<le> up_auxv_user p
                   then (AEGIS_EINVAL, u)
                   else if up_initial_sp p AND 0xF \<noteq> 0 then (AEGIS_EINVAL, u)
                   else (AEGIS_OK, update_handoff (\<lambda>h. h\<lparr>user_stack_argv_envp_ready := True, bootstrap_argc := up_argc p,
                          bootstrap_envc := up_envc p, bootstrap_stack_pointer := up_bootstrap_sp p,
                          bootstrap_argv_user := up_argv_user p, bootstrap_envp_user := up_envp_user p,
                          bootstrap_auxv_user := up_auxv_user p\<rparr>) u))"

definition userland_user_stack_bootstrap_selftest :: "userland \<Rightarrow> int" where
  "userland_user_stack_bootstrap_selftest u =
     (let h = handoff u; q = userland_first_process_descriptor u; p = the q
      in first_fail
        [(\<not> user_stack_argv_envp_ready h, AEGIS_EINVAL), (q = None, AEGIS_ENOENT), (up_state p \<noteq> ARGV_ENVP_READY, AEGIS_EINVAL),
         (up_argc p \<noteq> 3 \<or> up_envc p \<noteq> 3, AEGIS_EINVAL), (\<not> str_eq (up_argv p ! 0) ''/sbin/aegis-init'', AEGIS_EINVAL),
         (\<not> str_eq (up_argv p ! 1) ''--system'', AEGIS_EINVAL), (\<not> str_eq (up_envp p ! 0) ''PATH=/sbin:/bin'', AEGIS_EINVAL),
         (up_bootstrap_stack_bytes p \<noteq> AEGIS_USER_STACK_BOOTSTRAP_SIZE, AEGIS_EINVAL),
         (up_bootstrap_sp p \<noteq> bootstrap_stack_pointer h, AEGIS_EINVAL), (up_argv_user p \<noteq> bootstrap_argv_user h, AEGIS_EINVAL),
         (up_envp_user p \<noteq> bootstrap_envp_user h, AEGIS_EINVAL), (up_initial_sp p \<noteq> up_bootstrap_sp p, AEGIS_EINVAL),
         (up_initial_sp p AND 0xF \<noteq> 0, AEGIS_EINVAL), (\<not> in_stack (up_initial_sp p) p, AEGIS_EINVAL)])"

definition create_secondary_process_descriptor :: "string option \<Rightarrow> u32 \<Rightarrow> userland \<Rightarrow> int \<times> userland" where
  "create_secondary_process_descriptor feature_name index u =
     (if AEGIS_USERLAND_PROCESS_MAX \<le> unat index then (AEGIS_ENOMEM, u)
      else case userland_find_feature feature_name u of
        None \<Rightarrow> (AEGIS_ENOENT, u)
      | Some feature \<Rightarrow>
          if uf_state feature \<noteq> USERLAND_HANDOFF_READY then (AEGIS_ENOENT, u)
          else if uf_flags feature AND FEATURE_PROCESS = 0 then (AEGIS_EINVAL, u)
          else let p = zero_process\<lparr>up_id := next_process_id u, up_feature_id := uf_id feature,
                     up_service_id := uf_service_id feature, up_state := SECONDARY_DESCRIPTOR_READY,
                     up_entry := per_process_text_base index, up_syscall_gate := AEGIS_USER_SYSCALL_GATE,
                     up_name := copy_name AEGIS_USERLAND_NAME_MAX (Some (uf_name feature)),
                     up_image_path := copy_name AEGIS_USERLAND_PATH_MAX (Some (uf_image_path feature))\<rparr>;
                   (rc, p) = assign_process_layout index p;
                   u = update_process (unat index) (\<lambda>_. p) (u\<lparr>next_process_id := next_process_id u + 1\<rparr>)
               in if rc \<noteq> AEGIS_OK then (AEGIS_EINVAL, u)
                  else (AEGIS_OK, update_process (unat index) (\<lambda>p. p\<lparr>up_entry := region_base (up_text p)\<rparr>) u))"

fun create_secondaries :: "string list \<Rightarrow> u32 \<Rightarrow> userland \<Rightarrow> int \<times> u32 \<times> userland" where
  "create_secondaries [] count u = (AEGIS_OK, count, u)"
| "create_secondaries (n # ns) count u =
     (let (rc, u) = create_secondary_process_descriptor (Some n) count u
      in if rc \<noteq> AEGIS_OK then (rc, count, u) else create_secondaries ns (count + 1) u)"

definition userland_create_multiple_process_descriptors :: "userland \<Rightarrow> int \<times> userland" where
  "userland_create_multiple_process_descriptors u =
     (if \<not> user_stack_argv_envp_ready (handoff u) then (AEGIS_EINVAL, u)
      else if process_descriptor_count (handoff u) \<noteq> 1 then (AEGIS_EBUSY, u)
      else let (rc, count, u) = create_secondaries [''aegisd'', ''routerd'', ''rustmyadmin''] 1 u
           in if rc \<noteq> AEGIS_OK then (rc, u)
              else (AEGIS_OK, update_handoff (\<lambda>h. h\<lparr>process_descriptor_count := count,
                     secondary_process_descriptor_count := count - 1, launchable_process_descriptor_count := count,
                     multiple_process_descriptors_ready := True\<rparr>) u))"

text \<open>The checks of process \<open>i\<close> against those before it.\<close>

definition secondary_checks :: "userland \<Rightarrow> nat \<Rightarrow> (bool \<times> int) list" where
  "secondary_checks u i =
     (let p = user_processes u ! i in
      [(up_id p = 0 \<or> up_feature_id p = 0 \<or> up_service_id p = 0, AEGIS_EINVAL),
       (up_state p \<noteq> SECONDARY_DESCRIPTOR_READY, AEGIS_EINVAL),
       (length (up_name p) = 0 \<or> length (up_image_path p) = 0, AEGIS_EINVAL),
       (\<not> region_aligned (up_text p) \<or> \<not> region_aligned (up_heap p) \<or> \<not> region_aligned (up_stack p), AEGIS_EINVAL),
       (region_flags (up_stack p) AND REGION_WRITE = 0, AEGIS_EINVAL), (region_flags (up_stack p) AND REGION_EXEC \<noteq> 0, AEGIS_EPERM)] @
      concat (map (\<lambda>j. [(up_id p = up_id (user_processes u ! j), AEGIS_EINVAL),
        (\<not> regions_do_not_overlap (up_stack p) (up_stack (user_processes u ! j)), AEGIS_EINVAL),
        (\<not> regions_do_not_overlap (up_text p) (up_text (user_processes u ! j)), AEGIS_EINVAL)]) [0..<i]))"

definition userland_multiple_process_descriptors_selftest :: "userland \<Rightarrow> int" where
  "userland_multiple_process_descriptors_selftest u =
     (let h = handoff u; q = userland_first_process_descriptor u
      in first_fail
        ([(\<not> multiple_process_descriptors_ready h, AEGIS_EINVAL), (process_descriptor_count h < 4, AEGIS_EINVAL),
          (secondary_process_descriptor_count h < 3, AEGIS_EINVAL),
          (q = None \<or> \<not> str_eq (up_name (the q)) ''aegis-init'', AEGIS_EINVAL), (up_state (the q) \<noteq> ARGV_ENVP_READY, AEGIS_EINVAL)] @
         concat (map (secondary_checks u) [1..<unat (process_descriptor_count h)])))"

definition prepare_descriptor_bootstrap :: "string \<Rightarrow> aegis_user_process_descriptor \<Rightarrow> int \<times> aegis_user_process_descriptor" where
  "prepare_descriptor_bootstrap mode p =
     (if region_size (up_stack p) = 0 \<or> region_base (up_stack p) = 0 then (AEGIS_EINVAL, p)
      else let arg = (\<lambda>s. copy_name AEGIS_USER_ARG_STRING_MAX (Some s));
               p = p\<lparr>up_argc := 2, up_envc := 2, up_argv := (up_argv p)[0 := arg (up_image_path p), 1 := arg mode],
                     up_envp := (up_envp p)[0 := arg ''PATH=/sbin:/bin'', 1 := arg ''AEGIS_PROFILE=router'']\<rparr>
           in if \<not> in_stack (bootstrap_sp_of p) p then (AEGIS_EINVAL, p)
              else let p = place_bootstrap p
                   in if up_initial_sp p AND 0xF \<noteq> 0 then (AEGIS_EINVAL, p)
                      else if region_base (up_stack p) + region_size (up_stack p) \<le> up_auxv_user p then (AEGIS_EINVAL, p)
                      else (AEGIS_OK, p))"

definition launch_checks :: "nat \<Rightarrow> aegis_user_process_descriptor \<Rightarrow> int" where
  "launch_checks i p = first_fail
     ([(up_id p = 0 \<or> length (up_name p) = 0 \<or> length (up_image_path p) = 0, AEGIS_EINVAL),
       (\<not> region_aligned (up_text p) \<or> \<not> region_aligned (up_heap p) \<or> \<not> region_aligned (up_stack p), AEGIS_EINVAL),
       (region_flags (up_text p) AND REGION_USER = 0, AEGIS_EINVAL), (region_flags (up_stack p) AND REGION_WRITE = 0, AEGIS_EINVAL),
       (region_flags (up_stack p) AND REGION_EXEC \<noteq> 0, AEGIS_EPERM)] @
      (if i = 0
       then [(up_state p \<noteq> ARGV_ENVP_READY \<and> up_state p \<noteq> MULTIPROCESS_LAUNCH_READY, AEGIS_EINVAL),
             (up_argc p = 0 \<or> up_envc p = 0 \<or> up_bootstrap_sp p = 0, AEGIS_EINVAL)]
       else [(up_state p \<noteq> SECONDARY_DESCRIPTOR_READY \<and> up_state p \<noteq> MULTIPROCESS_LAUNCH_READY, AEGIS_EINVAL)]))"

fun launch_from :: "nat \<Rightarrow> nat \<Rightarrow> u32 \<Rightarrow> userland \<Rightarrow> int \<times> u32 \<times> userland" where
  "launch_from i 0 launchable u = (AEGIS_OK, launchable, u)"
| "launch_from i (Suc k) launchable u =
     (let p = user_processes u ! i; rc = launch_checks i p
      in if rc \<noteq> AEGIS_OK then (rc, launchable, u)
         else let (rc, p) = (if i = 0 then (AEGIS_OK, p) else prepare_descriptor_bootstrap ''--service'' p)
              in if rc \<noteq> AEGIS_OK then (rc, launchable, update_process i (\<lambda>_. p) u)
                 else launch_from (Suc i) k (launchable + 1) (update_process i (\<lambda>_. p\<lparr>up_state := MULTIPROCESS_LAUNCH_READY\<rparr>) u))"

definition userland_prepare_real_multiprocess_launch_path :: "userland \<Rightarrow> int \<times> userland" where
  "userland_prepare_real_multiprocess_launch_path u =
     (if \<not> multiple_process_descriptors_ready (handoff u) then (AEGIS_EINVAL, u)
      else if process_descriptor_count (handoff u) < 4 then (AEGIS_EINVAL, u)
      else let (rc, launchable, u) = launch_from 0 (unat (process_descriptor_count (handoff u))) 0 u
           in if rc \<noteq> AEGIS_OK then (rc, u)
              else (AEGIS_OK, update_handoff (\<lambda>h. h\<lparr>real_multiprocess_launch_ready := True,
                     scheduled_user_process_count := launchable, launchable_process_descriptor_count := launchable\<rparr>) u))"

definition userland_real_multiprocess_launch_selftest :: "userland \<Rightarrow> int" where
  "userland_real_multiprocess_launch_selftest u =
     (let h = handoff u; ps = take (unat (process_descriptor_count h)) (user_processes u);
          rc = first_fail
            ([(\<not> real_multiprocess_launch_ready h, AEGIS_EINVAL),
              (scheduled_user_process_count h \<noteq> process_descriptor_count h, AEGIS_EINVAL),
              (launchable_process_descriptor_count h < 4, AEGIS_EINVAL)] @
             concat (map (\<lambda>p. [(up_state p \<noteq> MULTIPROCESS_LAUNCH_READY, AEGIS_EINVAL), (up_entry p = 0 \<or> up_initial_sp p = 0, AEGIS_EINVAL),
               (up_initial_sp p AND 0xF \<noteq> 0, AEGIS_EINVAL), (\<not> in_stack (up_initial_sp p) p, AEGIS_EINVAL),
               (up_argc p = 0 \<or> up_envc p = 0, AEGIS_EINVAL)]) ps));
          saw = (\<lambda>n. list_ex (\<lambda>p. str_eq (up_name p) n) ps)
      in if rc \<noteq> AEGIS_OK then rc
         else if saw ''aegis-init'' \<and> saw ''aegisd'' \<and> saw ''routerd'' \<and> saw ''rustmyadmin'' then AEGIS_OK else AEGIS_ENOENT)"

definition userland_request_process_launch_by_path :: "string option \<Rightarrow> userland \<Rightarrow> int \<times> userland" where
  "userland_request_process_launch_by_path path u =
     (if \<not> real_multiprocess_launch_ready (handoff u) \<or> path = None then (AEGIS_EINVAL, u)
      else case scan (\<lambda>p. str_eq (up_image_path p) (the path) \<or> str_eq (up_name p) (the path))
                  (take (unat (process_descriptor_count (handoff u))) (user_processes u)) of
        None \<Rightarrow> (AEGIS_ENOENT, u)
      | Some i \<Rightarrow>
          let p = user_processes u ! i in
          if up_state p \<noteq> MULTIPROCESS_LAUNCH_READY \<and> up_state p \<noteq> FIRST_LAUNCH_READY \<and> up_state p \<noteq> FIRST_RUNNING
          then (AEGIS_EBUSY, u)
          else (int (unat (up_id p)), update_handoff (\<lambda>h. h\<lparr>spawn_request_count := spawn_request_count h + 1,
                  last_spawn_pid := up_id p\<rparr>) u))"

definition userland_feature_id_by_name :: "string option \<Rightarrow> userland \<Rightarrow> u32" where
  "userland_feature_id_by_name name u = (case userland_find_feature name u of None \<Rightarrow> 0 | Some f \<Rightarrow> uf_id f)"

definition userland_prepare_syscall_expansion :: "userland \<Rightarrow> int \<times> userland" where
  "userland_prepare_syscall_expansion u =
     (if \<not> real_multiprocess_launch_ready (handoff u) then (AEGIS_EINVAL, u)
      else if NR_SYSCALLS < 18 then (AEGIS_EINVAL, u)
      else (AEGIS_OK, update_handoff (\<lambda>h. h\<lparr>syscall_expansion_ready := True, syscall_expanded_count := ucast NR_SYSCALLS\<rparr>) u))"

definition userland_syscall_expansion_selftest :: "(u64 \<Rightarrow> u64 \<Rightarrow> int) \<Rightarrow> userland \<Rightarrow> int \<times> userland" where
  "userland_syscall_expansion_selftest sys u =
     (let rc = first_fail
            [(\<not> syscall_expansion_ready (handoff u), AEGIS_EINVAL), (syscall_expanded_count (handoff u) < 18, AEGIS_EINVAL),
             (sys SYS_GETPID 0 < 0, AEGIS_EINVAL), (sys SYS_GETPPID 0 < 0, AEGIS_EINVAL), (sys SYS_GETTID 0 < 0, AEGIS_EINVAL),
             (userland_feature_id_by_name (Some ''routerd'') u = 0, AEGIS_EINVAL)]
      in if rc \<noteq> AEGIS_OK then (rc, u)
         else let (spawn_pid, u) = userland_request_process_launch_by_path (Some ''/sbin/routerd'') u
              in (first_fail
                   [(spawn_pid \<le> 1, AEGIS_EINVAL),
                    (last_spawn_pid (handoff u) \<noteq> of_int spawn_pid \<or> spawn_request_count (handoff u) = 0, AEGIS_EINVAL),
                    (sys SYS_WAITPID 9999 \<noteq> AEGIS_ENOENT, AEGIS_EINVAL), (sys (NR_SYSCALLS + 32) 0 \<noteq> AEGIS_EINVAL, AEGIS_EINVAL)], u))"

section \<open>The life of the first process\<close>

definition userland_prepare_first_tiny_user_process :: "u64 \<Rightarrow> u64 \<Rightarrow> userland \<Rightarrow> int \<times> userland" where
  "userland_prepare_first_tiny_user_process entry user_sp u =
     (let h = handoff u; proc = user_processes u ! 0;
          rc = first_fail
            [(\<not> pre_el0_ready h, AEGIS_EINVAL), (\<not> syscall_abi_kernel_safe_ready h, AEGIS_EINVAL),
             (process_descriptor_count h < 1, AEGIS_EINVAL), (entry = 0 \<or> user_sp = 0, AEGIS_EINVAL),
             (up_state proc \<noteq> SYSCALL_ABI_READY \<and> up_state proc \<noteq> ELF_LOADED \<and> up_state proc \<noteq> ARGV_ENVP_READY \<and>
              up_state proc \<noteq> MULTIPROCESS_LAUNCH_READY \<and> up_state proc \<noteq> EL0_PROBE_READY \<and> up_state proc \<noteq> EL0_SVC_TRAPPED, AEGIS_EINVAL),
             (\<not> str_eq (up_name proc) ''aegis-init'', AEGIS_EINVAL), (\<not> str_eq (up_image_path proc) ''/sbin/aegis-init'', AEGIS_EINVAL),
             (entry AND 0x3 \<noteq> 0, AEGIS_EINVAL), (user_sp AND 0xF \<noteq> 0, AEGIS_EINVAL), (\<not> in_stack user_sp proc, AEGIS_EINVAL)]
      in if rc \<noteq> AEGIS_OK then (rc, u)
         else (AEGIS_OK, update_handoff (\<lambda>h. h\<lparr>first_user_process_descriptor_ready := True, first_user_process_launch_ready := True,
                  first_user_process_seen := False, first_user_process_syscall_seen := False,
                  first_user_process_syscall_return_ready := False, first_user_process_continued_after_syscall := False,
                  first_user_process_exit_requested := False, first_user_process_exited := False,
                  post_exit_scheduler_handoff := False, scheduler_handoff_no_runnable_user := False,
                  first_user_process_entry := entry, first_user_process_sp := user_sp, first_user_process_syscall_nr := 0,
                  first_user_process_arg0 := 0, first_user_process_elr := 0, first_user_process_spsr := 0,
                  first_user_process_syscall_return_value := 0, first_user_process_continuation_syscall_nr := 0,
                  first_user_process_continuation_arg0 := 0, first_user_process_continuation_elr := 0,
                  first_user_process_continuation_spsr := 0, first_user_process_exit_syscall_nr := 0,
                  first_user_process_exit_code := 0, first_user_process_exit_elr := 0, first_user_process_exit_spsr := 0,
                  first_user_process_pid := up_id proc, el0_probe_entry := entry, el0_probe_sp := user_sp,
                  el0_entry_selected := True, el0_stack_selected := True, el0_svc_trap_seen := False,
                  controlled_el0_transition_seen := False, el0_transition_prepared := True\<rparr>)
                (update_process 0 (\<lambda>p. p\<lparr>up_entry := entry, up_initial_sp := user_sp, up_state := FIRST_LAUNCH_READY\<rparr>) u)))"

definition userland_first_tiny_user_process_selftest :: "userland \<Rightarrow> int" where
  "userland_first_tiny_user_process_selftest u =
     (let h = handoff u; q = userland_first_process_descriptor u; p = the q
      in first_fail
        [(\<not> first_user_process_descriptor_ready h, AEGIS_EINVAL), (\<not> first_user_process_launch_ready h, AEGIS_EINVAL),
         (first_user_process_entry h = 0 \<or> first_user_process_sp h = 0, AEGIS_EINVAL),
         (first_user_process_entry h AND 0x3 \<noteq> 0, AEGIS_EINVAL), (first_user_process_sp h AND 0xF \<noteq> 0, AEGIS_EINVAL),
         (first_user_process_pid h = 0, AEGIS_EINVAL), (q = None, AEGIS_ENOENT),
         (up_state p \<noteq> FIRST_LAUNCH_READY \<and> up_state p \<noteq> FIRST_SYSCALL_TRAPPED, AEGIS_EINVAL),
         (\<not> str_eq (up_name p) ''aegis-init'', AEGIS_EINVAL), (up_entry p \<noteq> first_user_process_entry h, AEGIS_EINVAL),
         (up_initial_sp p \<noteq> first_user_process_sp h, AEGIS_EINVAL)])"

definition userland_first_tiny_process_active :: "userland \<Rightarrow> bool" where
  "userland_first_tiny_process_active u \<longleftrightarrow>
     first_user_process_launch_ready (handoff u) \<and> \<not> first_user_process_syscall_seen (handoff u)"

definition userland_first_tiny_process_seen :: "userland \<Rightarrow> bool" where
  "userland_first_tiny_process_seen u \<longleftrightarrow> first_user_process_seen (handoff u) \<and> first_user_process_syscall_seen (handoff u)"

definition userland_first_tiny_process_return_probe_active :: "userland \<Rightarrow> bool" where
  "userland_first_tiny_process_return_probe_active u \<longleftrightarrow>
     first_user_process_syscall_return_ready (handoff u) \<and> \<not> first_user_process_continued_after_syscall (handoff u)"

definition userland_first_tiny_process_return_path_seen :: "userland \<Rightarrow> bool" where
  "userland_first_tiny_process_return_path_seen u \<longleftrightarrow>
     first_user_process_seen (handoff u) \<and> first_user_process_syscall_seen (handoff u) \<and>
     first_user_process_syscall_return_ready (handoff u) \<and> first_user_process_continued_after_syscall (handoff u)"

definition userland_first_tiny_process_exit_active :: "userland \<Rightarrow> bool" where
  "userland_first_tiny_process_exit_active u \<longleftrightarrow>
     first_user_process_continued_after_syscall (handoff u) \<and> \<not> first_user_process_exited (handoff u)"

definition userland_first_tiny_process_exit_seen :: "userland \<Rightarrow> bool" where
  "userland_first_tiny_process_exit_seen u \<longleftrightarrow>
     first_user_process_exit_requested (handoff u) \<and> first_user_process_exited (handoff u)"

definition userland_mark_first_user_process_syscall_return :: "u64 \<Rightarrow> u64 \<Rightarrow> int \<Rightarrow> u64 \<Rightarrow> u64 \<Rightarrow> userland \<Rightarrow> userland" where
  "userland_mark_first_user_process_syscall_return syscall_nr arg0 ret elr spsr u =
     mark_first_process FIRST_SYSCALL_RETURN_READY (update_handoff (\<lambda>h. h\<lparr>first_user_process_syscall_nr := syscall_nr,
       first_user_process_arg0 := arg0, first_user_process_elr := elr, first_user_process_spsr := spsr,
       first_user_process_syscall_return_value := ret, first_user_process_seen := True, first_user_process_syscall_seen := True,
       first_user_process_launch_ready := False, first_user_process_syscall_return_ready := True,
       el0_probe_syscall_nr := syscall_nr, el0_probe_arg0 := arg0, el0_probe_elr := elr, el0_probe_spsr := spsr,
       el0_svc_trap_seen := True, controlled_el0_transition_seen := True\<rparr>) u)"

definition userland_mark_first_user_process_continued_after_syscall :: "u64 \<Rightarrow> u64 \<Rightarrow> u64 \<Rightarrow> u64 \<Rightarrow> userland \<Rightarrow> userland" where
  "userland_mark_first_user_process_continued_after_syscall syscall_nr arg0 elr spsr u =
     mark_first_process FIRST_CONTINUED_AFTER_SYSCALL (update_handoff (\<lambda>h. h\<lparr>
       first_user_process_continuation_syscall_nr := syscall_nr, first_user_process_continuation_arg0 := arg0,
       first_user_process_continuation_elr := elr, first_user_process_continuation_spsr := spsr,
       first_user_process_continued_after_syscall := True\<rparr>) u)"

definition userland_mark_first_user_process_exit :: "u64 \<Rightarrow> u64 \<Rightarrow> u64 \<Rightarrow> u64 \<Rightarrow> userland \<Rightarrow> userland" where
  "userland_mark_first_user_process_exit syscall_nr exit_code elr spsr u =
     mark_first_process FIRST_EXITED (update_handoff (\<lambda>h. h\<lparr>first_user_process_exit_syscall_nr := syscall_nr,
       first_user_process_exit_code := exit_code, first_user_process_exit_elr := elr, first_user_process_exit_spsr := spsr,
       first_user_process_exit_requested := True, first_user_process_exited := True\<rparr>) u)"

definition userland_mark_post_exit_scheduler_handoff :: "userland \<Rightarrow> userland" where
  "userland_mark_post_exit_scheduler_handoff u =
     (if \<not> first_user_process_exited (handoff u) then u
      else update_handoff (\<lambda>h. h\<lparr>post_exit_scheduler_handoff := True, scheduler_handoff_no_runnable_user := True\<rparr>) u)"

definition userland_post_exit_scheduler_handoff_seen :: "userland \<Rightarrow> bool" where
  "userland_post_exit_scheduler_handoff_seen u = post_exit_scheduler_handoff (handoff u)"

definition userland_no_runnable_user_processes :: "userland \<Rightarrow> bool" where
  "userland_no_runnable_user_processes u \<longleftrightarrow> scheduler_handoff_no_runnable_user (handoff u) \<and>
     \<not> list_ex (\<lambda>p. up_state p \<in> {FIRST_LAUNCH_READY, FIRST_RUNNING, FIRST_SYSCALL_TRAPPED, FIRST_SYSCALL_RETURN_READY,
          FIRST_CONTINUED_AFTER_SYSCALL}) (take (unat (process_descriptor_count (handoff u))) (user_processes u))"

definition userland_mark_first_user_process_syscall :: "u64 \<Rightarrow> u64 \<Rightarrow> u64 \<Rightarrow> u64 \<Rightarrow> userland \<Rightarrow> userland" where
  "userland_mark_first_user_process_syscall syscall_nr arg0 elr spsr u =
     userland_mark_first_user_process_syscall_return syscall_nr arg0 0 elr spsr u"

definition userland_elf_loader_is_ready :: "userland \<Rightarrow> bool" where
  "userland_elf_loader_is_ready u \<longleftrightarrow> elf_loader_ready (handoff u) \<and> elf_aegis_init_validated (handoff u) \<and>
     first_user_process_loaded_from_elf (handoff u)"

definition userland_user_stack_bootstrap_ready :: "userland \<Rightarrow> bool" where "userland_user_stack_bootstrap_ready u \<longleftrightarrow> user_stack_argv_envp_ready (handoff u)"
definition userland_multiple_process_descriptors_ready :: "userland \<Rightarrow> bool" where "userland_multiple_process_descriptors_ready u \<longleftrightarrow> multiple_process_descriptors_ready (handoff u)"
definition userland_real_multiprocess_launch_ready :: "userland \<Rightarrow> bool" where "userland_real_multiprocess_launch_ready u \<longleftrightarrow> real_multiprocess_launch_ready (handoff u)"
definition userland_syscall_expansion_ready :: "userland \<Rightarrow> bool" where "userland_syscall_expansion_ready u \<longleftrightarrow> syscall_expansion_ready (handoff u)"
definition userland_feature_count :: "userland \<Rightarrow> u32" where "userland_feature_count u = feature_count (handoff u)"
definition userland_bound_count :: "userland \<Rightarrow> u32" where "userland_bound_count u = bound_count (handoff u)"
definition userland_ready_count :: "userland \<Rightarrow> u32" where "userland_ready_count u = ready_count (handoff u)"
definition userland_process_descriptor_count :: "userland \<Rightarrow> u32" where "userland_process_descriptor_count u = process_descriptor_count (handoff u)"
definition userland_handoff_is_ready :: "userland \<Rightarrow> bool" where "userland_handoff_is_ready u \<longleftrightarrow> handoff_ready (handoff u)"
definition userland_pre_el0_is_ready :: "userland \<Rightarrow> bool" where "userland_pre_el0_is_ready u \<longleftrightarrow> pre_el0_ready (handoff u)"
definition userland_el0_transition_is_prepared :: "userland \<Rightarrow> bool" where "userland_el0_transition_is_prepared u \<longleftrightarrow> el0_transition_prepared (handoff u)"
definition userland_pt_load_segments_copied :: "userland \<Rightarrow> bool" where "userland_pt_load_segments_copied u \<longleftrightarrow> elf_pt_load_segments_copied (handoff u)"
definition userland_page_permissions_ready :: "userland \<Rightarrow> bool" where "userland_page_permissions_ready u \<longleftrightarrow> user_kernel_page_permissions_ready (handoff u)"
definition userland_user_stack_ready :: "userland \<Rightarrow> bool" where "userland_user_stack_ready u \<longleftrightarrow> user_stack_argv_envp_ready (handoff u)"
definition userland_multi_process_ready :: "userland \<Rightarrow> bool" where "userland_multi_process_ready u \<longleftrightarrow> multiple_process_descriptors_ready (handoff u)"
definition userland_real_multiprocess_ready :: "userland \<Rightarrow> bool" where "userland_real_multiprocess_ready u \<longleftrightarrow> real_multiprocess_launch_ready (handoff u)"
definition userland_expanded_syscalls_ready :: "userland \<Rightarrow> bool" where "userland_expanded_syscalls_ready u \<longleftrightarrow> syscall_expansion_ready (handoff u)"
definition userland_handoff_state :: "userland \<Rightarrow> aegis_userland_handoff" where "userland_handoff_state u = handoff u"

end
