(* ===== verification/Userland_Layout.thy ===== *)
theory Userland_Layout
  imports Userland
begin

text \<open>
  The address-space layout of the user process slots: every slot gets a well-formed layout,
  and the regions of different slots do not overlap.
\<close>

section \<open>Layouts\<close>

definition slots :: "u32 list" where
  "slots = [0, 1, 2, 3, 4, 5, 6, 7]"

lemma slots_iff: "i \<in> set slots \<longleftrightarrow> unat i < AEGIS_USERLAND_PROCESS_MAX"
proof
  assume "unat i < AEGIS_USERLAND_PROCESS_MAX"
  then have "unat i \<in> {0, 1, 2, 3, 4, 5, 6, 7}" by (auto simp: AEGIS_USERLAND_PROCESS_MAX_def)
  moreover have "i = of_nat (unat i)" by simp
  ultimately have "i \<in> of_nat ` {0, 1, 2, 3, 4, 5, 6, 7}" by blast
  then show "i \<in> set slots" by (auto simp: slots_def)
qed (auto simp: slots_def AEGIS_USERLAND_PROCESS_MAX_def)

definition layouts_apart :: "u32 \<Rightarrow> u32 \<Rightarrow> bool" where
  "layouts_apart i j \<longleftrightarrow>
     (let p = layout_of i zero_process; q = layout_of j zero_process
      in regions_do_not_overlap (up_text p) (up_text q) \<and> regions_do_not_overlap (up_heap p) (up_heap q) \<and>
         regions_do_not_overlap (up_ipc p) (up_ipc q) \<and> regions_do_not_overlap (up_stack p) (up_stack q) \<and>
         regions_do_not_overlap (up_stack_guard p) (up_stack q))"

lemma slot_layouts:
  "list_all (\<lambda>i. fst (assign_process_layout i zero_process) = AEGIS_OK \<and> list_all (\<lambda>j. i = j \<or> layouts_apart i j) slots) slots"
  by code_simp

section \<open>Correctness\<close>



end
