(* ===== verification/Userland_Proofs.thy ===== *)
theory Userland_Proofs
  imports Userland_Layout
begin

text \<open>
  The userland handoff: the order in which the bring-up milestones are reached and the
  permissions of process regions, in every reachable state.
\<close>

section \<open>Milestones\<close>

definition milestones :: "aegis_userland_handoff \<Rightarrow> bool" where
  "milestones h \<longleftrightarrow>
     (services_bound h \<longrightarrow> feature_catalogue_ready h) \<and>
     (handoff_ready h \<longrightarrow> services_bound h \<and> syscall_surface_ready h) \<and>
     (fake_process_descriptor_ready h \<longrightarrow> handoff_ready h) \<and>
     (user_stack_layout_ready h \<longrightarrow> fake_process_descriptor_ready h) \<and>
     (syscall_abi_kernel_safe_ready h \<longrightarrow> user_stack_layout_ready h) \<and>
     (pre_el0_ready h \<longrightarrow> syscall_abi_kernel_safe_ready h) \<and>
     (el0_transition_prepared h \<longrightarrow> pre_el0_ready h) \<and>
     (elf_pt_load_segments_copied h \<longrightarrow> pre_el0_ready h) \<and>
     (user_stack_argv_envp_ready h \<longrightarrow> elf_pt_load_segments_copied h) \<and>
     (multiple_process_descriptors_ready h \<longrightarrow> user_stack_argv_envp_ready h) \<and>
     (real_multiprocess_launch_ready h \<longrightarrow> multiple_process_descriptors_ready h) \<and>
     (syscall_expansion_ready h \<longrightarrow> real_multiprocess_launch_ready h) \<and>
     (first_user_process_launch_ready h \<longrightarrow> pre_el0_ready h) \<and>
     (post_exit_scheduler_handoff h \<longrightarrow> first_user_process_exited h)"

text \<open>No process region is both writable and executable.\<close>

definition wx_process :: "aegis_user_process_descriptor \<Rightarrow> bool" where
  "wx_process p \<longleftrightarrow> region_flags (up_text p) AND REGION_WRITE = 0 \<and> region_flags (up_heap p) AND REGION_EXEC = 0 \<and>
     region_flags (up_ipc p) AND REGION_EXEC = 0 \<and> region_flags (up_stack p) AND REGION_EXEC = 0"

definition userland_inv :: "userland \<Rightarrow> bool" where
  "userland_inv u \<longleftrightarrow> milestones (handoff u) \<and> (\<forall>p\<in>set (user_processes u). wx_process p)"

lemma update_simps [simp]:
  "handoff (update_process i f u) = handoff u" "handoff (update_feature k g u) = handoff u"
  "handoff (update_handoff g' u) = g' (handoff u)" "user_processes (update_handoff g' u) = user_processes u"
  "user_processes (update_feature k g u) = user_processes u"
  by (simp_all add: update_process_def update_feature_def update_handoff_def)

lemma inv_update_process:
  assumes "userland_inv u" and "\<And>p. wx_process p \<Longrightarrow> wx_process (f p)"
  shows "userland_inv (update_process i f u)"
proof (cases "i < length (user_processes u)")
  case True
  then have "wx_process (f (user_processes u ! i))" using assms by (simp add: userland_inv_def)
  then show ?thesis using assms(1) set_update_subset_insert [of "user_processes u" i]
    by (auto simp: userland_inv_def update_process_def)
next
  case False
  then show ?thesis using assms(1) by (simp add: userland_inv_def update_process_def list_update_beyond)
qed

lemma inv_update_process_at:
  "userland_inv u \<Longrightarrow> (wx_process (user_processes u ! i) \<Longrightarrow> wx_process q) \<Longrightarrow> userland_inv (update_process i (\<lambda>_. q) u)"
  using inv_update_process [of u "\<lambda>p. if wx_process (user_processes u ! i) then q else p" i]
  by (cases "wx_process (user_processes u ! i)"; cases "i < length (user_processes u)")
    (auto simp: update_process_def userland_inv_def list_update_beyond)

lemma inv_update_feature: "userland_inv u \<Longrightarrow> userland_inv (update_feature i f u)"
  by (simp add: userland_inv_def)

lemma inv_update_handoff: "userland_inv u \<Longrightarrow> milestones (f (handoff u)) \<Longrightarrow> userland_inv (update_handoff f u)"
  by (simp add: userland_inv_def)

lemma inv_next_id: "userland_inv (u\<lparr>next_feature_id := a\<rparr>) = userland_inv u" "userland_inv (u\<lparr>next_process_id := b\<rparr>) = userland_inv u"
  by (simp_all add: userland_inv_def)

lemma wx_layout: "wx_process (layout_of i p)"
  by (simp add: wx_process_def layout_of_def Let_def region_flag_consts)

lemma wx_zero: "wx_process zero_process"
  by (simp add: wx_process_def zero_process_def zero_region_def)

lemma inv_init: "userland_inv userland_handoff_init"
  by (simp add: userland_inv_def userland_handoff_init_def milestones_def zero_handoff_def wx_zero)

section \<open>Every operation keeps the invariant\<close>

lemma milestones_counts [simp]:
  "milestones (h\<lparr>feature_count := n\<rparr>) = milestones h" "milestones (h\<lparr>bound_count := n\<rparr>) = milestones h"
  "milestones (h\<lparr>ready_count := n\<rparr>) = milestones h" "milestones (h\<lparr>process_descriptor_count := n\<rparr>) = milestones h"
  by (simp_all add: milestones_def)

lemma inv_register_feature: "userland_inv u \<Longrightarrow> userland_inv (snd (register_feature a b c d u))"
  by (auto simp: register_feature_def Let_def inv_next_id intro!: inv_update_handoff inv_update_feature)
    (auto simp: userland_inv_def)

lemma inv_register_features: "userland_inv u \<Longrightarrow> userland_inv (snd (register_features fs u))"
proof (induction fs arbitrary: u)
  case (Cons f fs)
  obtain n s p fl where f: "f = (n, s, p, fl)" by (cases f)
  then show ?case
    using Cons.IH [of "snd (register_feature (Some n) (Some s) (Some p) fl u)"] inv_register_feature [OF Cons.prems]
    by (auto simp: Let_def split: prod.splits) (metis inv_register_feature Cons.prems snd_conv)+
qed simp

lemma bind_from_spec:
  "userland_inv u \<Longrightarrow> userland_inv (snd (bind_from sm i k u)) \<and>
     (fst (bind_from sm i k u) = AEGIS_OK \<longrightarrow>
        handoff (snd (bind_from sm i k u)) = (handoff u)\<lparr>bound_count := bound_count (handoff u) + of_nat k\<rparr>)"
proof (induction k arbitrary: i u)
  case (Suc k)
  let ?u = "\<lambda>svc. update_handoff (\<lambda>h. h\<lparr>bound_count := bound_count h + 1\<rparr>)
       (update_feature i (\<lambda>f. f\<lparr>uf_service_id := of_nat (svc_id svc), uf_state := USERLAND_BOUND\<rparr>) u)"
  have "userland_inv (?u svc)" for svc
    using Suc.prems by (intro inv_update_handoff inv_update_feature) (simp_all add: userland_inv_def)
  from Suc.IH [OF this, where i = "Suc i"] Suc.prems show ?case
    by (auto simp: Let_def add.assoc intro: inv_update_feature split: option.splits)
qed simp

lemma ready_from_spec:
  "userland_inv u \<Longrightarrow> userland_inv (snd (ready_from i k u)) \<and>
     (fst (ready_from i k u) = AEGIS_OK \<longrightarrow>
        handoff (snd (ready_from i k u)) = (handoff u)\<lparr>ready_count := ready_count (handoff u) + of_nat k\<rparr>)"
proof (induction k arbitrary: i u)
  case (Suc k)
  let ?u = "update_handoff (\<lambda>h. h\<lparr>ready_count := ready_count h + 1\<rparr>)
             (update_feature i (\<lambda>f. f\<lparr>uf_state := USERLAND_HANDOFF_READY\<rparr>) u)"
  have "userland_inv ?u"
    using Suc.prems by (intro inv_update_handoff inv_update_feature) (simp_all add: userland_inv_def)
  from Suc.IH [OF this, of "Suc i"] Suc.prems show ?case by (auto simp: add.assoc)
qed simp

lemma inv_bind: "userland_inv u \<Longrightarrow> feature_catalogue_ready (handoff u) \<Longrightarrow> userland_inv (snd (bind_registered_features sm u))"
proof -
  assume *: "userland_inv u" "feature_catalogue_ready (handoff u)"
  let ?u = "update_handoff (\<lambda>h. h\<lparr>bound_count := 0\<rparr>) u"
  have "userland_inv ?u" using * by (intro inv_update_handoff) (simp_all add: userland_inv_def)
  note b = bind_from_spec [OF this, of sm 0 "unat (feature_count (handoff u))"]
  obtain rc v where v: "bind_from sm 0 (unat (feature_count (handoff u))) ?u = (rc, v)" by force
  show ?thesis
  proof (cases "service_manager_is_prepared sm \<and> rc = AEGIS_OK")
    case True
    have "userland_inv v" "handoff v = (handoff u)\<lparr>bound_count := feature_count (handoff u)\<rparr>" using b v True by auto
    then have "userland_inv (update_handoff (\<lambda>h. h\<lparr>services_bound := (bound_count h = feature_count h)\<rparr>) v)"
      using *(2) by (intro inv_update_handoff) (auto simp: userland_inv_def milestones_def)
    then show ?thesis using True v by (simp add: bind_registered_features_def)
  next
    case False
    then show ?thesis using * b v by (auto simp: bind_registered_features_def)
  qed
qed

lemma inv_connect: "userland_inv u \<Longrightarrow> userland_inv (snd (userland_connect_builtin_features sm u))"
proof -
  assume u: "userland_inv u"
  obtain rc v where v: "register_features builtin_features u = (rc, v)" by force
  have "userland_inv v" using inv_register_features [OF u, of builtin_features] v by simp
  moreover from this have "userland_inv (update_handoff (\<lambda>h. h\<lparr>feature_catalogue_ready := True\<rparr>) v)"
    by (intro inv_update_handoff) (auto simp: userland_inv_def milestones_def)
  from inv_bind [OF this] have "userland_inv (snd (bind_registered_features sm (update_handoff (\<lambda>h. h\<lparr>feature_catalogue_ready := True\<rparr>) v)))" by simp
  ultimately show ?thesis using u v by (simp add: userland_connect_builtin_features_def)
qed

lemma inv_prepare_handoff: "userland_inv u \<Longrightarrow> userland_inv (snd (userland_prepare_handoff mounted sys u))"
proof -
  assume u: "userland_inv u"
  let ?u = "update_handoff (\<lambda>h. h\<lparr>syscall_surface_ready := True, ready_count := 0\<rparr>) u"
  have i: "userland_inv ?u" using u by (intro inv_update_handoff) (auto simp: userland_inv_def milestones_def)
  obtain rc v where v: "ready_from 0 (unat (feature_count (handoff u))) ?u = (rc, v)" by force
  note r = ready_from_spec [OF i, of 0 "unat (feature_count (handoff u))", unfolded v]
  show ?thesis
  proof (cases "rc = AEGIS_OK \<and> services_bound (handoff u)")
    case True
    then have "userland_inv v" "handoff v = (handoff u)\<lparr>syscall_surface_ready := True, ready_count := feature_count (handoff u)\<rparr>"
      using r by auto
    then have "userland_inv (update_handoff (\<lambda>h. h\<lparr>handoff_ready := (ready_count h = feature_count h)\<rparr>) v)"
      using True by (intro inv_update_handoff) (auto simp: userland_inv_def milestones_def)
    then show ?thesis using u v True r by (simp add: userland_prepare_handoff_def Let_def)
  next
    case False
    then show ?thesis using u v r by (auto simp: userland_prepare_handoff_def Let_def)
  qed
qed

text \<open>The updates of the handoff record, each under the guard that its operation tests.\<close>

lemma milestones_steps:
  "milestones h \<Longrightarrow> handoff_ready h \<Longrightarrow>
     milestones (h\<lparr>process_descriptor_count := n, fake_process_descriptor_ready := True\<rparr>)"
  "milestones h \<Longrightarrow> fake_process_descriptor_ready h \<Longrightarrow> milestones (h\<lparr>user_stack_layout_ready := True\<rparr>)"
  "milestones h \<Longrightarrow> user_stack_layout_ready h \<Longrightarrow> milestones (h\<lparr>syscall_abi_kernel_safe_ready := True\<rparr>)"
  "milestones h \<Longrightarrow> syscall_abi_kernel_safe_ready h \<Longrightarrow> milestones (h\<lparr>pre_el0_ready := True\<rparr>)"
  by (simp_all add: milestones_def)

lemma milestones_el0:
  "milestones h \<Longrightarrow> pre_el0_ready h \<Longrightarrow> milestones (h\<lparr>el0_probe_entry := entry, el0_probe_sp := user_sp, el0_entry_selected := True,
     el0_stack_selected := True, el0_svc_trap_seen := False, controlled_el0_transition_seen := False,
     el0_probe_syscall_nr := 0, el0_probe_arg0 := 0, el0_probe_elr := 0, el0_probe_spsr := 0, el0_transition_prepared := True\<rparr>)"
  "milestones h \<Longrightarrow> milestones (h\<lparr>el0_probe_syscall_nr := syscall_nr, el0_probe_arg0 := arg0,
       el0_probe_elr := elr, el0_probe_spsr := spsr, el0_svc_trap_seen := True, controlled_el0_transition_seen := True\<rparr>)"
  by (simp_all add: milestones_def)

lemma milestones_elf:
  "milestones h \<Longrightarrow> pre_el0_ready h \<Longrightarrow> milestones (h\<lparr>elf_loader_ready := True, elf_aegis_init_validated := True,
     first_user_process_loaded_from_elf := True, elf_pt_load_segments_copied := True,
     user_kernel_page_permissions_ready := True, elf_entry := b, elf_text_base := c, elf_text_size := d,
     elf_text_file_bytes_copied := f, elf_text_zero_bytes := g, elf_text_region_flags := e\<rparr>)"
  "milestones h \<Longrightarrow> elf_pt_load_segments_copied h \<Longrightarrow> milestones (h\<lparr>user_stack_argv_envp_ready := True, bootstrap_argc := a1,
     bootstrap_envc := a2, bootstrap_stack_pointer := a3, bootstrap_argv_user := a4, bootstrap_envp_user := a5, bootstrap_auxv_user := a6\<rparr>)"
  "milestones h \<Longrightarrow> user_stack_argv_envp_ready h \<Longrightarrow> milestones (h\<lparr>process_descriptor_count := count,
     secondary_process_descriptor_count := c1, launchable_process_descriptor_count := c2, multiple_process_descriptors_ready := True\<rparr>)"
  "milestones h \<Longrightarrow> multiple_process_descriptors_ready h \<Longrightarrow> milestones (h\<lparr>real_multiprocess_launch_ready := True,
     scheduled_user_process_count := c1, launchable_process_descriptor_count := c2\<rparr>)"
  "milestones h \<Longrightarrow> milestones (h\<lparr>spawn_request_count := c1, last_spawn_pid := c3\<rparr>)"
  "milestones h \<Longrightarrow> real_multiprocess_launch_ready h \<Longrightarrow> milestones (h\<lparr>syscall_expansion_ready := True, syscall_expanded_count := c1\<rparr>)"
  by (simp_all add: milestones_def)

lemma milestones_first:
  "milestones h \<Longrightarrow> pre_el0_ready h \<Longrightarrow> milestones (h\<lparr>first_user_process_descriptor_ready := True, first_user_process_launch_ready := True,
     first_user_process_seen := False, first_user_process_syscall_seen := False,
     first_user_process_syscall_return_ready := False, first_user_process_continued_after_syscall := False,
     first_user_process_exit_requested := False, first_user_process_exited := False,
     post_exit_scheduler_handoff := False, scheduler_handoff_no_runnable_user := False,
     first_user_process_entry := entry, first_user_process_sp := user_sp, first_user_process_syscall_nr := 0,
     first_user_process_arg0 := 0, first_user_process_elr := 0, first_user_process_spsr := 0,
     first_user_process_syscall_return_value := 0, first_user_process_continuation_syscall_nr := 0,
     first_user_process_continuation_arg0 := 0, first_user_process_continuation_elr := 0,
     first_user_process_continuation_spsr := 0, first_user_process_exit_syscall_nr := 0,
     first_user_process_exit_code := 0, first_user_process_exit_elr := 0, first_user_process_exit_spsr := 0,
     first_user_process_pid := pid, el0_probe_entry := entry, el0_probe_sp := user_sp,
     el0_entry_selected := True, el0_stack_selected := True, el0_svc_trap_seen := False,
     controlled_el0_transition_seen := False, el0_transition_prepared := True\<rparr>)"
  "milestones h \<Longrightarrow> milestones (h\<lparr>first_user_process_syscall_nr := syscall_nr,
       first_user_process_arg0 := arg0, first_user_process_elr := elr, first_user_process_spsr := spsr,
       first_user_process_syscall_return_value := ret, first_user_process_seen := True, first_user_process_syscall_seen := True,
       first_user_process_launch_ready := False, first_user_process_syscall_return_ready := True,
       el0_probe_syscall_nr := syscall_nr, el0_probe_arg0 := arg0, el0_probe_elr := elr, el0_probe_spsr := spsr,
       el0_svc_trap_seen := True, controlled_el0_transition_seen := True\<rparr>)"
  "milestones h \<Longrightarrow> milestones (h\<lparr>first_user_process_continuation_syscall_nr := syscall_nr, first_user_process_continuation_arg0 := arg0,
       first_user_process_continuation_elr := elr, first_user_process_continuation_spsr := spsr,
       first_user_process_continued_after_syscall := True\<rparr>)"
  "milestones h \<Longrightarrow> milestones (h\<lparr>first_user_process_exit_syscall_nr := syscall_nr,
       first_user_process_exit_code := code, first_user_process_exit_elr := elr, first_user_process_exit_spsr := spsr,
       first_user_process_exit_requested := True, first_user_process_exited := True\<rparr>)"
  "milestones h \<Longrightarrow> first_user_process_exited h \<Longrightarrow>
     milestones (h\<lparr>post_exit_scheduler_handoff := True, scheduler_handoff_no_runnable_user := True\<rparr>)"
  by (simp_all add: milestones_def)

lemma inv_milestones: "userland_inv u \<Longrightarrow> milestones (handoff u)"
  by (simp add: userland_inv_def)

lemma wx_same: "wx_process (p\<lparr>up_state := st\<rparr>) = wx_process p" "wx_process (p\<lparr>up_entry := e\<rparr>) = wx_process p"
  "wx_process (p\<lparr>up_initial_sp := sp\<rparr>) = wx_process p" "wx_process (place_bootstrap p) = wx_process p"
  "wx_process (p\<lparr>up_argc := a, up_envc := b, up_argv := c, up_envp := d\<rparr>) = wx_process p"
  "wx_process (p\<lparr>up_entry := e, up_initial_sp := sp, up_state := st\<rparr>) = wx_process p"
  "wx_process ((place_bootstrap p)\<lparr>up_state := st\<rparr>) = wx_process p"
  by (simp_all add: wx_process_def place_bootstrap_def Let_def)

lemmas inv_intros = inv_update_handoff inv_update_process inv_update_feature inv_milestones
lemmas milestone_intros = milestones_steps milestones_el0 milestones_elf milestones_first

lemma inv_create_first: "userland_inv u \<Longrightarrow> userland_inv (snd (create_fake_first_process_descriptor u))"
  unfolding create_fake_first_process_descriptor_def Let_def
  by (auto split: option.splits intro!: inv_intros milestone_intros simp: inv_next_id)
    (simp_all add: wx_process_def zero_process_def zero_region_def)

lemma inv_layout: "userland_inv u \<Longrightarrow> userland_inv (snd (prove_user_stack_and_address_layout u))"
proof -
  assume u: "userland_inv u"
  obtain rc p where p: "assign_process_layout 0 (user_processes u ! 0) = (rc, p)" by force
  then have "wx_process p" using wx_layout by (auto simp: assign_process_layout_def Let_def)
  then have i: "userland_inv (update_process 0 (\<lambda>_. p) u)" using u by (intro inv_update_process)
  have "userland_inv (update_handoff (\<lambda>h. h\<lparr>user_stack_layout_ready := True\<rparr>)
      (update_process 0 (\<lambda>p. p\<lparr>up_state := LAYOUT_READY\<rparr>) (update_process 0 (\<lambda>_. p) u)))" if "fake_process_descriptor_ready (handoff u)"
    using that u by (intro inv_update_handoff inv_update_process [OF i]) (simp_all add: wx_same milestones_steps inv_milestones)
  then show ?thesis using u i p by (auto simp: prove_user_stack_and_address_layout_def Let_def)
qed

lemma inv_abi: "userland_inv u \<Longrightarrow> userland_inv (snd (prove_syscall_abi_kernel_safe sys u))"
  unfolding prove_syscall_abi_kernel_safe_def Let_def
  by (auto simp: wx_same split: if_splits intro!: inv_intros milestone_intros)

lemma abi_ready: "fst (prove_syscall_abi_kernel_safe sys u) = AEGIS_OK \<Longrightarrow>
    syscall_abi_kernel_safe_ready (handoff (snd (prove_syscall_abi_kernel_safe sys u)))"
  by (auto simp: prove_syscall_abi_kernel_safe_def Let_def split: if_splits)

lemma inv_pre_el0: "userland_inv u \<Longrightarrow> userland_inv (snd (userland_prepare_pre_el0_contract sys u))"
proof -
  assume u: "userland_inv u"
  obtain r1 u1 where 1: "create_fake_first_process_descriptor u = (r1, u1)" by force
  obtain r2 u2 where 2: "prove_user_stack_and_address_layout u1 = (r2, u2)" by force
  obtain r3 u3 where 3: "prove_syscall_abi_kernel_safe sys u2 = (r3, u3)" by force
  have i: "userland_inv u1" "userland_inv u2" "userland_inv u3"
    using inv_create_first [OF u] inv_layout [of u1] inv_abi [of u2 sys] 1 2 3 by auto
  have "userland_inv (update_handoff (\<lambda>h. h\<lparr>pre_el0_ready := True\<rparr>) u3)" if "r3 = AEGIS_OK"
    using i(3) abi_ready [of sys u2] 3 that by (intro inv_intros milestone_intros) (simp_all add: inv_milestones)
  then show ?thesis using u i 1 2 3 by (auto simp: userland_prepare_pre_el0_contract_def)
qed

lemma inv_el0_transition: "userland_inv u \<Longrightarrow> userland_inv (snd (userland_prepare_controlled_el0_transition e sp u))"
  unfolding userland_prepare_controlled_el0_transition_def Let_def
  by (auto simp: wx_same split: if_splits intro!: inv_intros milestone_intros)

lemma inv_mark: "userland_inv u \<Longrightarrow> userland_inv (mark_first_process st u)"
  by (auto simp: mark_first_process_def wx_same intro: inv_update_process)

lemma inv_svc_trap: "userland_inv u \<Longrightarrow> userland_inv (userland_mark_el0_svc_trap a b c d u)"
  unfolding userland_mark_el0_svc_trap_def by (intro inv_mark inv_intros milestone_intros)

lemma inv_bind_elf: "userland_inv u \<Longrightarrow> userland_inv (snd (userland_bind_first_process_to_loaded_elf a b c d e f g u))"
  unfolding userland_bind_first_process_to_loaded_elf_def Let_def
  by (auto split: if_splits intro!: inv_intros milestone_intros) (simp_all add: wx_process_def)

lemma inv_bootstrap: "userland_inv u \<Longrightarrow> userland_inv (snd (userland_prepare_user_stack_bootstrap u))"
  unfolding userland_prepare_user_stack_bootstrap_def Let_def
  by (auto simp: wx_same split: if_splits intro!: inv_intros milestone_intros)

lemma inv_secondary: "userland_inv u \<Longrightarrow> userland_inv (snd (create_secondary_process_descriptor n i u))"
proof -
  assume u: "userland_inv u"
  have "wx_process (snd (assign_process_layout i p))" for p using wx_layout by (simp add: assign_process_layout_def Let_def)
  then show ?thesis using u unfolding create_secondary_process_descriptor_def Let_def
    by (auto split: option.splits prod.splits intro!: inv_update_process simp: inv_next_id wx_same) (metis snd_conv)+
qed

lemma inv_secondaries: "userland_inv u \<Longrightarrow> userland_inv (snd (snd (create_secondaries ns c u))) \<and>
    handoff (snd (snd (create_secondaries ns c u))) = handoff u"
proof (induction ns arbitrary: c u)
  case (Cons n ns)
  have "handoff (snd (create_secondary_process_descriptor (Some n) c u)) = handoff u"
    by (auto simp: create_secondary_process_descriptor_def Let_def split: option.splits prod.splits)
  then show ?case
    using Cons.IH [OF inv_secondary [OF Cons.prems, of "Some n" c], of "c + 1"] inv_secondary [OF Cons.prems, of "Some n" c]
    by (auto simp: Let_def split: prod.splits)
qed simp

lemma inv_multiple: "userland_inv u \<Longrightarrow> userland_inv (snd (userland_create_multiple_process_descriptors u))"
proof -
  assume u: "userland_inv u"
  obtain rc c v where v: "create_secondaries [''aegisd'', ''routerd'', ''rustmyadmin''] 1 u = (rc, c, v)" by (metis prod_cases3)
  have "userland_inv v" "handoff v = handoff u"
    using inv_secondaries [OF u, of "[''aegisd'', ''routerd'', ''rustmyadmin'']" 1] v by auto
  then show ?thesis using u v unfolding userland_create_multiple_process_descriptors_def
    by (auto intro!: inv_update_handoff milestone_intros inv_milestones)
qed

lemma wx_bootstrap: "wx_process p \<Longrightarrow> wx_process (snd (prepare_descriptor_bootstrap m p))"
  by (auto simp: prepare_descriptor_bootstrap_def Let_def wx_same)

lemma inv_launch: "userland_inv u \<Longrightarrow> userland_inv (snd (snd (launch_from i k c u))) \<and>
    handoff (snd (snd (launch_from i k c u))) = handoff u"
proof (induction k arbitrary: i c u)
  case (Suc k)
  let ?p = "user_processes u ! i"
  obtain rc p where p: "(if i = 0 then (AEGIS_OK, ?p) else prepare_descriptor_bootstrap ''--service'' ?p) = (rc, p)" by force
  have 1: "userland_inv (update_process i (\<lambda>_. p) u)" "userland_inv (update_process i (\<lambda>_. p\<lparr>up_state := MULTIPROCESS_LAUNCH_READY\<rparr>) u)"
  proof -
    have "wx_process ?p \<Longrightarrow> wx_process p" using p wx_bootstrap [of ?p "''--service''"] by (auto split: if_splits)
    then show "userland_inv (update_process i (\<lambda>_. p) u)" "userland_inv (update_process i (\<lambda>_. p\<lparr>up_state := MULTIPROCESS_LAUNCH_READY\<rparr>) u)"
      using inv_update_process_at [OF Suc.prems] wx_same(1) by auto
  qed
  show ?case using Suc.prems 1 Suc.IH [OF 1(2), of "Suc i" "c + 1"] by (simp add: p Let_def)
qed simp

lemma inv_launch_path: "userland_inv u \<Longrightarrow> userland_inv (snd (userland_prepare_real_multiprocess_launch_path u))"
proof -
  assume u: "userland_inv u"
  obtain rc c v where v: "launch_from 0 (unat (process_descriptor_count (handoff u))) 0 u = (rc, c, v)" by (metis prod_cases3)
  have "userland_inv v" "handoff v = handoff u" using inv_launch [OF u, of 0 "unat (process_descriptor_count (handoff u))" 0] v by auto
  then show ?thesis using u v unfolding userland_prepare_real_multiprocess_launch_path_def
    by (auto intro!: inv_update_handoff milestone_intros inv_milestones)
qed

lemma inv_request: "userland_inv u \<Longrightarrow> userland_inv (snd (userland_request_process_launch_by_path p u))"
  unfolding userland_request_process_launch_by_path_def Let_def
  by (auto split: option.splits intro!: inv_update_handoff milestone_intros inv_milestones)

lemma inv_expansion: "userland_inv u \<Longrightarrow> userland_inv (snd (userland_prepare_syscall_expansion u))"
  unfolding userland_prepare_syscall_expansion_def by (auto intro!: inv_update_handoff milestone_intros inv_milestones)

lemma inv_expansion_test: "userland_inv u \<Longrightarrow> userland_inv (snd (userland_syscall_expansion_selftest sys u))"
  unfolding userland_syscall_expansion_selftest_def Let_def
  using inv_request [of u "Some ''/sbin/routerd''"] by (auto split: prod.splits)

lemma inv_first: "userland_inv u \<Longrightarrow> userland_inv (snd (userland_prepare_first_tiny_user_process e sp u))"
  unfolding userland_prepare_first_tiny_user_process_def Let_def
  by (auto simp: wx_same split: if_splits intro!: inv_intros milestone_intros)

lemma inv_marks:
  assumes "userland_inv u"
  shows "userland_inv (userland_mark_first_user_process_syscall_return a b r c d u)"
    "userland_inv (userland_mark_first_user_process_continued_after_syscall a b c d u)"
    "userland_inv (userland_mark_first_user_process_exit a b c d u)" "userland_inv (userland_mark_post_exit_scheduler_handoff u)"
  unfolding userland_mark_first_user_process_syscall_return_def userland_mark_first_user_process_continued_after_syscall_def
    userland_mark_first_user_process_exit_def userland_mark_post_exit_scheduler_handoff_def
  using assms by (auto intro!: inv_mark inv_update_handoff milestone_intros inv_milestones)

lemma inv_set_state: "userland_inv u \<Longrightarrow> userland_inv (set_process_state pid n st u)"
  by (auto simp: set_process_state_def wx_same split: option.splits intro: inv_update_process)

lemma inv_native:
  assumes "userland_inv u"
  shows "userland_inv (snd (userland_mark_feature_native_running n pid u))"
    "userland_inv (snd (userland_mark_feature_native_exited n pid c u))"
  using assms unfolding userland_mark_feature_native_running_def userland_mark_feature_native_exited_def
  by (auto split: option.splits intro!: inv_set_state inv_update_feature)

lemma inv_spawn: "userland_inv u \<Longrightarrow> userland_inv (snd (userland_note_native_process_spawn a b c d e f g h u))"
  unfolding userland_note_native_process_spawn_def Let_def
  by (auto split: option.splits intro!: inv_update_process inv_update_feature inv_update_handoff)
    (simp_all add: wx_process_def native_text_flags_def native_stack_flags_def region_flag_consts zero_process_def
      zero_region_def inv_milestones)

section \<open>Reachable states\<close>

text \<open>One step is a call of one of the operations that change the state, whatever its arguments and its result.\<close>

inductive userland_step :: "userland \<Rightarrow> userland \<Rightarrow> bool" where
  step_connect: "userland_step u (snd (userland_connect_builtin_features sm u))"
| step_handoff: "userland_step u (snd (userland_prepare_handoff mounted sys u))"
| step_pre_el0: "userland_step u (snd (userland_prepare_pre_el0_contract sys u))"
| step_el0: "userland_step u (snd (userland_prepare_controlled_el0_transition e sp u))"
| step_svc: "userland_step u (userland_mark_el0_svc_trap nr a elr spsr u)"
| step_bind: "userland_step u (snd (userland_bind_first_process_to_loaded_elf path e b n fl c z u))"
| step_bind_elf: "userland_step u (snd (userland_bind_first_process_to_elf path e b n u))"
| step_stack: "userland_step u (snd (userland_prepare_user_stack_bootstrap u))"
| step_multiple: "userland_step u (snd (userland_create_multiple_process_descriptors u))"
| step_launch: "userland_step u (snd (userland_prepare_real_multiprocess_launch_path u))"
| step_request: "userland_step u (snd (userland_request_process_launch_by_path path u))"
| step_expansion: "userland_step u (snd (userland_prepare_syscall_expansion u))"
| step_expansion_test: "userland_step u (snd (userland_syscall_expansion_selftest sys u))"
| step_first: "userland_step u (snd (userland_prepare_first_tiny_user_process e sp u))"
| step_return: "userland_step u (userland_mark_first_user_process_syscall_return nr a r elr spsr u)"
| step_syscall: "userland_step u (userland_mark_first_user_process_syscall nr a elr spsr u)"
| step_continued: "userland_step u (userland_mark_first_user_process_continued_after_syscall nr a elr spsr u)"
| step_exit: "userland_step u (userland_mark_first_user_process_exit nr a elr spsr u)"
| step_post_exit: "userland_step u (userland_mark_post_exit_scheduler_handoff u)"
| step_spawn: "userland_step u (snd (userland_note_native_process_spawn name path pid e b n sb sn u))"
| step_running: "userland_step u (snd (userland_mark_feature_native_running name pid u))"
| step_exited: "userland_step u (snd (userland_mark_feature_native_exited name pid code u))"

inductive userland_reachable :: "userland \<Rightarrow> bool" where
  reach_init: "userland_reachable userland_handoff_init"
| reach_step: "userland_reachable u \<Longrightarrow> userland_step u v \<Longrightarrow> userland_reachable v"

lemmas inv_operations = inv_connect inv_prepare_handoff inv_pre_el0 inv_el0_transition inv_svc_trap inv_bind_elf inv_bootstrap
  inv_multiple inv_launch_path inv_request inv_expansion inv_expansion_test inv_first inv_marks inv_native inv_spawn

lemma inv_userland_step: "userland_step u v \<Longrightarrow> userland_inv u \<Longrightarrow> userland_inv v"
  by (induction rule: userland_step.induct)
    (simp_all add: inv_operations userland_bind_first_process_to_elf_def userland_mark_first_user_process_syscall_def)

text \<open>
  C17. From initialisation on, after any sequence of userland operations with any arguments, the bring-up milestones
  are only set in their order (no process image before the pre-EL0 contract, no stack before the image, no launch
  before the descriptors, and so on), and no process descriptor has a writable text or an executable heap, IPC or
  stack region.
\<close>

theorem userland_reachable_safe:
  "userland_reachable u \<Longrightarrow> milestones (handoff u) \<and> (\<forall>p\<in>set (user_processes u). wx_process p)"
proof (induction rule: userland_reachable.induct)
  case reach_init
  show ?case using inv_init by (simp add: userland_inv_def)
next
  case (reach_step u v)
  then show ?case using inv_userland_step [of u v] by (simp add: userland_inv_def)
qed

lemma userland_reachable_safe_witness:
  "milestones (handoff (snd (userland_note_native_process_spawn (Some ''routerd'') (Some ''/sbin/routerd'') 7 0x400000 0x400000
     0x1000 0x7ff0000 0x1000 (snd (userland_connect_builtin_features service_manager_init userland_handoff_init)))))"
  using userland_reachable_safe [OF reach_step [OF reach_step [OF reach_init step_connect] step_spawn]] by blast

end
