(* ===== verification/Capabilities.thy ===== *)
theory Capabilities
  imports Aegis_Prelude
begin

text \<open>
  Capability tokens (kernel/ipc/capability.c): a table that only grows, with delegation by intersection of rights
  and revocation.  No sequence of delegations and revocations amplifies the rights on an owner.
\<close>

definition MAX_CAPS :: nat where "MAX_CAPS = 4096"
definition NULL_CAP :: u64 where "NULL_CAP = 0"

record capability =
  cap_token :: u64
  cap_owner :: u32
  cap_target :: u32
  cap_rights_of :: u64
  cap_valid :: bool

record caps =
  cap_table :: "capability list"
  next_cap_idx :: u32

definition caps_start :: caps where
  "caps_start = \<lparr>cap_table = replicate MAX_CAPS \<lparr>cap_token = 0, cap_owner = 0, cap_target = 0, cap_rights_of = 0, cap_valid = False\<rparr>,
     next_cap_idx = 1\<rparr>"

section \<open>Operations\<close>

definition cap_create :: "u32 \<Rightarrow> u32 \<Rightarrow> u64 \<Rightarrow> caps \<Rightarrow> u64 \<times> caps" where
  "cap_create owner target rights s =
     (if MAX_CAPS \<le> unat (next_cap_idx s) then (NULL_CAP, s)
      else (ucast (next_cap_idx s),
            s\<lparr>cap_table := (cap_table s)[unat (next_cap_idx s) := \<lparr>cap_token = ucast (next_cap_idx s), cap_owner = owner,
                cap_target = target, cap_rights_of = rights, cap_valid = True\<rparr>], next_cap_idx := next_cap_idx s + 1\<rparr>))"

definition cap_is_valid :: "u64 \<Rightarrow> caps \<Rightarrow> bool" where
  "cap_is_valid tok s \<longleftrightarrow> tok \<noteq> 0 \<and> unat tok < MAX_CAPS \<and> cap_valid (cap_table s ! unat tok)"

definition cap_owner_tid :: "u64 \<Rightarrow> caps \<Rightarrow> u32" where
  "cap_owner_tid tok s =
     (if tok = 0 \<or> MAX_CAPS \<le> unat tok \<or> \<not> cap_valid (cap_table s ! unat tok) then 0 else cap_owner (cap_table s ! unat tok))"

definition cap_rights :: "u64 \<Rightarrow> caps \<Rightarrow> u64" where
  "cap_rights tok s =
     (if tok = 0 \<or> MAX_CAPS \<le> unat tok \<or> \<not> cap_valid (cap_table s ! unat tok) then 0 else cap_rights_of (cap_table s ! unat tok))"

definition cap_delegate :: "u64 \<Rightarrow> u32 \<Rightarrow> u64 \<Rightarrow> caps \<Rightarrow> int \<times> caps" where
  "cap_delegate tok target rights s =
     (if tok = 0 \<or> MAX_CAPS \<le> unat tok then (AEGIS_EINVAL, s)
      else let src = cap_table s ! unat tok
           in if \<not> cap_valid src then (AEGIS_EINVAL, s)
              else let (new_tok, s1) = cap_create (cap_owner src) target (rights AND cap_rights_of src) s
                   in if new_tok = NULL_CAP then (AEGIS_ENOMEM, s1) else (sint new_tok, s1))"

definition cap_revoke :: "u64 \<Rightarrow> caps \<Rightarrow> int \<times> caps" where
  "cap_revoke tok s =
     (if tok = 0 \<or> MAX_CAPS \<le> unat tok then (AEGIS_EINVAL, s)
      else (AEGIS_OK, s\<lparr>cap_table := (cap_table s)[unat tok := (cap_table s ! unat tok)\<lparr>cap_valid := False\<rparr>]\<rparr>))"

section \<open>Rights never grow\<close>

datatype cap_op = Delegate u64 u32 u64 | Revoke u64

fun cap_run :: "cap_op list \<Rightarrow> caps \<Rightarrow> caps" where
  "cap_run [] s = s"
| "cap_run (Delegate tok target rights # os) s = cap_run os (snd (cap_delegate tok target rights s))"
| "cap_run (Revoke tok # os) s = cap_run os (snd (cap_revoke tok s))"

definition caps_ok :: "caps \<Rightarrow> bool" where
  "caps_ok s \<longleftrightarrow> length (cap_table s) = MAX_CAPS \<and> 0 < unat (next_cap_idx s) \<and> unat (next_cap_idx s) \<le> MAX_CAPS \<and>
     (\<forall>i<MAX_CAPS. cap_valid (cap_table s ! i) \<longrightarrow> 0 < i \<and> i < unat (next_cap_idx s))"

text \<open>Every valid capability is covered by a valid one of the same owner in the earlier state.\<close>

definition covered :: "caps \<Rightarrow> caps \<Rightarrow> bool" where
  "covered s0 s \<longleftrightarrow> (\<forall>i<MAX_CAPS. cap_valid (cap_table s ! i) \<longrightarrow>
     (\<exists>j<MAX_CAPS. cap_valid (cap_table s0 ! j) \<and> cap_owner (cap_table s0 ! j) = cap_owner (cap_table s ! i) \<and>
        cap_rights_of (cap_table s ! i) AND cap_rights_of (cap_table s0 ! j) = cap_rights_of (cap_table s ! i)))"

lemma and_within_trans: "(x::u64) AND y = x \<Longrightarrow> y AND z = y \<Longrightarrow> x AND z = x"
  by (metis and.assoc)

lemma covered_trans:
  assumes "covered a b" and "covered b c"
  shows "covered a c"
  unfolding covered_def
proof (intro allI impI)
  fix i assume "i < MAX_CAPS" "cap_valid (cap_table c ! i)"
  then obtain j where j: "j < MAX_CAPS" "cap_valid (cap_table b ! j)" "cap_owner (cap_table b ! j) = cap_owner (cap_table c ! i)"
    "cap_rights_of (cap_table c ! i) AND cap_rights_of (cap_table b ! j) = cap_rights_of (cap_table c ! i)"
    using assms(2) unfolding covered_def by blast
  then obtain k where "k < MAX_CAPS" "cap_valid (cap_table a ! k)" "cap_owner (cap_table a ! k) = cap_owner (cap_table b ! j)"
    "cap_rights_of (cap_table b ! j) AND cap_rights_of (cap_table a ! k) = cap_rights_of (cap_table b ! j)"
    using assms(1) unfolding covered_def by blast
  then show "\<exists>k<MAX_CAPS. cap_valid (cap_table a ! k) \<and> cap_owner (cap_table a ! k) = cap_owner (cap_table c ! i) \<and>
      cap_rights_of (cap_table c ! i) AND cap_rights_of (cap_table a ! k) = cap_rights_of (cap_table c ! i)"
    using j and_within_trans [OF j(4)] by (intro exI [of _ k]) simp
qed

lemma covered_refl: "covered s s"
  unfolding covered_def by (metis and.idem)

lemma create_ok:
  assumes "caps_ok s"
  shows "caps_ok (snd (cap_create ow tg r s))"
proof (cases "MAX_CAPS \<le> unat (next_cap_idx s)")
  case False
  then have "unat (next_cap_idx s + 1) = Suc (unat (next_cap_idx s))"
    using unat_inc [of "next_cap_idx s"] by (simp add: MAX_CAPS_def)
  then show ?thesis using assms False by (auto simp: caps_ok_def cap_create_def nth_list_update less_Suc_eq)
qed (use assms in \<open>simp add: cap_create_def\<close>)

lemma create_covered:
  assumes "caps_ok s" and "j < MAX_CAPS" and "cap_valid (cap_table s ! j)"
  shows "covered s (snd (cap_create (cap_owner (cap_table s ! j)) tg (r AND cap_rights_of (cap_table s ! j)) s))"
proof (cases "MAX_CAPS \<le> unat (next_cap_idx s)")
  case False
  have l: "length (cap_table s) = MAX_CAPS" using assms(1) by (simp add: caps_ok_def)
  show ?thesis unfolding covered_def
  proof (intro allI impI)
    fix i
    assume i: "i < MAX_CAPS"
      "cap_valid (cap_table (snd (cap_create (cap_owner (cap_table s ! j)) tg (r AND cap_rights_of (cap_table s ! j)) s)) ! i)"
    show "\<exists>k<MAX_CAPS. cap_valid (cap_table s ! k) \<and>
        cap_owner (cap_table s ! k) = cap_owner (cap_table (snd (cap_create (cap_owner (cap_table s ! j)) tg
            (r AND cap_rights_of (cap_table s ! j)) s)) ! i) \<and>
        cap_rights_of (cap_table (snd (cap_create (cap_owner (cap_table s ! j)) tg (r AND cap_rights_of (cap_table s ! j)) s)) ! i) AND
          cap_rights_of (cap_table s ! k) =
        cap_rights_of (cap_table (snd (cap_create (cap_owner (cap_table s ! j)) tg (r AND cap_rights_of (cap_table s ! j)) s)) ! i)"
    proof (cases "i = unat (next_cap_idx s)")
      case True
      then show ?thesis using assms(2,3) False l i(1) by (intro exI [of _ j]) (simp add: cap_create_def and.assoc)
    next
      case neq: False
      then show ?thesis using i False by (intro exI [of _ i]) (simp add: cap_create_def)
    qed
  qed
qed (use covered_refl in \<open>simp add: cap_create_def\<close>)

lemma delegate_ok: "caps_ok s \<Longrightarrow> caps_ok (snd (cap_delegate tok tg r s)) \<and> covered s (snd (cap_delegate tok tg r s))"
proof -
  assume s: "caps_ok s"
  let ?c = "cap_table s ! unat tok"
  obtain t s1 where c: "cap_create (cap_owner ?c) tg (r AND cap_rights_of ?c) s = (t, s1)" by force
  show ?thesis
    using s covered_refl [of s] create_ok [OF s, of "cap_owner ?c" tg "r AND cap_rights_of ?c"] create_covered [OF s, of "unat tok" tg r] c
    by (auto simp: cap_delegate_def Let_def)
qed

lemma revoke_ok:
  assumes "caps_ok s"
  shows "caps_ok (snd (cap_revoke tok s)) \<and> covered s (snd (cap_revoke tok s))"
proof (cases "tok = 0 \<or> MAX_CAPS \<le> unat tok")
  case False
  have "cap_table (snd (cap_revoke tok s)) ! i = cap_table s ! i" if "cap_valid (cap_table (snd (cap_revoke tok s)) ! i)" for i
    using that False assms by (cases "i = unat tok") (auto simp: cap_revoke_def caps_ok_def)
  then have "covered s (snd (cap_revoke tok s))" unfolding covered_def by (metis and.idem)
  moreover have "caps_ok (snd (cap_revoke tok s))"
    using assms False by (auto simp: caps_ok_def cap_revoke_def nth_list_update)
  ultimately show ?thesis by blast
qed (use assms covered_refl in \<open>auto simp: cap_revoke_def\<close>)

lemma caps_start_ok: "caps_ok caps_start"
  by (simp add: caps_ok_def caps_start_def MAX_CAPS_def)

section \<open>Properties\<close>

text \<open>
  C21. Delegation never amplifies: after any sequence of \<open>cap_delegate\<close> and \<open>cap_revoke\<close> calls, whatever their
  arguments, every valid capability has rights within those of some capability on the same owner that was valid before.
\<close>

theorem cap_no_amplification:
  "caps_ok s \<Longrightarrow> caps_ok (cap_run os s) \<and> covered s (cap_run os s)"
proof (induction os s rule: cap_run.induct)
  case (2 tok tg r os s)
  then show ?case using delegate_ok [of s tok tg r] covered_trans [of s "snd (cap_delegate tok tg r s)"] by simp
next
  case (3 tok os s)
  then show ?case using revoke_ok [of s tok] covered_trans [of s "snd (cap_revoke tok s)"] by simp
qed (simp add: covered_refl)

lemma cap_no_amplification_witness:
  "covered (snd (cap_create 1 2 7 caps_start)) (cap_run [Delegate 1 3 5, Revoke 1] (snd (cap_create 1 2 7 caps_start)))"
  by (rule cap_no_amplification [OF create_ok [OF caps_start_ok], THEN conjunct2])

end
