(* ===== verification/Messages.thy ===== *)
theory Messages
  imports Aegis_Prelude
begin

text \<open>
  Message queues (kernel/ipc/message.c): a table of rings of fixed depth, found by their
  channel.  The rings are shown to implement first-in first-out queues of messages, one per
  channel, and the contract is stated as a locale that the services above rest on.
\<close>

definition MSG_MAX_PAYLOAD :: nat where "MSG_MAX_PAYLOAD = 256"
definition MSG_QUEUE_DEPTH :: nat where "MSG_QUEUE_DEPTH = 64"
definition MAX_MSG_QUEUES :: nat where "MAX_MSG_QUEUES = 1024"

lemmas message_consts = MSG_MAX_PAYLOAD_def MSG_QUEUE_DEPTH_def MAX_MSG_QUEUES_def

record aegis_msg =
  sender_tid :: u32
  receiver_tid :: u32
  tag :: u64
  payload_len :: u64
  payload :: "u8 list"

record msg_queue =
  msgs :: "aegis_msg list"
  q_head :: u32
  q_tail :: u32
  q_count :: u32
  q_channel_id :: u32
  q_active :: bool

type_synonym queues = "msg_queue list"

text \<open>The zeroed static array.\<close>

definition zero_msg :: aegis_msg where
  "zero_msg = \<lparr>sender_tid = 0, receiver_tid = 0, tag = 0, payload_len = 0, payload = replicate MSG_MAX_PAYLOAD 0\<rparr>"

definition queues_start :: queues where
  "queues_start = replicate MAX_MSG_QUEUES
     \<lparr>msgs = replicate MSG_QUEUE_DEPTH zero_msg, q_head = 0, q_tail = 0, q_count = 0, q_channel_id = 0, q_active = False\<rparr>"

section \<open>Operations\<close>

definition ipc_init :: "queues \<Rightarrow> queues" where
  "ipc_init = map (\<lambda>q. q\<lparr>q_active := False, q_head := 0, q_tail := 0, q_count := 0\<rparr>)"

definition open_queue :: "u32 \<Rightarrow> msg_queue \<Rightarrow> msg_queue" where
  "open_queue channel q = q\<lparr>q_active := True, q_channel_id := channel, q_head := 0, q_tail := 0, q_count := 0\<rparr>"

definition ipc_create_queue :: "u32 \<Rightarrow> queues \<Rightarrow> int \<times> queues" where
  "ipc_create_queue channel qs =
     (case scan (\<lambda>q. \<not> q_active q) qs of
        None \<Rightarrow> (AEGIS_ENOMEM, qs)
      | Some i \<Rightarrow> (int i, qs[i := open_queue channel (qs ! i)]))"

definition queue_for :: "u32 \<Rightarrow> queues \<Rightarrow> nat option" where
  "queue_for channel = scan (\<lambda>q. q_active q \<and> q_channel_id q = channel)"

text \<open>
  The source buffer is a view of memory from the pointer on, or NULL; \<open>tid\<close> is the thread
  of \<open>scheduler_current\<close>, or 0 when no task runs.
\<close>

definition enqueue :: "u32 \<Rightarrow> (nat \<Rightarrow> u8) \<Rightarrow> u64 \<Rightarrow> msg_queue \<Rightarrow> msg_queue" where
  "enqueue tid src len q =
     (let m = msgs q ! unat (q_tail q);
          m' = m\<lparr>sender_tid := tid, receiver_tid := 0, tag := 0, payload_len := len,
                 payload := map src [0..<unat len] @ drop (unat len) (payload m)\<rparr>
      in q\<lparr>msgs := (msgs q)[unat (q_tail q) := m'], q_tail := (q_tail q + 1) mod of_nat MSG_QUEUE_DEPTH,
           q_count := q_count q + 1\<rparr>)"

definition ipc_send :: "u32 \<Rightarrow> u32 \<Rightarrow> (nat \<Rightarrow> u8) option \<Rightarrow> u64 \<Rightarrow> queues \<Rightarrow> int \<times> queues" where
  "ipc_send tid channel data len qs =
     (if data = None \<or> len = 0 \<or> MSG_MAX_PAYLOAD < unat len then (AEGIS_EINVAL, qs)
      else case queue_for channel qs of
        None \<Rightarrow> (AEGIS_ENOENT, qs)
      | Some i \<Rightarrow> if MSG_QUEUE_DEPTH \<le> unat (q_count (qs ! i)) then (AEGIS_ENOMEM, qs)
                 else (AEGIS_OK, qs[i := enqueue tid (the data) len (qs ! i)]))"

definition dequeue :: "msg_queue \<Rightarrow> msg_queue" where
  "dequeue q = q\<lparr>q_head := (q_head q + 1) mod of_nat MSG_QUEUE_DEPTH, q_count := q_count q - 1\<rparr>"

text \<open>The bytes written to the destination are the second result; the length is returned as a C int.\<close>

definition ipc_recv :: "u32 \<Rightarrow> u64 \<Rightarrow> queues \<Rightarrow> int \<times> u8 list \<times> queues" where
  "ipc_recv channel max_len qs =
     (case queue_for channel qs of
        None \<Rightarrow> (AEGIS_ENOENT, [], qs)
      | Some i \<Rightarrow>
          if q_count (qs ! i) = 0 then (AEGIS_EBUSY, [], qs)
          else let m = msgs (qs ! i) ! unat (q_head (qs ! i));
                   copy_len = (if payload_len m < max_len then payload_len m else max_len)
               in (sint (ucast copy_len :: u32), take (unat copy_len) (payload m), qs[i := dequeue (qs ! i)]))"

definition close_queue :: "msg_queue \<Rightarrow> msg_queue" where
  "close_queue q = q\<lparr>q_active := False\<rparr>"

definition ipc_destroy_queue :: "u32 \<Rightarrow> queues \<Rightarrow> queues" where
  "ipc_destroy_queue channel qs =
     (case queue_for channel qs of None \<Rightarrow> qs | Some i \<Rightarrow> qs[i := close_queue (qs ! i)])"

section \<open>Rings as lists\<close>

text \<open>A message as its receiver sees it, and the messages of a ring from the oldest to the newest.\<close>

definition msg_view :: "aegis_msg \<Rightarrow> u32 \<times> u8 list" where
  "msg_view m = (sender_tid m, take (unat (payload_len m)) (payload m))"

definition ring_msgs :: "msg_queue \<Rightarrow> (u32 \<times> u8 list) list" where
  "ring_msgs q = map (\<lambda>k. msg_view (msgs q ! ((unat (q_head q) + k) mod MSG_QUEUE_DEPTH))) [0..<unat (q_count q)]"

definition msg_ok :: "aegis_msg \<Rightarrow> bool" where
  "msg_ok m \<longleftrightarrow> length (payload m) = MSG_MAX_PAYLOAD \<and> unat (payload_len m) \<le> MSG_MAX_PAYLOAD"

definition ring_ok :: "msg_queue \<Rightarrow> bool" where
  "ring_ok q \<longleftrightarrow> length (msgs q) = MSG_QUEUE_DEPTH \<and> (\<forall>m\<in>set (msgs q). msg_ok m) \<and>
     unat (q_head q) < MSG_QUEUE_DEPTH \<and> unat (q_count q) \<le> MSG_QUEUE_DEPTH \<and>
     unat (q_tail q) = (unat (q_head q) + unat (q_count q)) mod MSG_QUEUE_DEPTH"

definition queues_ok :: "queues \<Rightarrow> bool" where
  "queues_ok qs \<longleftrightarrow> length qs = MAX_MSG_QUEUES \<and> (\<forall>q\<in>set qs. ring_ok q)"

text \<open>The queue a channel denotes.\<close>

definition fifo_of :: "queues \<Rightarrow> u32 \<Rightarrow> (u32 \<times> u8 list) list option" where
  "fifo_of qs channel = map_option (\<lambda>i. ring_msgs (qs ! i)) (queue_for channel qs)"

lemma next_index: "unat ((i + 1) mod of_nat MSG_QUEUE_DEPTH :: u32) = Suc (unat i) mod MSG_QUEUE_DEPTH"
  if "unat i < MSG_QUEUE_DEPTH"
  using that by (simp add: unat_mod message_consts unat_inc)

lemma ring_ok_open: "ring_ok q \<Longrightarrow> ring_ok (open_queue ch q) \<and> ring_msgs (open_queue ch q) = []"
  by (simp add: ring_ok_def open_queue_def ring_msgs_def message_consts)

lemma msg_ok_enqueued: "msg_ok m \<Longrightarrow> unat len \<le> MSG_MAX_PAYLOAD \<Longrightarrow>
    msg_ok (m\<lparr>sender_tid := t, receiver_tid := r, tag := g, payload_len := len,
              payload := map src [0..<unat len] @ drop (unat len) (payload m)\<rparr>)"
  by (simp add: msg_ok_def)

lemma ring_ok_enqueue:
  assumes "ring_ok q" and "unat (q_count q) < MSG_QUEUE_DEPTH" and "unat len \<le> MSG_MAX_PAYLOAD"
  shows "ring_ok (enqueue tid src len q)"
proof -
  have t: "unat (q_tail q) < MSG_QUEUE_DEPTH" using assms(1) by (simp add: ring_ok_def message_consts)
  then have "msg_ok (msgs q ! unat (q_tail q))" using assms(1) by (simp add: ring_ok_def)
  then have "\<forall>m\<in>set (msgs (enqueue tid src len q)). msg_ok m"
    using assms(1,3) msg_ok_enqueued set_update_subset_insert [of "msgs q" "unat (q_tail q)"]
    unfolding enqueue_def Let_def ring_ok_def by fastforce
  moreover have "unat (q_count q + 1) = Suc (unat (q_count q))" using assms(2) by (intro unat_inc) (simp add: message_consts)
  ultimately show ?thesis using assms(1,2) next_index [OF t]
    by (simp add: ring_ok_def enqueue_def Let_def mod_Suc_eq)
qed

lemma ring_msgs_enqueue:
  assumes "ring_ok q" and "unat (q_count q) < MSG_QUEUE_DEPTH" and "unat len \<le> MSG_MAX_PAYLOAD"
  shows "ring_msgs (enqueue tid src len q) = ring_msgs q @ [(tid, map src [0..<unat len])]"
proof -
  have c: "unat (q_count q + 1) = Suc (unat (q_count q))" using assms(2) by (intro unat_inc) (simp add: message_consts)
  have t: "unat (q_tail q) = (unat (q_head q) + unat (q_count q)) mod MSG_QUEUE_DEPTH" "unat (q_tail q) < length (msgs q)"
    using assms(1) by (simp_all add: ring_ok_def message_consts)
  have "(unat (q_head q) + k) mod MSG_QUEUE_DEPTH \<noteq> unat (q_tail q)" if "k < unat (q_count q)" for k
  proof
    assume "(unat (q_head q) + k) mod MSG_QUEUE_DEPTH = unat (q_tail q)"
    then have "(unat (q_count q) + unat (q_head q)) mod MSG_QUEUE_DEPTH = (k + unat (q_head q)) mod MSG_QUEUE_DEPTH"
      using t(1) by (simp add: add.commute)
    then have "unat (q_count q) mod MSG_QUEUE_DEPTH = k mod MSG_QUEUE_DEPTH"
      by (simp add: nat_mod_eq_iff)
    then show False using that assms(2) by simp
  qed
  then have "msgs (enqueue tid src len q) ! ((unat (q_head q) + k) mod MSG_QUEUE_DEPTH) =
      msgs q ! ((unat (q_head q) + k) mod MSG_QUEUE_DEPTH)" if "k < unat (q_count q)" for k
    using that by (simp add: enqueue_def Let_def nth_list_update_neq [OF not_sym])
  moreover have "msg_view (msgs (enqueue tid src len q) ! unat (q_tail q)) = (tid, map src [0..<unat len])"
    using t(2) by (simp add: enqueue_def Let_def msg_view_def)
  ultimately show ?thesis using t(1) c
    by (simp add: ring_msgs_def) (simp add: enqueue_def Let_def)
qed

lemma ring_dequeue:
  assumes "ring_ok q" and "0 < unat (q_count q)"
  shows "ring_ok (dequeue q) \<and> ring_msgs q = msg_view (msgs q ! unat (q_head q)) # ring_msgs (dequeue q)"
proof
  have h: "unat (q_head q) < MSG_QUEUE_DEPTH" using assms(1) by (simp add: ring_ok_def)
  obtain n where n: "unat (q_count q) = Suc n" using assms(2) gr0_conv_Suc by blast
  then have c: "unat (q_count q - 1) = n" using unat_dec [of "q_count q"] by simp
  have s: "(Suc a mod MSG_QUEUE_DEPTH + b) mod MSG_QUEUE_DEPTH = (a + Suc b) mod MSG_QUEUE_DEPTH" for a b
    by (metis add_Suc_shift mod_add_left_eq)
  show "ring_ok (dequeue q)" using assms(1) n c next_index [OF h] s [of "unat (q_head q)" n]
    by (simp add: ring_ok_def dequeue_def message_consts)
  have "ring_msgs q = map (\<lambda>k. msg_view (msgs q ! ((unat (q_head q) + k) mod MSG_QUEUE_DEPTH))) (0 # map Suc [0..<n])"
    by (simp add: ring_msgs_def n map_Suc_upt upt_conv_Cons del: upt_Suc)
  then show "ring_msgs q = msg_view (msgs q ! unat (q_head q)) # ring_msgs (dequeue q)"
    using h by (simp add: ring_msgs_def dequeue_def next_index c s)
qed

section \<open>The first-in first-out contract\<close>

type_synonym fifos = "u32 \<Rightarrow> (u32 \<times> u8 list) list option"

definition fifo_send :: "u32 \<Rightarrow> u32 \<Rightarrow> (nat \<Rightarrow> u8) option \<Rightarrow> u64 \<Rightarrow> fifos \<Rightarrow> int \<times> fifos" where
  "fifo_send tid channel data len F =
     (if data = None \<or> len = 0 \<or> MSG_MAX_PAYLOAD < unat len then (AEGIS_EINVAL, F)
      else case F channel of
        None \<Rightarrow> (AEGIS_ENOENT, F)
      | Some q \<Rightarrow> if MSG_QUEUE_DEPTH \<le> length q then (AEGIS_ENOMEM, F)
                 else (AEGIS_OK, F(channel \<mapsto> q @ [(tid, map (the data) [0..<unat len])])))"

definition fifo_recv :: "u32 \<Rightarrow> u64 \<Rightarrow> fifos \<Rightarrow> int \<times> u8 list \<times> fifos" where
  "fifo_recv channel max_len F =
     (case F channel of
        None \<Rightarrow> (AEGIS_ENOENT, [], F)
      | Some [] \<Rightarrow> (AEGIS_EBUSY, [], F)
      | Some ((t, b) # q) \<Rightarrow> (int (min (length b) (unat max_len)), take (unat max_len) b, F(channel \<mapsto> q)))"

datatype ipc_op = Send u32 u32 "(nat \<Rightarrow> u8) option" u64 | Recv u32 u64

text \<open>A sequence of calls, with the code and the bytes that each returns.\<close>

fun run_ops :: "(u32 \<Rightarrow> u32 \<Rightarrow> (nat \<Rightarrow> u8) option \<Rightarrow> u64 \<Rightarrow> 's \<Rightarrow> int \<times> 's) \<Rightarrow> (u32 \<Rightarrow> u64 \<Rightarrow> 's \<Rightarrow> int \<times> u8 list \<times> 's) \<Rightarrow>
    ipc_op list \<Rightarrow> 's \<Rightarrow> (int \<times> u8 list) list \<times> 's" where
  "run_ops snd_op rcv_op [] s = ([], s)"
| "run_ops snd_op rcv_op (Send t ch d n # os) s =
     (let (rc, s1) = snd_op t ch d n s; (outs, s2) = run_ops snd_op rcv_op os s1 in ((rc, []) # outs, s2))"
| "run_ops snd_op rcv_op (Recv ch n # os) s =
     (let (rc, b, s1) = rcv_op ch n s; (outs, s2) = run_ops snd_op rcv_op os s1 in ((rc, b) # outs, s2))"

locale message_passing =
  fixes ok :: "'s \<Rightarrow> bool"
    and fifo :: "'s \<Rightarrow> fifos"
    and send :: "u32 \<Rightarrow> u32 \<Rightarrow> (nat \<Rightarrow> u8) option \<Rightarrow> u64 \<Rightarrow> 's \<Rightarrow> int \<times> 's"
    and recv :: "u32 \<Rightarrow> u64 \<Rightarrow> 's \<Rightarrow> int \<times> u8 list \<times> 's"
  assumes send_ok: "ok s \<Longrightarrow> send t ch d n s = (rc, s') \<Longrightarrow> ok s' \<and> fifo_send t ch d n (fifo s) = (rc, fifo s')"
    and recv_ok: "ok s \<Longrightarrow> recv ch m s = (rc, b, s') \<Longrightarrow> ok s' \<and> fifo_recv ch m (fifo s) = (rc, b, fifo s')"
begin

lemma run_refines:
  "ok s \<Longrightarrow> run_ops send recv os s = (outs, s') \<Longrightarrow> ok s' \<and> run_ops fifo_send fifo_recv os (fifo s) = (outs, fifo s')"
proof (induction os arbitrary: s outs s')
  case (Cons a os)
  show ?case
  proof (cases a)
    case (Send t ch d n)
    obtain rc s1 where 1: "send t ch d n s = (rc, s1)" by force
    obtain o2 s2 where 2: "run_ops send recv os s1 = (o2, s2)" by force
    show ?thesis using Cons.prems Cons.IH [OF _ 2] send_ok [OF _ 1] 1 2 Send by auto
  next
    case (Recv ch n)
    obtain rc b s1 where 1: "recv ch n s = (rc, b, s1)" by (metis prod_cases3)
    obtain o2 s2 where 2: "run_ops send recv os s1 = (o2, s2)" by force
    show ?thesis using Cons.prems Cons.IH [OF _ 2] recv_ok [OF _ 1] 1 2 Recv by auto
  qed
qed simp

text \<open>A message sent to an empty queue is what the next receive returns, and the queue is empty again.\<close>

lemma send_then_recv:
  assumes "ok s" and "fifo s ch = Some []" and "0 < len" and "unat len \<le> MSG_MAX_PAYLOAD" and "len \<le> m"
  shows "\<exists>s1 s2. send t ch (Some src) len s = (AEGIS_OK, s1) \<and> recv ch m s1 = (int (unat len), map src [0..<unat len], s2) \<and>
    ok s2 \<and> fifo s2 = fifo s"
proof -
  obtain rc s1 where 1: "send t ch (Some src) len s = (rc, s1)" by force
  obtain r2 b s2 where 2: "recv ch m s1 = (r2, b, s2)" by (metis prod_cases3)
  have "rc = AEGIS_OK \<and> fifo s1 = (fifo s)(ch \<mapsto> [(t, map src [0..<unat len])]) \<and> ok s1"
    using send_ok [OF assms(1) 1] assms(2-4) by (auto simp: fifo_send_def message_consts split: if_splits)
  moreover from this have "r2 = int (unat len) \<and> b = map src [0..<unat len] \<and> fifo s2 = (fifo s)(ch \<mapsto> []) \<and> ok s2"
    using recv_ok [OF _ 2] assms(5) by (auto simp: fifo_recv_def word_le_nat_alt)
  ultimately show ?thesis using 1 2 assms(2) by (auto simp: fun_upd_idem)
qed

end

section \<open>The first-in first-out order of a batch\<close>

abbreviation send_all :: "u32 \<Rightarrow> (u32 \<times> u8 list) list \<Rightarrow> ipc_op list" where
  "send_all ch ms \<equiv> map (\<lambda>(t, b). Send t ch (Some ((!) b)) (of_nat (length b))) ms"

lemma run_ops_append:
  "run_ops f g (os @ ps) s =
     (let (o1, s1) = run_ops f g os s; (o2, s2) = run_ops f g ps s1 in (o1 @ o2, s2))"
proof (induction os arbitrary: s)
  case (Cons a os)
  then show ?case by (cases a) (auto split: prod.splits)
qed (simp split: prod.splits)

lemma fifo_send_all:
  assumes "F ch = Some q" and "length q + length ms \<le> MSG_QUEUE_DEPTH"
    and "\<forall>(t, b)\<in>set ms. 0 < length b \<and> length b \<le> MSG_MAX_PAYLOAD"
  shows "run_ops fifo_send fifo_recv (send_all ch ms) F = (replicate (length ms) (AEGIS_OK, []), F(ch \<mapsto> q @ ms))"
  using assms
proof (induction ms arbitrary: q F)
  case Nil
  then show ?case by (simp add: fun_upd_idem)
next
  case (Cons m ms)
  obtain t b where m: "m = (t, b)" by force
  then have "unat (of_nat (length b) :: u64) = length b" "(of_nat (length b) :: u64) \<noteq> 0"
    using Cons.prems(3) by (auto simp: unat_of_nat_small message_consts unat_eq_zero [symmetric] simp del: unat_eq_zero)
  then have "fifo_send t ch (Some ((!) b)) (of_nat (length b)) F = (AEGIS_OK, F(ch \<mapsto> q @ [m]))"
    using Cons.prems m by (simp add: fifo_send_def map_nth)
  moreover have "run_ops fifo_send fifo_recv (send_all ch ms) (F(ch \<mapsto> q @ [m])) =
      (replicate (length ms) (AEGIS_OK, []), (F(ch \<mapsto> q @ [m]))(ch \<mapsto> (q @ [m]) @ ms))"
    using Cons.prems by (intro Cons.IH) auto
  ultimately show ?case using m by (simp add: fun_eq_iff)
qed

lemma fifo_recv_all:
  assumes "F ch = Some (ms @ q)" and "\<forall>(t, b)\<in>set ms. length b \<le> unat n"
  shows "run_ops fifo_send fifo_recv (replicate (length ms) (Recv ch n)) F = (map (\<lambda>(t, b). (int (length b), b)) ms, F(ch \<mapsto> q))"
  using assms
proof (induction ms arbitrary: F)
  case Nil
  then show ?case by (simp add: fun_upd_idem)
next
  case (Cons m ms)
  obtain t b where m: "m = (t, b)" by force
  then have "fifo_recv ch n F = (int (length b), b, F(ch \<mapsto> ms @ q))" using Cons.prems by (simp add: fifo_recv_def)
  moreover have "run_ops fifo_send fifo_recv (replicate (length ms) (Recv ch n)) (F(ch \<mapsto> ms @ q)) =
      (map (\<lambda>(t, b). (int (length b), b)) ms, (F(ch \<mapsto> ms @ q))(ch \<mapsto> q))"
    using Cons.prems by (intro Cons.IH) auto
  ultimately show ?case using m by (simp add: fun_eq_iff)
qed

section \<open>The queues keep the contract\<close>

interpretation mq: slot_table q_active q_channel_id "\<lambda>q ch (_::unit). open_queue ch q" close_queue
  by unfold_locales (simp_all add: open_queue_def close_queue_def)

lemma queues_ok_nth: "queues_ok qs \<Longrightarrow> queue_for ch qs = Some i \<Longrightarrow> i < length qs \<and> ring_ok (qs ! i) \<and> q_channel_id (qs ! i) = ch"
  by (auto simp: queues_ok_def queue_for_def scan_Some_iff)

lemma queues_ok_update: "queues_ok qs \<Longrightarrow> ring_ok q \<Longrightarrow> queues_ok (qs[i := q])"
  using set_update_subset_insert [of qs i q] by (auto simp: queues_ok_def)

lemma length_ring_msgs: "length (ring_msgs q) = unat (q_count q)"
  by (simp add: ring_msgs_def)

lemma fifo_update:
  assumes "queue_for ch qs = Some i" and "q_active q = q_active (qs ! i)" and "q_channel_id q = q_channel_id (qs ! i)"
  shows "fifo_of (qs[i := q]) = (fifo_of qs)(ch \<mapsto> ring_msgs q)"
proof
  fix c
  have i: "i < length qs" "q_channel_id (qs ! i) = ch" using assms(1) by (auto simp: queue_for_def scan_Some_iff)
  have "queue_for c (qs[i := q]) = queue_for c qs" using assms(2,3) unfolding queue_for_def by (intro scan_update_same) simp
  moreover have "queue_for c qs = Some i \<Longrightarrow> c = ch" using i(2) by (auto simp: queue_for_def scan_Some_iff)
  ultimately show "fifo_of (qs[i := q]) c = ((fifo_of qs)(ch \<mapsto> ring_msgs q)) c"
    using assms(1) i(1) by (cases "queue_for c qs") (auto simp: fifo_of_def nth_list_update)
qed

lemma enqueue_fields: "q_active (enqueue t d n q) = q_active q" "q_channel_id (enqueue t d n q) = q_channel_id q"
  "q_active (dequeue q) = q_active q" "q_channel_id (dequeue q) = q_channel_id q"
  by (simp_all add: enqueue_def dequeue_def Let_def)

lemma ipc_send_refines:
  assumes "queues_ok qs" and "ipc_send t ch d n qs = (rc, qs')"
  shows "queues_ok qs' \<and> fifo_send t ch d n (fifo_of qs) = (rc, fifo_of qs')"
proof (cases "queue_for ch qs")
  case None
  then show ?thesis using assms by (auto simp: ipc_send_def fifo_send_def fifo_of_def split: if_splits)
next
  case (Some i)
  then show ?thesis
    using assms queues_ok_nth [OF assms(1) Some] queues_ok_update [OF assms(1)] ring_ok_enqueue [of "qs ! i" n]
      ring_msgs_enqueue [of "qs ! i" n] fifo_update [OF Some, of "enqueue t (the d) n (qs ! i)"]
    by (auto simp: ipc_send_def fifo_send_def length_ring_msgs enqueue_fields fifo_of_def [of qs ch] split: if_splits)
qed

lemma sint_of_nat_small: "n < 2147483648 \<Longrightarrow> sint (of_nat n :: u32) = int n"
  by (simp add: signed_of_nat signed_take_bit_int_eq_self)

lemma copied_length:
  "unat (len::u64) \<le> MSG_MAX_PAYLOAD \<Longrightarrow>
    sint (ucast (if len < m then len else m) :: u32) = int (min (unat len) (unat m)) \<and>
    take (unat (if len < m then len else m)) b = take (unat m) (take (unat len) b)"
proof -
  define k where "k = (if len < m then len else m)"
  assume a: "unat len \<le> MSG_MAX_PAYLOAD"
  have k: "unat k = min (unat len) (unat m)" by (auto simp: k_def word_less_nat_alt)
  then have "unat k \<le> 256" using a by (simp add: message_consts)
  moreover have "ucast k = (of_nat (unat k) :: u32)" by simp
  ultimately have "sint (ucast k :: u32) = int (unat k)" using sint_of_nat_small [of "unat k"] by simp
  then show ?thesis using k by (fold k_def) (simp add: min.commute)
qed

lemma ipc_recv_refines:
  assumes "queues_ok qs" and "ipc_recv ch m qs = (rc, b, qs')"
  shows "queues_ok qs' \<and> fifo_recv ch m (fifo_of qs) = (rc, b, fifo_of qs')"
proof (cases "queue_for ch qs")
  case None
  then show ?thesis using assms by (auto simp: ipc_recv_def fifo_recv_def fifo_of_def)
next
  case (Some i)
  let ?q = "qs ! i" and ?m = "msgs (qs ! i) ! unat (q_head (qs ! i))"
  have q: "ring_ok ?q" using queues_ok_nth [OF assms(1) Some] by blast
  show ?thesis
  proof (cases "q_count ?q = 0")
    case True
    then show ?thesis using assms Some by (auto simp: ipc_recv_def fifo_recv_def fifo_of_def ring_msgs_def)
  next
    case False
    then have d: "ring_ok (dequeue ?q)" "ring_msgs ?q = msg_view ?m # ring_msgs (dequeue ?q)"
      using ring_dequeue [OF q] by (auto simp: unat_gt_0)
    have m: "unat (payload_len ?m) \<le> MSG_MAX_PAYLOAD" "length (payload ?m) = MSG_MAX_PAYLOAD"
      using q by (auto simp: ring_ok_def msg_ok_def)
    have r: "rc = int (min (unat (payload_len ?m)) (unat m))" "b = take (unat m) (take (unat (payload_len ?m)) (payload ?m))"
      "qs' = qs[i := dequeue ?q]"
      using assms(2) Some False copied_length [OF m(1), of m "payload ?m"] by (auto simp: ipc_recv_def Let_def)
    have "fifo_of qs' = (fifo_of qs)(ch \<mapsto> ring_msgs (dequeue ?q))"
      using fifo_update [OF Some] r(3) by (simp add: enqueue_fields)
    moreover have "fifo_of qs ch = Some ((sender_tid ?m, take (unat (payload_len ?m)) (payload ?m)) # ring_msgs (dequeue ?q))"
      using d(2) Some by (simp add: fifo_of_def msg_view_def)
    ultimately show ?thesis using queues_ok_update [OF assms(1) d(1)] r m
      by (simp add: fifo_recv_def min_absorb2)
  qed
qed

interpretation ipc: message_passing queues_ok fifo_of ipc_send ipc_recv
  by unfold_locales (rule ipc_send_refines ipc_recv_refines; assumption)+

lemma ipc_create_fifo:
  assumes "queues_ok qs" and "ipc_create_queue ch qs = (rc, qs')" and "fifo_of qs ch = None"
  shows "queues_ok qs' \<and> (0 \<le> rc \<longrightarrow> fifo_of qs' = (fifo_of qs)(ch \<mapsto> [])) \<and> (rc < 0 \<longrightarrow> qs' = qs)"
proof (cases "scan (\<lambda>q. \<not> q_active q) qs")
  case None
  then show ?thesis using assms by (auto simp: ipc_create_queue_def simp del: scan_None_iff)
next
  case (Some i)
  then have i: "i < length qs" "\<not> q_active (qs ! i)" by (auto simp: scan_Some_iff)
  have qs': "qs' = qs[i := open_queue ch (qs ! i)]" "rc = int i" using assms(2) Some by (auto simp: ipc_create_queue_def)
  have ok: "ring_ok (qs ! i)" using assms(1) i(1) by (simp add: queues_ok_def)
  have "queue_for c qs' = (if c = ch then Some i else queue_for c qs)" for c
    using mq.find_after_fill [OF Some, of ch] mq.find_other_after_fill [OF Some, of c ch] assms(3)
    by (auto simp: queue_for_def fifo_of_def qs' simp del: scan_None_iff)
  moreover have "queue_for c qs \<noteq> Some i" for c using i(2) by (auto simp: queue_for_def scan_Some_iff)
  ultimately have "fifo_of qs' = (fifo_of qs)(ch \<mapsto> [])"
    using ring_ok_open [OF ok] i(1) by (auto simp: fun_eq_iff fifo_of_def qs'(1) map_option_case nth_list_update split: option.splits)
  then show ?thesis using queues_ok_update [OF assms(1)] ring_ok_open [OF ok] qs' by simp
qed

lemma ipc_init_fifo: "queues_ok qs \<Longrightarrow> queues_ok (ipc_init qs) \<and> fifo_of (ipc_init qs) = (\<lambda>_. None)"
  by (auto simp: queues_ok_def ipc_init_def fifo_of_def queue_for_def ring_ok_def message_consts fun_eq_iff)

lemma queues_start_ok: "queues_ok queues_start"
  by (simp add: queues_ok_def queues_start_def ring_ok_def msg_ok_def zero_msg_def message_consts)

section \<open>Properties\<close>

text \<open>
  C18. The rings refine first-in first-out queues: any sequence of \<open>ipc_send\<close> and \<open>ipc_recv\<close>
  calls, on any channels, with any lengths and NULL buffers, returns exactly the codes and
  bytes that unbounded-memory queues bounded to the ring depth would return, and leaves the rings
  representing the resulting queues.
\<close>

theorem message_rings_refine_fifos:
  assumes "queues_ok qs" and "run_ops ipc_send ipc_recv ops qs = (outs, qs')"
  shows "queues_ok qs' \<and> run_ops fifo_send fifo_recv ops (fifo_of qs) = (outs, fifo_of qs')"
  by (rule ipc.run_refines [OF assms])

lemma message_rings_refine_fifos_witness:
  "fst (run_ops fifo_send fifo_recv [Send 1 5 None 4, Recv 5 8] (fifo_of queues_start)) = [(AEGIS_EINVAL, []), (AEGIS_ENOENT, [])]"
proof -
  have none: "queue_for 5 queues_start = None" by (simp add: queue_for_def queues_start_def message_consts)
  show ?thesis
    using message_rings_refine_fifos [OF queues_start_ok,
        of "[Send 1 5 None 4, Recv 5 8]" "[(AEGIS_EINVAL, []), (AEGIS_ENOENT, [])]" queues_start]
    by (simp add: ipc_send_def ipc_recv_def none)
qed

text \<open>
  C19. Messages arrive complete and in order: a batch of at most 64 messages, of 1 to 256 bytes each, sent to
  an empty channel by any threads and then received with a large enough buffer, is returned
  message by message in the order of sending, and the channel is empty again.
\<close>

theorem ipc_batch_roundtrip:
  assumes "queues_ok qs" and "fifo_of qs ch = Some []" and "length ms \<le> MSG_QUEUE_DEPTH"
    and "\<forall>(t, b)\<in>set ms. 0 < length b \<and> length b \<le> MSG_MAX_PAYLOAD" and "MSG_MAX_PAYLOAD \<le> unat n"
  shows "\<exists>qs'. run_ops ipc_send ipc_recv (send_all ch ms @ replicate (length ms) (Recv ch n)) qs =
      (replicate (length ms) (AEGIS_OK, []) @ map (\<lambda>(t, b). (int (length b), b)) ms, qs') \<and>
    queues_ok qs' \<and> fifo_of qs' = fifo_of qs"
proof -
  obtain outs qs' where r: "run_ops ipc_send ipc_recv (send_all ch ms @ replicate (length ms) (Recv ch n)) qs = (outs, qs')" by force
  have "\<forall>(t, b)\<in>set ms. length b \<le> unat n" using assms(4,5) by fastforce
  then have "run_ops fifo_send fifo_recv (send_all ch ms @ replicate (length ms) (Recv ch n)) (fifo_of qs) =
      (replicate (length ms) (AEGIS_OK, []) @ map (\<lambda>(t, b). (int (length b), b)) ms, fifo_of qs)"
    using fifo_send_all [of "fifo_of qs" ch "[]" ms] fifo_recv_all [of "(fifo_of qs)(ch \<mapsto> ms)" ch ms "[]" n] assms(2-4)
    by (simp add: run_ops_append fun_upd_idem)
  then show ?thesis using ipc.run_refines [OF assms(1) r] r by auto
qed

lemma ipc_batch_roundtrip_witness:
  "\<exists>qs'. run_ops ipc_send ipc_recv [Send 1 7 (Some ((!) [10, 20])) 2, Send 2 7 (Some ((!) [30])) 1, Recv 7 256, Recv 7 256]
      (snd (ipc_create_queue 7 queues_start)) = ([(0, []), (0, []), (2, [10, 20]), (1, [30])], qs')"
proof -
  have "fifo_of queues_start 7 = None" by (simp add: fifo_of_def queue_for_def queues_start_def message_consts)
  moreover have "ipc_create_queue 7 queues_start = (0, snd (ipc_create_queue 7 queues_start))"
    by (simp add: ipc_create_queue_def queues_start_def message_consts scan_replicate)
  ultimately have "queues_ok (snd (ipc_create_queue 7 queues_start))" "fifo_of (snd (ipc_create_queue 7 queues_start)) 7 = Some []"
    using ipc_create_fifo [OF queues_start_ok] by force+
  from ipc_batch_roundtrip [OF this, of "[(1, [10, 20]), (2, [30])]" 256] show ?thesis
    by (auto simp: message_consts)
qed

end
