(* ===== verification/Channels.thy ===== *)
theory Channels
  imports Messages
begin

text \<open>
  Channels (kernel/ipc/channel.c): a table of numbered channels whose ids are never reused,
  and a table of names that native services open.  Opening a name is shown to behave as
  one insertion into a map from names to channels.
\<close>

definition MAX_CHANNELS :: nat where "MAX_CHANNELS = 1024"
definition MAX_NAMED_CHANNELS :: nat where "MAX_NAMED_CHANNELS = 32"
definition AEGIS_NAMED_CHANNEL_NAME_MAX :: nat where "AEGIS_NAMED_CHANNEL_NAME_MAX = 32"

lemmas channel_consts = MAX_CHANNELS_def MAX_NAMED_CHANNELS_def AEGIS_NAMED_CHANNEL_NAME_MAX_def

record channel =
  ch_id :: u32
  ch_owner_id :: u32
  ch_open :: bool

record named_channel =
  nc_used :: bool
  nc_channel_id :: u32
  nc_name :: string

record channels =
  channel_table :: "channel list"
  named_channels :: "named_channel list"
  next_channel_id :: u32

section \<open>Operations\<close>

definition channel_init :: channels where
  "channel_init = \<lparr>channel_table = replicate MAX_CHANNELS \<lparr>ch_id = 0, ch_owner_id = 0, ch_open = False\<rparr>,
     named_channels = replicate MAX_NAMED_CHANNELS \<lparr>nc_used = False, nc_channel_id = 0, nc_name = []\<rparr>, next_channel_id = 1\<rparr>"

text \<open>A channel pointer is an index of the table; NULL is \<open>None\<close>.\<close>

definition channel_create :: "u32 \<Rightarrow> channels \<Rightarrow> nat option \<times> channels" where
  "channel_create owner c =
     (let i = unat (next_channel_id c)
      in if MAX_CHANNELS \<le> i then (None, c)
         else (Some i, c\<lparr>channel_table := (channel_table c)[i := \<lparr>ch_id = next_channel_id c, ch_owner_id = owner, ch_open = True\<rparr>],
                         next_channel_id := next_channel_id c + 1\<rparr>))"

definition channel_get :: "u32 \<Rightarrow> channels \<Rightarrow> nat option" where
  "channel_get i c =
     (if i = 0 \<or> MAX_CHANNELS \<le> unat i \<or> \<not> ch_open (channel_table c ! unat i) then None else Some (unat i))"

definition channel_close :: "u32 \<Rightarrow> channels \<Rightarrow> channels" where
  "channel_close i c =
     (if unat i < MAX_CHANNELS
      then c\<lparr>channel_table := (channel_table c)[unat i := (channel_table c ! unat i)\<lparr>ch_open := False\<rparr>]\<rparr> else c)"

definition channel_id_from_handle :: "nat option \<Rightarrow> channels \<Rightarrow> u32" where
  "channel_id_from_handle h c =
     (case h of None \<Rightarrow> 0 | Some i \<Rightarrow> if ch_open (channel_table c ! i) then ch_id (channel_table c ! i) else 0)"

definition channel_name_copy :: "string \<Rightarrow> string" where
  "channel_name_copy s = copy_bounded (AEGIS_NAMED_CHANNEL_NAME_MAX - 1) s"

definition channel_open_named :: "string option \<Rightarrow> u32 \<Rightarrow> channels \<times> queues \<Rightarrow> int \<times> channels \<times> queues" where
  "channel_open_named name owner = (\<lambda>(c, qs).
     if name = None \<or> the name = [] then (AEGIS_EINVAL, c, qs)
     else case scan (\<lambda>e. nc_used e \<and> str_eq (nc_name e) (the name)) (named_channels c) of
       Some i \<Rightarrow> (sint (nc_channel_id (named_channels c ! i)), c, qs)
     | None \<Rightarrow>
         case scan (\<lambda>e. \<not> nc_used e) (named_channels c) of
           None \<Rightarrow> (AEGIS_ENOMEM, c, qs)
         | Some free_index \<Rightarrow>
             let (ch, c1) = channel_create owner c; i = channel_id_from_handle ch c1
             in if ch = None \<or> i = 0 then (AEGIS_ENOMEM, c1, qs)
                else let (queue, qs1) = ipc_create_queue i qs
                     in if queue < 0 then (queue, channel_close i c1, qs1)
                        else (sint i, c1\<lparr>named_channels := (named_channels c1)[free_index :=
                                \<lparr>nc_used = True, nc_channel_id = i, nc_name = channel_name_copy (the name)\<rparr>]\<rparr>, qs1))"

definition channel_name :: "u32 \<Rightarrow> channels \<Rightarrow> string option" where
  "channel_name i c = map_option (\<lambda>k. nc_name (named_channels c ! k))
     (scan (\<lambda>e. nc_used e \<and> nc_channel_id e = i) (named_channels c))"

section \<open>Channel names as a map\<close>

interpretation nc: slot_table nc_used nc_name "\<lambda>_ n i. \<lparr>nc_used = True, nc_channel_id = i, nc_name = n\<rparr>"
    "\<lambda>_. \<lparr>nc_used = False, nc_channel_id = 0, nc_name = []\<rparr>"
  by unfold_locales simp_all

definition named_id :: "channels \<Rightarrow> string \<Rightarrow> u32 option" where
  "named_id c n = map_option (\<lambda>i. nc_channel_id (named_channels c ! i)) (scan (\<lambda>e. nc_used e \<and> nc_name e = n) (named_channels c))"

definition channels_ok :: "channels \<Rightarrow> bool" where
  "channels_ok c \<longleftrightarrow> length (channel_table c) = MAX_CHANNELS \<and> 0 < unat (next_channel_id c) \<and>
     unat (next_channel_id c) \<le> MAX_CHANNELS \<and>
     (\<forall>e\<in>set (named_channels c). nc_used e \<longrightarrow> 0 < nc_channel_id e \<and> nc_channel_id e < next_channel_id c) \<and>
     nc.keys_distinct (named_channels c) \<and> inj_on (named_id c) (dom (named_id c))"

lemma channel_create_spec:
  assumes "channels_ok c" and "unat (next_channel_id c) < MAX_CHANNELS" and "channel_create o' c = (h, c1)"
  shows "h = Some (unat (next_channel_id c)) \<and> channel_id_from_handle h c1 = next_channel_id c \<and>
    named_channels c1 = named_channels c \<and> next_channel_id c1 = next_channel_id c + 1 \<and> length (channel_table c1) = MAX_CHANNELS"
  using assms by (auto simp: channel_create_def channel_id_from_handle_def channels_ok_def Let_def)

lemma named_id_below: "channels_ok c \<Longrightarrow> named_id c n = Some i \<Longrightarrow> 0 < i \<and> i < next_channel_id c"
  by (auto simp: channels_ok_def named_id_def scan_Some_iff)

lemma channels_ok_same_names:
  assumes "channels_ok c" and "named_channels c' = named_channels c" and "length (channel_table c') = MAX_CHANNELS"
    and "next_channel_id c \<le> next_channel_id c'" and "unat (next_channel_id c') \<le> MAX_CHANNELS"
  shows "channels_ok c' \<and> named_id c' = named_id c"
proof -
  have n: "named_id c' = named_id c" using assms(2) by (simp add: named_id_def fun_eq_iff)
  have "0 < unat (next_channel_id c')" using assms(1,4) by (simp add: channels_ok_def word_le_nat_alt)
  then show ?thesis using n assms by (auto simp: channels_ok_def)
qed

lemma next_channel_inc: "channels_ok c \<Longrightarrow> unat (next_channel_id c) < MAX_CHANNELS \<Longrightarrow>
    unat (next_channel_id c + 1) = Suc (unat (next_channel_id c)) \<and> next_channel_id c < next_channel_id c + 1"
  using unat_inc [of "next_channel_id c"] by (simp add: channel_consts word_less_nat_alt)

lemma inj_on_map_upd:
  assumes "inj_on m (dom m)" and "v \<notin> ran m"
  shows "inj_on (m(k \<mapsto> v)) (dom (m(k \<mapsto> v)))"
proof (rule inj_onI)
  fix x y
  assume "x \<in> dom (m(k \<mapsto> v))" "y \<in> dom (m(k \<mapsto> v))" "(m(k \<mapsto> v)) x = (m(k \<mapsto> v)) y"
  then show "x = y" using assms by (cases "x = k"; cases "y = k") (auto simp: ran_def dest: inj_onD)
qed

lemma channels_ok_add:
  assumes "channels_ok c" and "named_channels c1 = named_channels c" and "next_channel_id c1 = next_channel_id c + 1"
    and "length (channel_table c1) = MAX_CHANNELS" and "unat (next_channel_id c) < MAX_CHANNELS"
    and "named_id c n = None" and "scan (\<lambda>e. \<not> nc_used e) (named_channels c) = Some k"
    and "c' = c1\<lparr>named_channels := (named_channels c1)[k := \<lparr>nc_used = True, nc_channel_id = next_channel_id c, nc_name = n\<rparr>]\<rparr>"
  shows "channels_ok c' \<and> named_id c' = (named_id c)(n \<mapsto> next_channel_id c)"
proof -
  note inc = next_channel_inc [OF assms(1,5)]
  have k: "k < length (named_channels c)" using assms(7) by blast
  have free: "scan (\<lambda>e. nc_used e \<and> nc_name e = n) (named_channels c) = None"
    using assms(6) by (simp add: named_id_def del: scan_None_iff)
  have upd: "named_id c' = (named_id c)(n \<mapsto> next_channel_id c)"
  proof
    fix m
    have "scan (\<lambda>e. nc_used e \<and> nc_name e = m) (named_channels c) \<noteq> Some k" using assms(7) by (auto simp: scan_Some_iff)
    then show "named_id c' m = ((named_id c)(n \<mapsto> next_channel_id c)) m"
      using nc.find_after_fill [OF assms(7) free] nc.find_other_after_fill [OF assms(7), of m n] k assms(2,8)
      by (cases "m = n") (auto simp: named_id_def map_option_case nth_list_update split: option.splits simp del: scan_None_iff)
  qed
  have "nc.keys_distinct (named_channels c')"
    using nc.keys_distinct_fill [OF _ free k] assms(1,2,8) by (simp add: channels_ok_def)
  moreover have "\<forall>e\<in>set (named_channels c'). nc_used e \<longrightarrow> 0 < nc_channel_id e \<and> nc_channel_id e < next_channel_id c1"
    using assms(1-3,8) inc set_update_subset_insert [of "named_channels c" k]
    by (fastforce simp: channels_ok_def word_gt_0 unat_gt_0 dest: order.strict_trans)
  moreover have "inj_on (named_id c') (dom (named_id c'))"
  proof -
    have "next_channel_id c \<notin> ran (named_id c)" using named_id_below [OF assms(1)] by (auto simp: ran_def)
    moreover have "inj_on (named_id c) (dom (named_id c))" using assms(1) by (simp add: channels_ok_def)
    ultimately show ?thesis unfolding upd by (intro inj_on_map_upd)
  qed
  ultimately show ?thesis using upd assms inc by (simp add: channels_ok_def)
qed

section \<open>Properties\<close>

text \<open>
  C20. Opening a named channel acts on the map from names to channel ids: a name already open returns its id
  and changes nothing; a new name gets a fresh positive id, entered under that name alone; a failure leaves the
  names as they were; and distinct names always have distinct channels.
\<close>

theorem channel_open_named_correct:
  assumes "channels_ok c" and "n \<noteq> []" and "length n < AEGIS_NAMED_CHANNEL_NAME_MAX"
    and "channel_open_named (Some n) owner (c, qs) = (rc, c', qs')"
  shows "channels_ok c' \<and>
    (case named_id c n of
       Some i \<Rightarrow> rc = int (unat i) \<and> c' = c \<and> qs' = qs
     | None \<Rightarrow> if rc < 0 then named_id c' = named_id c
               else rc = int (unat (next_channel_id c)) \<and> 0 < rc \<and> named_id c' = (named_id c)(n \<mapsto> next_channel_id c))"
proof (cases "named_id c n")
  case (Some i)
  then have "unat i < 1024" using named_id_below [OF assms(1) Some] assms(1)
    by (simp add: channels_ok_def channel_consts word_less_nat_alt)
  then have "sint i = int (unat i)" using sint_of_nat_small [of "unat i"] by simp
  then show ?thesis using assms Some by (auto simp: channel_open_named_def named_id_def)
next
  case None
  have *: "scan (\<lambda>e. nc_used e \<and> nc_name e = n) (named_channels c) = None" using None by (simp add: named_id_def del: scan_None_iff)
  obtain h c1 where cr: "channel_create owner c = (h, c1)" by force
  show ?thesis
  proof (cases "scan (\<lambda>e. \<not> nc_used e) (named_channels c) = None \<or> MAX_CHANNELS \<le> unat (next_channel_id c)")
    case True
    then have "rc = AEGIS_ENOMEM \<and> c' = c"
      using assms(2,4) * by (auto simp: channel_open_named_def channel_create_def Let_def simp del: scan_None_iff split: option.splits)
    then show ?thesis using assms(1) None by simp
  next
    case False
    then obtain k where k: "scan (\<lambda>e. \<not> nc_used e) (named_channels c) = Some k" and lt: "unat (next_channel_id c) < MAX_CHANNELS"
      by (cases "scan (\<lambda>e. \<not> nc_used e) (named_channels c)") (auto simp del: scan_None_iff)
    note inc = next_channel_inc [OF assms(1) lt]
    have sp: "h = Some (unat (next_channel_id c))" "channel_id_from_handle (Some (unat (next_channel_id c))) c1 = next_channel_id c"
      "named_channels c1 = named_channels c" "next_channel_id c1 = next_channel_id c + 1" "length (channel_table c1) = MAX_CHANNELS"
      using channel_create_spec [OF assms(1) lt cr] by auto
    obtain q qs1 where q: "ipc_create_queue (next_channel_id c) qs = (q, qs1)" by force
    have nz: "next_channel_id c \<noteq> 0" using assms(1) by (auto simp: channels_ok_def)
    then have pos: "0 < uint (next_channel_id c)" by (simp add: less_le unsigned_eq_0_iff)
    have s: "sint (next_channel_id c) = int (unat (next_channel_id c))"
      using sint_of_nat_small [of "unat (next_channel_id c)"] lt by (simp add: channel_consts)
    have opn: "(rc, c', qs') = (if q < 0 then (q, channel_close (next_channel_id c) c1, qs1)
      else (sint (next_channel_id c), c1\<lparr>named_channels := (named_channels c1)[k :=
             \<lparr>nc_used = True, nc_channel_id = next_channel_id c, nc_name = n\<rparr>]\<rparr>, qs1))"
      using assms(2-4) * k cr sp q nz
      by (cases "q < 0") (simp_all add: channel_open_named_def channel_name_copy_def channel_consts Let_def del: scan_None_iff)
    show ?thesis
    proof (cases "q < 0")
      case True
      then have "channels_ok c' \<and> named_id c' = named_id c"
        using opn sp inc lt assms(1) by (intro channels_ok_same_names [of c]) (auto simp: channel_close_def)
      then show ?thesis using opn True None by simp
    next
      case False
      then have "channels_ok c' \<and> named_id c' = (named_id c)(n \<mapsto> next_channel_id c)"
        using opn channels_ok_add [OF assms(1) sp(3-5) lt None k, of c'] by simp
      then show ?thesis using opn False None s pos by simp
    qed
  qed
qed

lemma channels_ok_init: "channels_ok channel_init"
proof -
  have "named_id channel_init = (\<lambda>_. None)" by (simp add: fun_eq_iff named_id_def channel_init_def)
  then show ?thesis
    by (simp add: channels_ok_def channel_init_def channel_consts nc.keys_distinct_def)
qed

lemma channel_open_named_correct_witness:
  "\<exists>rc c' qs'. channel_open_named (Some ''routerd'') 3 (channel_init, queues_start) = (rc, c', qs') \<and> channels_ok c'"
  using channel_open_named_correct [OF channels_ok_init, of "''routerd''" 3 queues_start]
  by (cases "channel_open_named (Some ''routerd'') 3 (channel_init, queues_start)") (simp add: channel_consts)

end
