(* ===== verification/Service_IPC.thy ===== *)
theory Service_IPC
  imports Channels Userland
begin

text \<open>
  Service mailboxes (kernel/ipc/service_ipc.c): the four early services get a channel and a
  queue each, and a test message travels through the queue layer.  The layer rests on the
  message-passing contract of the queues and on the feature catalogue of the userland.
\<close>

definition AEGIS_IPC_SERVICE_NAME_MAX :: nat where "AEGIS_IPC_SERVICE_NAME_MAX = 32"
definition AEGIS_IPC_MAILBOX_MAX :: nat where "AEGIS_IPC_MAILBOX_MAX = 8"
definition AEGIS_IPC_TEST_PAYLOAD_MAX :: nat where "AEGIS_IPC_TEST_PAYLOAD_MAX = 64"

lemmas mailbox_consts = AEGIS_IPC_SERVICE_NAME_MAX_def AEGIS_IPC_MAILBOX_MAX_def AEGIS_IPC_TEST_PAYLOAD_MAX_def

datatype aegis_ipc_mailbox_state = MAILBOX_EMPTY | MAILBOX_REGISTERED | MAILBOX_CHANNEL_READY | MAILBOX_ROUNDTRIP_PROVED

record aegis_service_mailbox =
  mb_id :: u32
  mb_owner_pid :: u32
  mb_peer_pid :: u32
  mb_service_id :: u32
  mb_channel_id :: u32
  mb_queue_id :: u32
  mb_service_name :: string
  mb_peer_name :: string
  mb_state :: aegis_ipc_mailbox_state
  mb_sent_count :: u32
  mb_recv_count :: u32
  mb_last_payload_len :: u32

record aegis_ipc_service_state =
  is_initialised :: bool
  is_messaging_ready :: bool
  is_roundtrip_ready :: bool
  is_mailbox_count :: u32
  is_channel_count :: u32
  is_route_count :: u32
  is_last_channel_id :: u32
  is_last_roundtrip_bytes :: u32

text \<open>The state of the IPC layers: mailboxes on top, channels and queues below.\<close>

record service_ipc =
  ipc_state :: aegis_ipc_service_state
  mailboxes :: "aegis_service_mailbox list"
  next_mailbox_id :: u32
  ipc_channels :: channels
  ipc_queues :: queues

section \<open>Operations\<close>

fun service_ipc_mailbox_state_name :: "aegis_ipc_mailbox_state \<Rightarrow> string" where
  "service_ipc_mailbox_state_name MAILBOX_EMPTY = ''empty''"
| "service_ipc_mailbox_state_name MAILBOX_REGISTERED = ''registered''"
| "service_ipc_mailbox_state_name MAILBOX_CHANNEL_READY = ''channel-ready''"
| "service_ipc_mailbox_state_name MAILBOX_ROUNDTRIP_PROVED = ''roundtrip-proved''"

definition zero_mailbox :: aegis_service_mailbox where
  "zero_mailbox = \<lparr>mb_id = 0, mb_owner_pid = 0, mb_peer_pid = 0, mb_service_id = 0, mb_channel_id = 0, mb_queue_id = 0,
     mb_service_name = [], mb_peer_name = [], mb_state = MAILBOX_EMPTY, mb_sent_count = 0, mb_recv_count = 0, mb_last_payload_len = 0\<rparr>"

definition service_ipc_init :: "service_ipc \<Rightarrow> service_ipc" where
  "service_ipc_init s = s\<lparr>ipc_channels := channel_init, ipc_queues := ipc_init (ipc_queues s),
     ipc_state := \<lparr>is_initialised = True, is_messaging_ready = False, is_roundtrip_ready = False, is_mailbox_count = 0,
       is_channel_count = 0, is_route_count = 0, is_last_channel_id = 0, is_last_roundtrip_bytes = 0\<rparr>,
     mailboxes := replicate AEGIS_IPC_MAILBOX_MAX zero_mailbox, next_mailbox_id := 1\<rparr>"

definition service_ipc_state :: "service_ipc \<Rightarrow> aegis_ipc_service_state" where
  "service_ipc_state s = ipc_state s"

definition service_ipc_mailbox :: "u32 \<Rightarrow> service_ipc \<Rightarrow> aegis_service_mailbox option" where
  "service_ipc_mailbox i s = (if is_mailbox_count (ipc_state s) \<le> i then None else Some (mailboxes s ! unat i))"

definition ipc_copy_string :: "nat \<Rightarrow> string option \<Rightarrow> string" where
  "ipc_copy_string dst_len src = (case src of None \<Rightarrow> [] | Some s \<Rightarrow> copy_bounded (dst_len - 1) s)"

definition register_mailbox :: "userland \<Rightarrow> string option \<Rightarrow> string option \<Rightarrow> service_ipc \<Rightarrow> int \<times> service_ipc" where
  "register_mailbox u service_name peer_name s =
     (let st = ipc_state s; svc = userland_find_feature service_name u; peer = userland_find_feature peer_name u;
          rc = first_fail
            [(\<not> is_initialised st, AEGIS_EINVAL), (service_name = None \<or> peer_name = None, AEGIS_EINVAL),
             (the service_name = [] \<or> the peer_name = [], AEGIS_EINVAL),
             (AEGIS_IPC_MAILBOX_MAX \<le> unat (is_mailbox_count st), AEGIS_ENOMEM), (svc = None \<or> peer = None, AEGIS_ENOENT)]
      in if rc \<noteq> AEGIS_OK then (rc, s)
         else
           let (channel, cs) = channel_create (uf_id (the svc)) (ipc_channels s); channel_id = channel_id_from_handle channel cs;
               s = s\<lparr>ipc_channels := cs\<rparr>
           in if channel = None \<or> channel_id = 0 then (AEGIS_ENOMEM, s)
              else
                let (queue_id, qs) = ipc_create_queue channel_id (ipc_queues s); s = s\<lparr>ipc_queues := qs\<rparr>
                in if queue_id < 0 then (queue_id, s)
                   else (AEGIS_OK,
                     s\<lparr>mailboxes := (mailboxes s)[unat (is_mailbox_count st) :=
                         zero_mailbox\<lparr>mb_id := next_mailbox_id s, mb_owner_pid := uf_id (the svc), mb_peer_pid := uf_id (the peer),
                           mb_service_id := uf_service_id (the svc), mb_channel_id := channel_id, mb_queue_id := word_of_int queue_id,
                           mb_state := MAILBOX_CHANNEL_READY, mb_service_name := ipc_copy_string AEGIS_IPC_SERVICE_NAME_MAX service_name,
                           mb_peer_name := ipc_copy_string AEGIS_IPC_SERVICE_NAME_MAX peer_name\<rparr>],
                       next_mailbox_id := next_mailbox_id s + 1,
                       ipc_state := st\<lparr>is_mailbox_count := is_mailbox_count st + 1, is_channel_count := is_channel_count st + 1,
                         is_route_count := is_route_count st + 1, is_last_channel_id := channel_id\<rparr>\<rparr>))"

text \<open>The calls \<open>rc = register_mailbox(..); if (rc != AEGIS_OK) return rc;\<close> in sequence.\<close>

fun register_mailboxes :: "userland \<Rightarrow> (string \<times> string) list \<Rightarrow> service_ipc \<Rightarrow> int \<times> service_ipc" where
  "register_mailboxes u [] s = (AEGIS_OK, s)"
| "register_mailboxes u ((a, b) # rs) s =
     (let (rc, s1) = register_mailbox u (Some a) (Some b) s in if rc \<noteq> AEGIS_OK then (rc, s1) else register_mailboxes u rs s1)"

definition service_routes :: "(string \<times> string) list" where
  "service_routes = [(''aegis-init'', ''aegisd''), (''aegisd'', ''routerd''), (''routerd'', ''rustmyadmin''), (''rustmyadmin'', ''aegisd'')]"

definition service_ipc_prepare_service_messaging :: "userland \<Rightarrow> service_ipc \<Rightarrow> int \<times> service_ipc" where
  "service_ipc_prepare_service_messaging u s =
     (let rc = first_fail
            [(\<not> is_initialised (ipc_state s), AEGIS_EINVAL),
             (\<not> userland_real_multiprocess_launch_ready u \<or> \<not> userland_syscall_expansion_ready u, AEGIS_EINVAL),
             (is_mailbox_count (ipc_state s) \<noteq> 0, AEGIS_EBUSY)]
      in if rc \<noteq> AEGIS_OK then (rc, s)
         else let (rc, s1) = register_mailboxes u service_routes s
              in if rc \<noteq> AEGIS_OK then (rc, s1) else (AEGIS_OK, s1\<lparr>ipc_state := (ipc_state s1)\<lparr>is_messaging_ready := True\<rparr>\<rparr>))"

definition service_ipc_service_messaging_selftest :: "service_ipc \<Rightarrow> int" where
  "service_ipc_service_messaging_selftest s =
     (let st = ipc_state s; mbs = take (unat (is_mailbox_count st)) (mailboxes s);
          bad = (\<lambda>mb. mb_id mb = 0 \<or> mb_channel_id mb = 0 \<or>
                   (mb_state mb \<noteq> MAILBOX_CHANNEL_READY \<and> mb_state mb \<noteq> MAILBOX_ROUNDTRIP_PROVED));
          saw = (\<lambda>n. list_ex (\<lambda>mb. str_eq (mb_service_name mb) n) mbs)
      in first_fail
        [(\<not> is_messaging_ready st, AEGIS_EINVAL), (is_mailbox_count st < 4, AEGIS_EINVAL),
         (is_channel_count st \<noteq> is_mailbox_count st, AEGIS_EINVAL), (is_route_count st \<noteq> is_mailbox_count st, AEGIS_EINVAL),
         (list_ex bad mbs, AEGIS_EINVAL),
         (\<not> (saw ''aegis-init'' \<and> saw ''aegisd'' \<and> saw ''routerd'' \<and> saw ''rustmyadmin''), AEGIS_ENOENT)])"

definition ipc_test_payload :: "u8 list" where
  "ipc_test_payload = map (\<lambda>c. of_nat (of_char c)) ''v43.4:aegisd->routerd:mailbox-ready'' @ [0]"

text \<open>\<open>tid\<close> is the running thread, for the queue layer.\<close>

definition service_ipc_message_roundtrip_selftest :: "u32 \<Rightarrow> service_ipc \<Rightarrow> int \<times> service_ipc" where
  "service_ipc_message_roundtrip_selftest tid s =
     (let st = ipc_state s; mb = mailboxes s ! 1; expected_len = length ipc_test_payload;
          rc = first_fail
            [(\<not> is_messaging_ready st, AEGIS_EINVAL), (is_mailbox_count st < 2, AEGIS_EINVAL),
             (mb_channel_id mb = 0 \<or> mb_state mb \<noteq> MAILBOX_CHANNEL_READY, AEGIS_EINVAL),
             (AEGIS_IPC_TEST_PAYLOAD_MAX < expected_len, AEGIS_EINVAL)]
      in if rc \<noteq> AEGIS_OK then (rc, s)
         else
           let (rc, qs1) = ipc_send tid (mb_channel_id mb) (Some ((!) ipc_test_payload)) (of_nat expected_len) (ipc_queues s);
               s = s\<lparr>ipc_queues := qs1\<rparr>
           in if rc \<noteq> AEGIS_OK then (rc, s)
              else
                let (rc, recv, qs2) = ipc_recv (mb_channel_id mb) (of_nat AEGIS_IPC_TEST_PAYLOAD_MAX) qs1; s = s\<lparr>ipc_queues := qs2\<rparr>
                in if rc < 0 then (rc, s)
                   else if rc \<noteq> int expected_len then (AEGIS_EINVAL, s)
                   else if take expected_len recv \<noteq> ipc_test_payload then (AEGIS_EINVAL, s)
                   else (AEGIS_OK,
                     s\<lparr>mailboxes := (mailboxes s)[1 := mb\<lparr>mb_sent_count := mb_sent_count mb + 1, mb_recv_count := mb_recv_count mb + 1,
                         mb_last_payload_len := of_nat expected_len, mb_state := MAILBOX_ROUNDTRIP_PROVED\<rparr>],
                       ipc_state := st\<lparr>is_last_channel_id := mb_channel_id mb, is_last_roundtrip_bytes := of_nat expected_len,
                         is_roundtrip_ready := True\<rparr>\<rparr>))"

definition service_ipc_service_messaging_ready :: "service_ipc \<Rightarrow> bool" where
  "service_ipc_service_messaging_ready s \<longleftrightarrow> is_messaging_ready (ipc_state s)"

definition service_ipc_message_roundtrip_ready :: "service_ipc \<Rightarrow> bool" where
  "service_ipc_message_roundtrip_ready s \<longleftrightarrow> is_roundtrip_ready (ipc_state s)"

section \<open>Registration\<close>

text \<open>After \<open>k\<close> registrations the first \<open>k\<close> queues are in use, for channels 1 to \<open>k\<close>, and all are empty.\<close>

definition routes_ok :: "nat \<Rightarrow> service_ipc \<Rightarrow> bool" where
  "routes_ok k s \<longleftrightarrow> is_initialised (ipc_state s) \<and> is_mailbox_count (ipc_state s) = of_nat k \<and>
     is_channel_count (ipc_state s) = of_nat k \<and> is_route_count (ipc_state s) = of_nat k \<and>
     length (mailboxes s) = AEGIS_IPC_MAILBOX_MAX \<and> next_mailbox_id s = of_nat (Suc k) \<and> channels_ok (ipc_channels s) \<and>
     next_channel_id (ipc_channels s) = of_nat (Suc k) \<and> queues_ok (ipc_queues s) \<and>
     (\<forall>i<MAX_MSG_QUEUES. q_active (ipc_queues s ! i) \<longleftrightarrow> i < k) \<and>
     fifo_of (ipc_queues s) = (\<lambda>c. if 0 < unat c \<and> unat c \<le> k then Some [] else None)"

lemma routes_ok_init: "queues_ok (ipc_queues s) \<Longrightarrow> routes_ok 0 (service_ipc_init s)"
  using ipc_init_fifo [of "ipc_queues s"] channels_ok_init
  by (auto simp: routes_ok_def service_ipc_init_def queues_ok_def ipc_init_def channel_init_def)

lemma route_id: "k < 8 \<Longrightarrow> unat (of_nat (Suc k) :: u32) = Suc k \<and> unat (of_nat k :: u32) = k \<and> (of_nat (Suc k) :: u32) \<noteq> 0"
proof -
  assume "k < 8"
  then have "unat (of_nat (Suc k) :: u32) = Suc k" "unat (of_nat k :: u32) = k" by (auto intro!: unat_of_nat_small simp del: of_nat_Suc)
  then show ?thesis by (auto simp del: of_nat_Suc)
qed

lemma create_channel_routes:
  assumes "routes_ok k s" and "k < 8" and "channel_create ow (ipc_channels s) = (h, cs)"
  shows "h \<noteq> None \<and> channel_id_from_handle h cs = of_nat (Suc k) \<and> channels_ok cs \<and> next_channel_id cs = of_nat (Suc (Suc k))"
proof -
  have c: "channels_ok (ipc_channels s)" "next_channel_id (ipc_channels s) = of_nat (Suc k)" using assms(1) by (auto simp: routes_ok_def)
  then have u: "unat (next_channel_id (ipc_channels s)) = Suc k" using route_id [OF assms(2)] by simp
  then have lt: "unat (next_channel_id (ipc_channels s)) < MAX_CHANNELS" using assms(2) by (simp add: channel_consts)
  note sp = channel_create_spec [OF c(1) lt assms(3)] and inc = next_channel_inc [OF c(1) lt]
  have "channels_ok cs"
    using channels_ok_same_names [OF c(1), of cs] sp inc lt u by (simp add: word_le_nat_alt)
  then show ?thesis using sp c(2) by (cases h) (simp_all add: add.commute)
qed

lemma create_queue_routes:
  assumes "routes_ok k s" and "k < 8" and "ipc_create_queue (of_nat (Suc k)) (ipc_queues s) = (q, qs)"
  shows "q = int k \<and> queues_ok qs \<and> (\<forall>i<MAX_MSG_QUEUES. q_active (qs ! i) \<longleftrightarrow> i < Suc k) \<and>
    fifo_of qs = (\<lambda>c. if 0 < unat c \<and> unat c \<le> Suc k then Some [] else None)"
proof -
  have r: "queues_ok (ipc_queues s)" "\<forall>i<MAX_MSG_QUEUES. q_active (ipc_queues s ! i) \<longleftrightarrow> i < k"
    "fifo_of (ipc_queues s) = (\<lambda>c. if 0 < unat c \<and> unat c \<le> k then Some [] else None)" using assms(1) by (auto simp: routes_ok_def)
  have l: "length (ipc_queues s) = MAX_MSG_QUEUES" using r(1) by (simp add: queues_ok_def)
  have "scan (\<lambda>q. \<not> q_active q) (ipc_queues s) = Some k"
    using r(2) l assms(2) by (intro scan_eq_SomeI) (auto simp: message_consts)
  then have q: "q = int k" "qs = (ipc_queues s)[k := open_queue (of_nat (Suc k)) (ipc_queues s ! k)]"
    using assms(3) by (auto simp: ipc_create_queue_def)
  have u: "unat (of_nat (Suc k) :: u32) = Suc k" using route_id [OF assms(2)] by simp
  then have "queues_ok qs \<and> fifo_of qs = (fifo_of (ipc_queues s))(of_nat (Suc k) \<mapsto> [])"
    using ipc_create_fifo [OF r(1) assms(3)] q(1) r(3) by auto
  moreover have "(fifo_of (ipc_queues s))(of_nat (Suc k) \<mapsto> []) = (\<lambda>c. if 0 < unat c \<and> unat c \<le> Suc k then Some [] else None)"
    unfolding r(3) using u by (auto simp: fun_eq_iff le_Suc_eq word_unat_eq_iff)
  moreover have "\<forall>i<MAX_MSG_QUEUES. q_active (qs ! i) \<longleftrightarrow> i < Suc k"
    using r(2) l q(2) by (auto simp: nth_list_update open_queue_def less_Suc_eq)
  ultimately show ?thesis using q(1) by simp
qed

definition route_mailbox :: "nat \<Rightarrow> string \<Rightarrow> aegis_service_mailbox \<Rightarrow> bool" where
  "route_mailbox k a mb \<longleftrightarrow> mb_id mb \<noteq> 0 \<and> mb_channel_id mb = of_nat (Suc k) \<and> mb_state mb = MAILBOX_CHANNEL_READY \<and> mb_service_name mb = a"

lemma register_mailbox_ok:
  assumes "routes_ok k s" and "k < 8" and "a \<noteq> []" and "b \<noteq> []" and "length a < 32"
    and "userland_find_feature (Some a) u \<noteq> None" and "userland_find_feature (Some b) u \<noteq> None"
  shows "\<exists>s' mb. register_mailbox u (Some a) (Some b) s = (AEGIS_OK, s') \<and> routes_ok (Suc k) s' \<and>
    mailboxes s' = (mailboxes s)[k := mb] \<and> route_mailbox k a mb"
proof -
  obtain fa fb where f: "userland_find_feature (Some a) u = Some fa" "userland_find_feature (Some b) u = Some fb" using assms(6,7) by auto
  obtain h' cs where h': "channel_create (uf_id fa) (ipc_channels s) = (h', cs)" by force
  obtain q' qs where q': "ipc_create_queue (of_nat (Suc k)) (ipc_queues s) = (q', qs)" by force
  obtain i where i: "h' = Some i" using create_channel_routes [OF assms(1,2) h'] by auto
  note h = h' [unfolded i]
  have hc: "channel_id_from_handle (Some i) cs = of_nat (Suc k)" "channels_ok cs" "next_channel_id cs = of_nat (Suc (Suc k))"
    using create_channel_routes [OF assms(1,2) h] by auto
  have qc: "queues_ok qs" "\<forall>i<MAX_MSG_QUEUES. q_active (qs ! i) \<longleftrightarrow> i < Suc k"
    "fifo_of qs = (\<lambda>c. if 0 < unat c \<and> unat c \<le> Suc k then Some [] else None)" and "q' = int k"
    using create_queue_routes [OF assms(1,2) q'] by auto
  note q = q' [unfolded \<open>q' = int k\<close>]
  note u = route_id [OF assms(2)]
  have r: "is_initialised (ipc_state s)" "is_mailbox_count (ipc_state s) = of_nat k" "next_mailbox_id s = of_nat (Suc k)"
    using assms(1) by (auto simp: routes_ok_def)
  let ?s = "snd (register_mailbox u (Some a) (Some b) s)" and ?mb = "mailboxes (snd (register_mailbox u (Some a) (Some b) s)) ! k"
  have reg: "fst (register_mailbox u (Some a) (Some b) s) = AEGIS_OK"
    "ipc_channels ?s = cs" "ipc_queues ?s = qs" "next_mailbox_id ?s = next_mailbox_id s + 1"
    "ipc_state ?s = (ipc_state s)\<lparr>is_mailbox_count := of_nat k + 1, is_channel_count := is_channel_count (ipc_state s) + 1,
       is_route_count := is_route_count (ipc_state s) + 1, is_last_channel_id := of_nat (Suc k)\<rparr>"
    using assms(2-5) f h q hc u r
    by (simp_all add: register_mailbox_def Let_def mailbox_consts del: of_nat_Suc)
  have "mailboxes ?s = (mailboxes s)[k := ?mb] \<and> route_mailbox k a ?mb"
    using assms(1-5) f h q hc u r
    by (simp add: register_mailbox_def Let_def mailbox_consts ipc_copy_string_def route_mailbox_def routes_ok_def del: of_nat_Suc)
  moreover from this have "length (mailboxes ?s) = length (mailboxes s)" by (metis length_list_update)
  then have "routes_ok (Suc k) ?s" using assms(1) reg hc qc by (simp add: routes_ok_def add.commute)
  ultimately show ?thesis using reg(1) by (metis prod.collapse)
qed

lemma register_mailboxes_ok:
  assumes "routes_ok k s" and "k + length rs \<le> 8"
    and "\<forall>(a, b)\<in>set rs. a \<noteq> [] \<and> b \<noteq> [] \<and> length a < 32 \<and> userland_find_feature (Some a) u \<noteq> None \<and>
      userland_find_feature (Some b) u \<noteq> None"
  shows "\<exists>s'. register_mailboxes u rs s = (AEGIS_OK, s') \<and> routes_ok (k + length rs) s' \<and>
    (\<forall>i<k. mailboxes s' ! i = mailboxes s ! i) \<and> (\<forall>i<length rs. route_mailbox (k + i) (fst (rs ! i)) (mailboxes s' ! (k + i)))"
  using assms
proof (induction rs arbitrary: k s)
  case (Cons r rs)
  obtain a b where r: "r = (a, b)" by force
  have "k < 8" using Cons.prems(2) by simp
  then obtain s1 mb where 1: "register_mailbox u (Some a) (Some b) s = (AEGIS_OK, s1)" "routes_ok (Suc k) s1"
    "mailboxes s1 = (mailboxes s)[k := mb]" "route_mailbox k a mb"
    using register_mailbox_ok [OF Cons.prems(1), of a b u] Cons.prems(3) r by auto
  obtain s2 where 2: "register_mailboxes u rs s1 = (AEGIS_OK, s2)" "routes_ok (Suc k + length rs) s2"
    "\<forall>i<Suc k. mailboxes s2 ! i = mailboxes s1 ! i" "\<forall>i<length rs. route_mailbox (Suc k + i) (fst (rs ! i)) (mailboxes s2 ! (Suc k + i))"
    using Cons.IH [OF 1(2)] Cons.prems(2,3) by auto
  have "mailboxes s1 ! k = mb" using Cons.prems(1) 1(3) \<open>k < 8\<close> by (simp add: routes_ok_def mailbox_consts)
  then have "route_mailbox (k + i) (fst ((r # rs) ! i)) (mailboxes s2 ! (k + i))" if "i < Suc (length rs)" for i
    using that 1(4) 2(3,4) r by (cases i) auto
  then show ?case using 1 2 r by (auto intro!: exI [of _ s2])
qed simp

lemma prepare_routes:
  assumes "queues_ok (ipc_queues s)" and "userland_real_multiprocess_launch_ready u" and "userland_syscall_expansion_ready u"
    and "\<forall>n\<in>{''aegis-init'', ''aegisd'', ''routerd'', ''rustmyadmin''}. userland_find_feature (Some n) u \<noteq> None"
  shows "\<exists>s'. service_ipc_prepare_service_messaging u (service_ipc_init s) = (AEGIS_OK, s') \<and> routes_ok 4 s' \<and>
    is_messaging_ready (ipc_state s') \<and> (\<forall>i<4. route_mailbox i (fst (service_routes ! i)) (mailboxes s' ! i))"
proof -
  let ?s = "service_ipc_init s"
  have four: "length service_routes = 4" by (simp add: service_routes_def)
  have "\<forall>(a, b)\<in>set service_routes. a \<noteq> [] \<and> b \<noteq> [] \<and> length a < 32 \<and> userland_find_feature (Some a) u \<noteq> None \<and>
      userland_find_feature (Some b) u \<noteq> None" using assms(4) by (simp add: service_routes_def)
  then obtain s1 where 1: "register_mailboxes u service_routes ?s = (AEGIS_OK, s1)" "routes_ok 4 s1"
    "\<forall>i<4. route_mailbox i (fst (service_routes ! i)) (mailboxes s1 ! i)"
    using register_mailboxes_ok [OF routes_ok_init [OF assms(1)], of service_routes u] four by auto
  have "is_initialised (ipc_state ?s)" "is_mailbox_count (ipc_state ?s) = 0" by (simp_all add: service_ipc_init_def)
  then have "service_ipc_prepare_service_messaging u ?s = (AEGIS_OK, s1\<lparr>ipc_state := (ipc_state s1)\<lparr>is_messaging_ready := True\<rparr>\<rparr>)"
    using 1(1) assms(2,3) by (simp add: service_ipc_prepare_service_messaging_def)
  then show ?thesis using 1 by (simp add: routes_ok_def)
qed

lemma selftest_routes:
  assumes "routes_ok 4 s" and "is_messaging_ready (ipc_state s)"
    and "\<forall>i<4. mb_id (mailboxes s ! i) \<noteq> 0 \<and> mb_channel_id (mailboxes s ! i) \<noteq> 0 \<and>
      mb_state (mailboxes s ! i) \<in> {MAILBOX_CHANNEL_READY, MAILBOX_ROUNDTRIP_PROVED} \<and>
      mb_service_name (mailboxes s ! i) = fst (service_routes ! i)"
  shows "service_ipc_service_messaging_selftest s = AEGIS_OK"
proof -
  have mbs: "take 4 (mailboxes s) = [mailboxes s ! 0, mailboxes s ! 1, mailboxes s ! 2, mailboxes s ! 3]"
    using assms(1) by (auto simp: routes_ok_def mailbox_consts list_eq_iff_nth_eq less_Suc_eq numeral_nat)
  have "\<forall>i\<in>{0, 1, 2, 3}. mb_id (mailboxes s ! i) \<noteq> 0 \<and> mb_channel_id (mailboxes s ! i) \<noteq> 0 \<and>
      mb_state (mailboxes s ! i) \<in> {MAILBOX_CHANNEL_READY, MAILBOX_ROUNDTRIP_PROVED} \<and>
      mb_service_name (mailboxes s ! i) = fst (service_routes ! i)" using assms(3) by auto
  then show ?thesis using assms(1,2) mbs
    by (simp add: service_ipc_service_messaging_selftest_def routes_ok_def service_routes_def Let_def)
qed

lemma payload_length: "length ipc_test_payload = 36"
  by (simp add: ipc_test_payload_def)

lemma nth_list_update_if: "xs[i := y] ! j = (if i = j \<and> i < length xs then y else xs ! j)"
  by (cases "i < length xs") (simp_all add: nth_list_update list_update_beyond)

lemma send_recv_active:
  assumes "ipc_send t ch d n qs = (AEGIS_OK, q1)" and "ipc_recv ch m q1 = (rc, b, q2)"
  shows "q_active (q2 ! i) = q_active (qs ! i)"
proof -
  have "q_active (q1 ! i) = q_active (qs ! i)"
    using assms(1) by (auto simp: ipc_send_def enqueue_fields nth_list_update_if split: if_splits option.splits)
  moreover have "q_active (q2 ! i) = q_active (q1 ! i)"
    using assms(2) by (auto simp: ipc_recv_def Let_def enqueue_fields nth_list_update_if split: if_splits option.splits)
  ultimately show ?thesis by simp
qed

lemma roundtrip_routes:
  assumes "routes_ok 4 s" and "is_messaging_ready (ipc_state s)" and "route_mailbox 1 a (mailboxes s ! 1)"
  shows "\<exists>s'. service_ipc_message_roundtrip_selftest tid s = (AEGIS_OK, s') \<and> is_roundtrip_ready (ipc_state s') \<and>
    is_messaging_ready (ipc_state s') \<and> routes_ok 4 s' \<and>
    mailboxes s' = (mailboxes s)[1 := (mailboxes s ! 1)\<lparr>mb_sent_count := mb_sent_count (mailboxes s ! 1) + 1,
      mb_recv_count := mb_recv_count (mailboxes s ! 1) + 1, mb_last_payload_len := 36, mb_state := MAILBOX_ROUNDTRIP_PROVED\<rparr>]"
proof -
  have r: "queues_ok (ipc_queues s)" "fifo_of (ipc_queues s) 2 = Some []" "is_mailbox_count (ipc_state s) = 4"
    using assms(1) by (auto simp: routes_ok_def)
  have m: "mb_channel_id (mailboxes s ! 1) = 2" "mb_state (mailboxes s ! 1) = MAILBOX_CHANNEL_READY"
    using assms(3) by (auto simp: route_mailbox_def)
  obtain q1 q2 where q: "ipc_send tid 2 (Some ((!) ipc_test_payload)) 36 (ipc_queues s) = (AEGIS_OK, q1)"
    "ipc_recv 2 64 q1 = (36, map ((!) ipc_test_payload) [0..<36], q2)" "queues_ok q2" "fifo_of q2 = fifo_of (ipc_queues s)"
    using ipc.send_then_recv [OF r(1,2), of 36 64 tid "(!) ipc_test_payload"] by (auto simp: message_consts)
  have b: "map ((!) ipc_test_payload) [0..<36] = ipc_test_payload" using map_nth [of ipc_test_payload] by (simp add: payload_length)
  let ?mb = "mailboxes s ! 1"
  have "service_ipc_message_roundtrip_selftest tid s = (AEGIS_OK, s\<lparr>ipc_queues := q2,
      mailboxes := (mailboxes s)[1 := ?mb\<lparr>mb_sent_count := mb_sent_count ?mb + 1, mb_recv_count := mb_recv_count ?mb + 1,
        mb_last_payload_len := 36, mb_state := MAILBOX_ROUNDTRIP_PROVED\<rparr>],
      ipc_state := (ipc_state s)\<lparr>is_last_channel_id := 2, is_last_roundtrip_bytes := 36, is_roundtrip_ready := True\<rparr>\<rparr>)"
    using q(1,2) r(3) m assms(2) b
    by (simp add: service_ipc_message_roundtrip_selftest_def payload_length mailbox_consts Let_def del: One_nat_def)
  moreover have "\<forall>i<MAX_MSG_QUEUES. q_active (q2 ! i) \<longleftrightarrow> i < 4"
    using send_recv_active [OF q(1,2)] assms(1) by (simp add: routes_ok_def)
  ultimately show ?thesis using assms(1,2) q(3,4) by (simp add: routes_ok_def)
qed

section \<open>Properties\<close>

text \<open>
  C22. Service messaging comes up: whenever the userland has reached its launch and system call milestones and knows
  the four early services, a fresh initialisation followed by the preparation registers all four routes, the messaging
  self-test passes, the round-trip test delivers its payload through the queues unchanged for any running thread, and
  the messaging self-test still passes afterwards.
\<close>

theorem service_messaging_comes_up:
  assumes "queues_ok (ipc_queues s)" and "userland_real_multiprocess_launch_ready u" and "userland_syscall_expansion_ready u"
    and "\<forall>n\<in>{''aegis-init'', ''aegisd'', ''routerd'', ''rustmyadmin''}. userland_find_feature (Some n) u \<noteq> None"
  shows "\<exists>s1 s2. service_ipc_prepare_service_messaging u (service_ipc_init s) = (AEGIS_OK, s1) \<and>
    service_ipc_service_messaging_selftest s1 = AEGIS_OK \<and> service_ipc_message_roundtrip_selftest tid s1 = (AEGIS_OK, s2) \<and>
    service_ipc_message_roundtrip_ready s2 \<and> service_ipc_service_messaging_selftest s2 = AEGIS_OK"
proof -
  obtain s1 where 1: "service_ipc_prepare_service_messaging u (service_ipc_init s) = (AEGIS_OK, s1)" "routes_ok 4 s1"
    "is_messaging_ready (ipc_state s1)" "\<forall>i<4. route_mailbox i (fst (service_routes ! i)) (mailboxes s1 ! i)"
    using prepare_routes [OF assms] by blast
  have rm: "route_mailbox 1 (fst (service_routes ! 1)) (mailboxes s1 ! 1)" using 1(4) by (simp del: One_nat_def)
  obtain s2 where 2: "service_ipc_message_roundtrip_selftest tid s1 = (AEGIS_OK, s2)" "is_roundtrip_ready (ipc_state s2)"
    "is_messaging_ready (ipc_state s2)" "routes_ok 4 s2"
    "mailboxes s2 = (mailboxes s1)[1 := (mailboxes s1 ! 1)\<lparr>mb_sent_count := mb_sent_count (mailboxes s1 ! 1) + 1,
      mb_recv_count := mb_recv_count (mailboxes s1 ! 1) + 1, mb_last_payload_len := 36, mb_state := MAILBOX_ROUNDTRIP_PROVED\<rparr>]"
    using roundtrip_routes [OF 1(2,3) rm, of tid] by blast
  have c: "\<forall>i<4. mb_id (mailboxes s1 ! i) \<noteq> 0 \<and> mb_channel_id (mailboxes s1 ! i) \<noteq> 0 \<and>
      mb_state (mailboxes s1 ! i) = MAILBOX_CHANNEL_READY \<and> mb_service_name (mailboxes s1 ! i) = fst (service_routes ! i)"
    using 1(4) route_id unfolding route_mailbox_def by (auto simp del: of_nat_Suc)
  have "service_ipc_service_messaging_selftest s1 = AEGIS_OK" using 1(2,3) c by (intro selftest_routes) auto
  moreover have "service_ipc_service_messaging_selftest s2 = AEGIS_OK"
    using 2(3-5) c by (intro selftest_routes) (auto simp: nth_list_update_if)
  ultimately show ?thesis using 1(1) 2(1,2) by (auto simp: service_ipc_message_roundtrip_ready_def)
qed

text \<open>A userland with the four services, at the required milestones.\<close>

definition messaging_userland :: userland where
  "messaging_userland = userland_handoff_init
     \<lparr>features := map (\<lambda>n. zero_feature\<lparr>uf_name := n, uf_state := USERLAND_HANDOFF_READY\<rparr>) [''aegis-init'', ''aegisd'', ''routerd'', ''rustmyadmin''],
      handoff := zero_handoff\<lparr>feature_count := 4, real_multiprocess_launch_ready := True, syscall_expansion_ready := True\<rparr>\<rparr>"

text \<open>The zeroed static state.\<close>

definition service_ipc_start :: service_ipc where
  "service_ipc_start = \<lparr>ipc_state = \<lparr>is_initialised = False, is_messaging_ready = False, is_roundtrip_ready = False, is_mailbox_count = 0,
       is_channel_count = 0, is_route_count = 0, is_last_channel_id = 0, is_last_roundtrip_bytes = 0\<rparr>,
     mailboxes = replicate AEGIS_IPC_MAILBOX_MAX zero_mailbox, next_mailbox_id = 1, ipc_channels = channel_init, ipc_queues = queues_start\<rparr>"

lemma messaging_userland_features:
  "\<forall>n\<in>{''aegis-init'', ''aegisd'', ''routerd'', ''rustmyadmin''}. userland_find_feature (Some n) messaging_userland \<noteq> None"
  by (simp add: messaging_userland_def userland_find_feature_def find_feature_index_def zero_feature_def)

lemma service_messaging_comes_up_witness:
  "\<exists>s1 s2. service_ipc_prepare_service_messaging messaging_userland (service_ipc_init service_ipc_start) = (AEGIS_OK, s1) \<and>
    service_ipc_message_roundtrip_selftest 9 s1 = (AEGIS_OK, s2)"
  using service_messaging_comes_up [OF _ _ _ messaging_userland_features, of service_ipc_start 9] queues_start_ok
  by (auto simp: messaging_userland_def userland_real_multiprocess_launch_ready_def userland_syscall_expansion_ready_def service_ipc_start_def)

end
