(* ===== verification/Exceptions.thy ===== *)
theory Exceptions
  imports Userland_Proofs
begin

text \<open>
  Exceptions (kernel/core/exception.c): decoding of the syndrome register, the fault names, and
  the system call entry, which also drives the bring-up milestones of the first user process.
  Registers that assembly code reads (ESR, FAR, ELR, SPSR, VBAR) are arguments.
\<close>

record aegis_exception_fault =
  ef_esr :: u64
  ef_far :: u64
  ef_elr :: u64
  ef_ec :: u64
  ef_iss :: u64
  ef_fsc :: u64
  ef_write :: bool
  ef_instruction_abort :: bool
  ef_data_abort :: bool
  ef_from_lower_el :: bool
  ef_from_current_el :: bool
  ef_is_page_fault :: bool

text \<open>The registers that the vector code saves, in the order of the frame.\<close>

record exception_frame =
  r_x30 :: u64
  r_x28 :: u64
  r_x29 :: u64
  r_x26 :: u64
  r_x27 :: u64
  r_x24 :: u64
  r_x25 :: u64
  r_x22 :: u64
  r_x23 :: u64
  r_x20 :: u64
  r_x21 :: u64
  r_x18 :: u64
  r_x19 :: u64
  r_x16 :: u64
  r_x17 :: u64
  r_x14 :: u64
  r_x15 :: u64
  r_x12 :: u64
  r_x13 :: u64
  r_x10 :: u64
  r_x11 :: u64
  r_x8 :: u64
  r_x9 :: u64
  r_x6 :: u64
  r_x7 :: u64
  r_x4 :: u64
  r_x5 :: u64
  r_x2 :: u64
  r_x3 :: u64
  r_x0 :: u64
  r_x1 :: u64

definition exception_vector_selftest :: "u64 \<Rightarrow> u64 \<Rightarrow> int" where
  "exception_vector_selftest vbar expected =
     first_fail [(expected AND 0x7ff \<noteq> 0, AEGIS_EINVAL), (vbar AND NOT 0x7ff \<noteq> expected AND NOT 0x7ff, AEGIS_EINVAL)]"

definition exception_decode_fault :: "u64 \<Rightarrow> u64 \<Rightarrow> u64 \<Rightarrow> aegis_exception_fault" where
  "exception_decode_fault esr far elr =
     (let ec = drop_bit 26 esr AND 0x3f; iss = esr AND 0x01ffffff; fsc = iss AND 0x3f;
          instruction_abort = (ec = 0x20 \<or> ec = 0x21); data_abort = (ec = 0x24 \<or> ec = 0x25)
      in \<lparr>ef_esr = esr, ef_far = far, ef_elr = elr, ef_ec = ec, ef_iss = iss, ef_fsc = fsc,
          ef_write = (drop_bit 6 iss AND 0x1 \<noteq> 0), ef_instruction_abort = instruction_abort, ef_data_abort = data_abort,
          ef_from_lower_el = (ec = 0x20 \<or> ec = 0x24), ef_from_current_el = (ec = 0x21 \<or> ec = 0x25),
          ef_is_page_fault = ((instruction_abort \<or> data_abort) \<and>
            ((0x04 \<le> fsc \<and> fsc \<le> 0x07) \<or> (0x09 \<le> fsc \<and> fsc \<le> 0x0b) \<or> (0x0d \<le> fsc \<and> fsc \<le> 0x0f) \<or> fsc = 0x21))\<rparr>)"

definition exception_fault_is_user_page_fault :: "aegis_exception_fault option \<Rightarrow> bool" where
  "exception_fault_is_user_page_fault fault \<longleftrightarrow>
     (case fault of None \<Rightarrow> False | Some f \<Rightarrow> ef_is_page_fault f \<and> ef_from_lower_el f)"

definition esr_ec_names :: "(u64 \<times> string) list" where
  "esr_ec_names =
    [(0x00, ''Unknown reason''), (0x01, ''WFI/WFE trap''), (0x07, ''FP/SIMD access trap''), (0x11, ''SVC AArch32''),
     (0x15, ''SVC AArch64''), (0x18, ''MSR/MRS/System instruction trap''), (0x20, ''Instruction abort (lower EL)''),
     (0x21, ''Instruction abort (current EL)''), (0x22, ''PC alignment fault''), (0x24, ''Data abort (lower EL)''),
     (0x25, ''Data abort (current EL)''), (0x26, ''SP alignment fault''), (0x2c, ''FP exception AArch64''),
     (0x2f, ''SError interrupt''), (0x30, ''Breakpoint (lower EL)''), (0x31, ''Breakpoint (current EL)''),
     (0x3c, ''BRK instruction AArch64'')]"

definition esr_ec_name :: "u64 \<Rightarrow> string" where
  "esr_ec_name ec = (case map_of esr_ec_names ec of Some n \<Rightarrow> n | None \<Rightarrow> ''Reserved/implementation-defined'')"

definition abort_fsc_names :: "(u64 \<times> string) list" where
  "abort_fsc_names =
    [(0x00, ''Address size fault, level 0''), (0x01, ''Address size fault, level 1''),
     (0x02, ''Address size fault, level 2''), (0x03, ''Address size fault, level 3''),
     (0x04, ''Translation fault, level 0''), (0x05, ''Translation fault, level 1''),
     (0x06, ''Translation fault, level 2''), (0x07, ''Translation fault, level 3''),
     (0x09, ''Access flag fault, level 1''), (0x0a, ''Access flag fault, level 2''),
     (0x0b, ''Access flag fault, level 3''), (0x0d, ''Permission fault, level 1''),
     (0x0e, ''Permission fault, level 2''), (0x0f, ''Permission fault, level 3''),
     (0x10, ''Synchronous external abort''), (0x11, ''Synchronous tag check fault''),
     (0x15, ''Synchronous external abort, level 1''), (0x16, ''Synchronous external abort, level 2''),
     (0x17, ''Synchronous external abort, level 3''), (0x18, ''Synchronous parity/ECC error''),
     (0x1c, ''Synchronous parity/ECC error, level 0''), (0x1d, ''Synchronous parity/ECC error, level 1''),
     (0x1e, ''Synchronous parity/ECC error, level 2''), (0x1f, ''Synchronous parity/ECC error, level 3''),
     (0x21, ''Alignment fault''), (0x22, ''Debug event'')]"

definition abort_fsc_name :: "u64 \<Rightarrow> string" where
  "abort_fsc_name fsc = (case map_of abort_fsc_names fsc of Some n \<Rightarrow> n | None \<Rightarrow> ''Other/implementation-defined'')"

section \<open>The system call entry\<close>

definition SYS_EXIT_NR :: u64 where "SYS_EXIT_NR = 4"

text \<open>
  The bring-up build stops the core in a wait loop after some probes; otherwise the handler
  returns the frame to the vector code.
\<close>

datatype handler_result = Returned exception_frame userland | Waits userland

definition syscall_handler ::
  "(u64 \<Rightarrow> u64 list \<Rightarrow> int) \<Rightarrow> u64 \<Rightarrow> u64 \<Rightarrow> exception_frame \<Rightarrow> userland \<Rightarrow> handler_result" where
  "syscall_handler dispatch elr spsr f u =
     (let ret = dispatch (r_x8 f) [r_x0 f, r_x1 f, r_x2 f, r_x3 f, r_x4 f, r_x5 f]
      in if userland_first_tiny_process_active u
         then Returned (f\<lparr>r_x0 := word_of_int ret\<rparr>)
                (userland_mark_first_user_process_syscall_return (r_x8 f) (r_x0 f) ret elr spsr u)
         else if userland_first_tiny_process_return_probe_active u
         then let u1 = userland_mark_first_user_process_continued_after_syscall (r_x8 f) (r_x0 f) elr spsr u
              in Waits (if r_x8 f = SYS_EXIT_NR
                        then userland_mark_post_exit_scheduler_handoff (userland_mark_first_user_process_exit (r_x8 f) (r_x0 f) elr spsr u1)
                        else u1)
         else if userland_controlled_el0_transition_active u
         then Waits (userland_mark_el0_svc_trap (r_x8 f) (r_x0 f) elr spsr u)
         else Returned (f\<lparr>r_x0 := word_of_int ret\<rparr>) u)"

section \<open>Properties\<close>

text \<open>The states the handler leaves are reached by userland operations.\<close>

lemma handler_reachable:
  "userland_reachable u \<Longrightarrow> case syscall_handler d elr spsr f u of Returned f' v \<Rightarrow> userland_reachable v | Waits v \<Rightarrow> userland_reachable v"
  unfolding syscall_handler_def Let_def
  by (auto intro: reach_step [OF reach_step [OF reach_step [OF _ step_continued] step_exit] step_post_exit]
      reach_step [OF _ step_return] reach_step [OF _ step_continued] reach_step [OF _ step_svc])

lemma mark_first_handoff [simp]: "handoff (mark_first_process st u) = handoff u"
  by (simp add: mark_first_process_def)


text \<open>A frame whose system call number is an exit.\<close>

definition exit_frame :: exception_frame where
  "exit_frame = \<lparr>r_x30 = 0, r_x28 = 0, r_x29 = 0, r_x26 = 0, r_x27 = 0, r_x24 = 0, r_x25 = 0, r_x22 = 0, r_x23 = 0, r_x20 = 0, r_x21 = 0, r_x18 = 0, r_x19 = 0, r_x16 = 0, r_x17 = 0,
     r_x14 = 0, r_x15 = 0, r_x12 = 0, r_x13 = 0, r_x10 = 0, r_x11 = 0, r_x8 = 4, r_x9 = 0, r_x6 = 0, r_x7 = 0, r_x4 = 0, r_x5 = 0, r_x2 = 0, r_x3 = 0, r_x0 = 0, r_x1 = 0\<rparr>"

definition launchable_userland :: userland where
  "launchable_userland = userland_handoff_init\<lparr>handoff := zero_handoff\<lparr>first_user_process_launch_ready := True, process_descriptor_count := 1\<rparr>\<rparr>"


end
