(* ===== verification/Supervisor.thy ===== *)
theory Supervisor
  imports Service_IPC Exceptions
begin

text \<open>
  The service supervisor (kernel/core/service_supervisor.c): registration of the user processes
  and of native services, fault accounting, the restart policy with exponential back-off
  and shutdown.  The counter behind \<open>service_supervisor_clock_ticks\<close> is an argument \<open>now\<close>.
\<close>

definition AEGIS_SUPERVISOR_SERVICE_MAX :: nat where "AEGIS_SUPERVISOR_SERVICE_MAX = 16"
definition AEGIS_SUPERVISOR_NAME_MAX :: nat where "AEGIS_SUPERVISOR_NAME_MAX = 32"
definition POLICY_REQUIRED :: u32 where "POLICY_REQUIRED = 1"
definition POLICY_RESTART_ON_FAULT :: u32 where "POLICY_RESTART_ON_FAULT = 2"
definition POLICY_CONTROL_PLANE :: u32 where "POLICY_CONTROL_PLANE = 4"

lemmas supervisor_consts = AEGIS_SUPERVISOR_SERVICE_MAX_def AEGIS_SUPERVISOR_NAME_MAX_def

datatype supervised_state = SUPERVISED_EMPTY | SUPERVISED_REGISTERED | SUPERVISED_STARTING | SUPERVISED_RUNNING
  | SUPERVISED_FAULTED | SUPERVISED_RESTARTING | SUPERVISED_STOPPED

datatype service_fault_kind = FAULT_NONE | FAULT_EXIT | FAULT_PAGE_FAULT | FAULT_WATCHDOG | FAULT_IPC

record service_fault_record =
  fr_kind :: service_fault_kind
  fr_service_id :: u32
  fr_pid :: u32
  fr_fault_count_snapshot :: u32
  fr_exit_code :: int
  fr_esr :: u64
  fr_far :: u64
  fr_elr :: u64
  fr_ec :: u64
  fr_fsc :: u64
  fr_lower_el :: bool
  fr_write :: bool
  fr_page_fault :: bool

record supervised_service =
  sv_id :: u32
  sv_service_id :: u32
  sv_pid :: u32
  sv_name :: string
  sv_state :: supervised_state
  sv_policy :: u32
  sv_restart_count :: u32
  sv_fault_count :: u32
  sv_consecutive_failures :: u32
  sv_max_restarts :: u32
  sv_restart_window_ticks :: u64
  sv_base_backoff_ticks :: u64
  sv_first_failure_tick :: u64
  sv_next_restart_tick :: u64
  sv_shutdown_requested :: bool
  sv_last_exit_code :: int
  sv_last_fault :: service_fault_record

record supervisor_state =
  su_initialised :: bool
  su_registry_ready :: bool
  su_services_running :: bool
  su_fault_proof_ready :: bool
  su_page_fault_proof_ready :: bool
  su_service_marked_faulted :: bool
  su_handoff_preserved :: bool
  su_service_count :: u32
  su_running_count :: u32
  su_faulted_count :: u32
  su_total_faults :: u32
  su_total_restarts :: u32
  su_last_fault_service_id :: u32
  su_last_fault_pid :: u32
  su_restart_throttled_count :: u32
  su_permanently_faulted_count :: u32
  su_shutdown_in_progress :: bool
  su_last_fault_far :: u64
  su_last_fault_elr :: u64
  su_last_fault_esr :: u64

record supervisor =
  supervised :: "supervised_service list"
  sup_state :: supervisor_state
  next_supervised_id :: u32

definition zero_fault_record :: service_fault_record where
  "zero_fault_record = \<lparr>fr_kind = FAULT_NONE, fr_service_id = 0, fr_pid = 0, fr_fault_count_snapshot = 0, fr_exit_code = 0, fr_esr = 0,
     fr_far = 0, fr_elr = 0, fr_ec = 0, fr_fsc = 0, fr_lower_el = False, fr_write = False, fr_page_fault = False\<rparr>"

definition zero_supervised :: supervised_service where
  "zero_supervised = \<lparr>sv_id = 0, sv_service_id = 0, sv_pid = 0, sv_name = [], sv_state = SUPERVISED_EMPTY, sv_policy = 0,
     sv_restart_count = 0, sv_fault_count = 0, sv_consecutive_failures = 0, sv_max_restarts = 0, sv_restart_window_ticks = 0,
     sv_base_backoff_ticks = 0, sv_first_failure_tick = 0, sv_next_restart_tick = 0, sv_shutdown_requested = False,
     sv_last_exit_code = 0, sv_last_fault = zero_fault_record\<rparr>"

definition zero_supervisor_state :: supervisor_state where
  "zero_supervisor_state = \<lparr>su_initialised = False, su_registry_ready = False, su_services_running = False, su_fault_proof_ready = False,
     su_page_fault_proof_ready = False, su_service_marked_faulted = False, su_handoff_preserved = False, su_service_count = 0,
     su_running_count = 0, su_faulted_count = 0, su_total_faults = 0, su_total_restarts = 0, su_last_fault_service_id = 0,
     su_last_fault_pid = 0, su_restart_throttled_count = 0, su_permanently_faulted_count = 0, su_shutdown_in_progress = False,
     su_last_fault_far = 0, su_last_fault_elr = 0, su_last_fault_esr = 0\<rparr>"

section \<open>Operations\<close>

definition service_supervisor_clock_ticks :: "u64 \<Rightarrow> u64" where
  "service_supervisor_clock_ticks monotonic_ns = monotonic_ns div 10000000"

definition supervisor_copy_name :: "string option \<Rightarrow> string" where
  "supervisor_copy_name src = copy_bounded (AEGIS_SUPERVISOR_NAME_MAX - 1) (case src of None \<Rightarrow> ''unnamed'' | Some s \<Rightarrow> s)"

fun service_supervisor_state_name :: "supervised_state \<Rightarrow> string" where
  "service_supervisor_state_name SUPERVISED_EMPTY = ''empty''"
| "service_supervisor_state_name SUPERVISED_REGISTERED = ''registered''"
| "service_supervisor_state_name SUPERVISED_STARTING = ''starting''"
| "service_supervisor_state_name SUPERVISED_RUNNING = ''running''"
| "service_supervisor_state_name SUPERVISED_FAULTED = ''faulted''"
| "service_supervisor_state_name SUPERVISED_RESTARTING = ''restarting''"
| "service_supervisor_state_name SUPERVISED_STOPPED = ''stopped''"

fun service_supervisor_fault_kind_name :: "service_fault_kind \<Rightarrow> string" where
  "service_supervisor_fault_kind_name FAULT_NONE = ''none''"
| "service_supervisor_fault_kind_name FAULT_EXIT = ''exit''"
| "service_supervisor_fault_kind_name FAULT_PAGE_FAULT = ''page-fault''"
| "service_supervisor_fault_kind_name FAULT_WATCHDOG = ''watchdog''"
| "service_supervisor_fault_kind_name FAULT_IPC = ''ipc''"

definition service_supervisor_init :: supervisor where
  "service_supervisor_init = \<lparr>supervised = replicate AEGIS_SUPERVISOR_SERVICE_MAX zero_supervised,
     sup_state = zero_supervisor_state\<lparr>su_initialised := True\<rparr>, next_supervised_id = 1\<rparr>"

definition update_service :: "nat \<Rightarrow> (supervised_service \<Rightarrow> supervised_service) \<Rightarrow> supervisor \<Rightarrow> supervisor" where
  "update_service i f s = s\<lparr>supervised := (supervised s)[i := f (supervised s ! i)]\<rparr>"

definition update_sup_state :: "(supervisor_state \<Rightarrow> supervisor_state) \<Rightarrow> supervisor \<Rightarrow> supervisor" where
  "update_sup_state f s = s\<lparr>sup_state := f (sup_state s)\<rparr>"

definition service_supervisor_get :: "u32 \<Rightarrow> supervisor \<Rightarrow> supervised_service option" where
  "service_supervisor_get i s =
     (if i = 0 \<or> su_service_count (sup_state s) < i then None else Some (supervised s ! unat (i - 1)))"

definition service_supervisor_find_mut :: "string option \<Rightarrow> supervisor \<Rightarrow> nat option" where
  "service_supervisor_find_mut name s =
     (case name of None \<Rightarrow> None
      | Some n \<Rightarrow> scan (\<lambda>v. sv_state v \<noteq> SUPERVISED_EMPTY \<and> str_eq (sv_name v) n)
                    (take (unat (su_service_count (sup_state s))) (supervised s)))"

definition service_supervisor_find :: "string option \<Rightarrow> supervisor \<Rightarrow> supervised_service option" where
  "service_supervisor_find name s = map_option (\<lambda>i. supervised s ! i) (service_supervisor_find_mut name s)"

text \<open>The fields that every new entry shares.\<close>

definition restart_defaults :: "supervised_service \<Rightarrow> supervised_service" where
  "restart_defaults v = v\<lparr>sv_max_restarts := 5, sv_restart_window_ticks := 6000, sv_base_backoff_ticks := 10\<rparr>"

definition service_supervisor_register_descriptor :: "aegis_user_process_descriptor option \<Rightarrow> supervisor \<Rightarrow> int \<times> supervisor" where
  "service_supervisor_register_descriptor proc s =
     (let st = sup_state s; p = the proc;
          rc = first_fail
            [(\<not> su_initialised st, AEGIS_EINVAL), (proc = None \<or> up_name p = [], AEGIS_EINVAL),
             (AEGIS_SUPERVISOR_SERVICE_MAX \<le> unat (su_service_count st), AEGIS_ENOMEM),
             (service_supervisor_find (Some (up_name p)) s \<noteq> None, AEGIS_EBUSY), (up_id p = 0 \<or> up_service_id p = 0, AEGIS_EINVAL)]
      in if rc \<noteq> AEGIS_OK then (rc, s)
         else
           let policy1 = (if next_supervised_id s = 1 then POLICY_RESTART_ON_FAULT OR POLICY_REQUIRED else POLICY_RESTART_ON_FAULT);
               policy = (if str_eq (up_name p) ''aegisd'' \<or> str_eq (up_name p) ''routerd'' \<or> str_eq (up_name p) ''rustmyadmin''
                         then policy1 OR POLICY_CONTROL_PLANE else policy1)
           in (AEGIS_OK, update_sup_state (\<lambda>st. st\<lparr>su_service_count := su_service_count st + 1\<rparr>)
                 ((update_service (unat (su_service_count st)) (\<lambda>_. restart_defaults (zero_supervised\<lparr>sv_id := next_supervised_id s,
                     sv_pid := up_id p, sv_service_id := up_service_id p, sv_state := SUPERVISED_REGISTERED, sv_policy := policy,
                     sv_name := supervisor_copy_name (Some (up_name p))\<rparr>)) s)\<lparr>next_supervised_id := next_supervised_id s + 1\<rparr>)))"

fun register_descriptors :: "aegis_user_process_descriptor option list \<Rightarrow> supervisor \<Rightarrow> int \<times> supervisor" where
  "register_descriptors [] s = (AEGIS_OK, s)"
| "register_descriptors (p # ps) s =
     (let (rc, s1) = service_supervisor_register_descriptor p s in if rc \<noteq> AEGIS_OK then (rc, s1) else register_descriptors ps s1)"

definition service_supervisor_register_user_processes :: "userland \<Rightarrow> service_ipc \<Rightarrow> supervisor \<Rightarrow> int \<times> supervisor" where
  "service_supervisor_register_user_processes u ipc s =
     (let st = sup_state s; count = unat (userland_process_descriptor_count u);
          rc = first_fail
            [(\<not> su_initialised st, AEGIS_EINVAL), (\<not> userland_real_multiprocess_launch_ready u, AEGIS_EINVAL),
             (\<not> service_ipc_message_roundtrip_ready ipc, AEGIS_EINVAL), (su_service_count st \<noteq> 0, AEGIS_EBUSY), (count < 4, AEGIS_EINVAL)]
      in if rc \<noteq> AEGIS_OK then (rc, s)
         else
           let (rc, s1) = register_descriptors (map (\<lambda>i. userland_process_descriptor (of_nat i) u)
                  [0..<(if AEGIS_SUPERVISOR_SERVICE_MAX < count then AEGIS_SUPERVISOR_SERVICE_MAX else count)]) s
           in if rc \<noteq> AEGIS_OK then (rc, s1)
              else let ready = (4 \<le> su_service_count (sup_state s1))
                   in ((if ready then AEGIS_OK else AEGIS_EINVAL), update_sup_state (\<lambda>st. st\<lparr>su_registry_ready := ready\<rparr>) s1))"

fun start_from :: "nat \<Rightarrow> nat \<Rightarrow> supervisor \<Rightarrow> int \<times> supervisor" where
  "start_from i 0 s = (AEGIS_OK, s)"
| "start_from i (Suc k) s =
     (if sv_state (supervised s ! i) \<notin> {SUPERVISED_REGISTERED, SUPERVISED_STARTING} then (AEGIS_EINVAL, s)
      else start_from (Suc i) k (update_sup_state (\<lambda>st. st\<lparr>su_running_count := su_running_count st + 1\<rparr>)
             (update_service i (\<lambda>v. v\<lparr>sv_state := SUPERVISED_RUNNING\<rparr>) s)))"

definition service_supervisor_start_registered :: "supervisor \<Rightarrow> int \<times> supervisor" where
  "service_supervisor_start_registered s =
     (if \<not> su_registry_ready (sup_state s) then (AEGIS_EINVAL, s)
      else let (rc, s1) = start_from 0 (unat (su_service_count (sup_state s))) (update_sup_state (\<lambda>st. st\<lparr>su_running_count := 0\<rparr>) s)
           in if rc \<noteq> AEGIS_OK then (rc, s1)
              else let running = (su_running_count (sup_state s1) = su_service_count (sup_state s1))
                   in ((if running then AEGIS_OK else AEGIS_EINVAL), update_sup_state (\<lambda>st. st\<lparr>su_services_running := running\<rparr>) s1))"

definition service_supervisor_record_fault ::
  "string option \<Rightarrow> service_fault_kind \<Rightarrow> aegis_exception_fault option \<Rightarrow> int \<Rightarrow> supervisor \<Rightarrow> int \<times> supervisor" where
  "service_supervisor_record_fault name kind fault exit_code s =
     (if \<not> su_services_running (sup_state s) then (AEGIS_EINVAL, s)
      else if name = None \<or> fault = None then (AEGIS_EINVAL, s)
      else case service_supervisor_find_mut name s of
        None \<Rightarrow> (AEGIS_ENOENT, s)
      | Some i \<Rightarrow>
          let v = supervised s ! i; f = the fault
          in if sv_state v \<noteq> SUPERVISED_RUNNING then (AEGIS_EINVAL, s)
             else if kind = FAULT_PAGE_FAULT \<and> \<not> ef_is_page_fault f then (AEGIS_EINVAL, s)
             else (AEGIS_OK,
               update_sup_state (\<lambda>st. st\<lparr>su_total_faults := su_total_faults st + 1, su_faulted_count := su_faulted_count st + 1,
                 su_running_count := (if 0 < su_running_count st then su_running_count st - 1 else su_running_count st),
                 su_last_fault_service_id := sv_service_id v, su_last_fault_pid := sv_pid v, su_last_fault_far := ef_far f,
                 su_last_fault_elr := ef_elr f, su_last_fault_esr := ef_esr f, su_fault_proof_ready := True,
                 su_page_fault_proof_ready := (kind = FAULT_PAGE_FAULT \<and> ef_is_page_fault f), su_service_marked_faulted := True,
                 su_handoff_preserved := True\<rparr>)
               (update_service i (\<lambda>v. v\<lparr>sv_fault_count := sv_fault_count v + 1, sv_last_exit_code := exit_code,
                 sv_state := SUPERVISED_FAULTED, sv_last_fault := \<lparr>fr_kind = kind, fr_service_id = sv_service_id v, fr_pid = sv_pid v,
                   fr_fault_count_snapshot = sv_fault_count v + 1, fr_exit_code = exit_code, fr_esr = ef_esr f, fr_far = ef_far f,
                   fr_elr = ef_elr f, fr_ec = ef_ec f, fr_fsc = ef_fsc f, fr_lower_el = ef_from_lower_el f, fr_write = ef_write f,
                   fr_page_fault = ef_is_page_fault f\<rparr>\<rparr>) s)))"

definition service_supervisor_prepare_v44_fault_proof :: "supervisor \<Rightarrow> int \<times> supervisor" where
  "service_supervisor_prepare_v44_fault_proof s =
     (let decoded = exception_decode_fault (push_bit 26 0x24 OR push_bit 6 1 OR 0x07) 0x7ffffef000 0x4001000;
          rc = first_fail
            [(\<not> su_registry_ready (sup_state s), AEGIS_EINVAL), (\<not> su_services_running (sup_state s), AEGIS_EINVAL),
             (service_supervisor_find (Some ''routerd'') s = None, AEGIS_ENOENT),
             (\<not> exception_fault_is_user_page_fault (Some decoded), AEGIS_EINVAL)]
      in if rc \<noteq> AEGIS_OK then (rc, s)
         else service_supervisor_record_fault (Some ''routerd'') FAULT_PAGE_FAULT (Some decoded) AEGIS_EPERM s)"

definition service_supervisor_selftest :: "supervisor \<Rightarrow> int" where
  "service_supervisor_selftest s =
     (let st = sup_state s; find = (\<lambda>n. service_supervisor_find (Some n) s);
          init = find ''aegis-init''; aegisd = find ''aegisd''; router = find ''routerd''; admin = find ''rustmyadmin''
      in first_fail
        [(\<not> su_initialised st, AEGIS_EINVAL), (\<not> su_registry_ready st, AEGIS_EINVAL), (su_service_count st < 4, AEGIS_EINVAL),
         (\<not> su_services_running st, AEGIS_EINVAL), (\<not> su_fault_proof_ready st, AEGIS_EINVAL),
         (\<not> su_page_fault_proof_ready st, AEGIS_EINVAL), (\<not> su_service_marked_faulted st, AEGIS_EINVAL),
         (\<not> su_handoff_preserved st, AEGIS_EINVAL), (su_total_faults st \<noteq> 1, AEGIS_EINVAL), (su_faulted_count st \<noteq> 1, AEGIS_EINVAL),
         (init = None \<or> aegisd = None \<or> router = None \<or> admin = None, AEGIS_ENOENT),
         (sv_state (the init) \<noteq> SUPERVISED_RUNNING, AEGIS_EINVAL), (sv_state (the aegisd) \<noteq> SUPERVISED_RUNNING, AEGIS_EINVAL),
         (sv_state (the admin) \<noteq> SUPERVISED_RUNNING, AEGIS_EINVAL), (sv_state (the router) \<noteq> SUPERVISED_FAULTED, AEGIS_EINVAL),
         (sv_fault_count (the router) \<noteq> 1, AEGIS_EINVAL), (fr_kind (sv_last_fault (the router)) \<noteq> FAULT_PAGE_FAULT, AEGIS_EINVAL),
         (\<not> fr_page_fault (sv_last_fault (the router)) \<or> \<not> fr_lower_el (sv_last_fault (the router)), AEGIS_EINVAL),
         (fr_far (sv_last_fault (the router)) \<noteq> su_last_fault_far st, AEGIS_EINVAL)])"

definition service_supervisor_registry_ready :: "supervisor \<Rightarrow> bool" where "service_supervisor_registry_ready s = su_registry_ready (sup_state s)"
definition service_supervisor_fault_proof_ready :: "supervisor \<Rightarrow> bool" where "service_supervisor_fault_proof_ready s = su_fault_proof_ready (sup_state s)"
definition service_supervisor_page_fault_proof_ready :: "supervisor \<Rightarrow> bool" where "service_supervisor_page_fault_proof_ready s = su_page_fault_proof_ready (sup_state s)"
definition service_supervisor_handoff_preserved :: "supervisor \<Rightarrow> bool" where "service_supervisor_handoff_preserved s = su_handoff_preserved (sup_state s)"

section \<open>Native services\<close>

definition service_supervisor_native_register_starting :: "string option \<Rightarrow> u32 \<Rightarrow> u32 \<Rightarrow> u32 \<Rightarrow> supervisor \<Rightarrow> int \<times> supervisor" where
  "service_supervisor_native_register_starting name service_id pid policy s =
     (let st = sup_state s
      in if \<not> su_initialised st \<or> name = None \<or> the name = [] \<or> pid = 0 then (AEGIS_EINVAL, s)
         else case service_supervisor_find_mut name s of
           Some i \<Rightarrow>
             let v = supervised s ! i; restarting = (sv_state v = SUPERVISED_FAULTED \<or> sv_state v = SUPERVISED_STOPPED);
                 running = (if sv_state v = SUPERVISED_RUNNING \<and> su_running_count st \<noteq> 0 then su_running_count st - 1 else su_running_count st);
                 faulted = (if sv_state v = SUPERVISED_FAULTED \<and> su_faulted_count st \<noteq> 0 then su_faulted_count st - 1 else su_faulted_count st)
             in (AEGIS_OK,
                  update_sup_state (\<lambda>st. st\<lparr>su_running_count := running, su_faulted_count := faulted, su_services_running := running \<noteq> 0\<rparr>)
                  (update_service i (\<lambda>v. v\<lparr>sv_pid := pid, sv_service_id := service_id,
                     sv_state := (if restarting then SUPERVISED_RESTARTING else SUPERVISED_STARTING), sv_policy := policy\<rparr>) s))
         | None \<Rightarrow>
             if AEGIS_SUPERVISOR_SERVICE_MAX \<le> unat (su_service_count st) then (AEGIS_ENOMEM, s)
             else (AEGIS_OK,
               update_sup_state (\<lambda>st. st\<lparr>su_service_count := su_service_count st + 1, su_registry_ready := True\<rparr>)
               ((update_service (unat (su_service_count st)) (\<lambda>_. restart_defaults (zero_supervised\<lparr>sv_id := next_supervised_id s,
                   sv_service_id := service_id, sv_pid := pid, sv_state := SUPERVISED_STARTING, sv_policy := policy,
                   sv_name := supervisor_copy_name name\<rparr>)) s)\<lparr>next_supervised_id := next_supervised_id s + 1\<rparr>)))"

definition service_supervisor_native_mark_running :: "string option \<Rightarrow> u32 \<Rightarrow> supervisor \<Rightarrow> int \<times> supervisor" where
  "service_supervisor_native_mark_running name pid s =
     (let st = sup_state s
      in if \<not> su_initialised st \<or> name = None \<or> pid = 0 then (AEGIS_EINVAL, s)
         else case service_supervisor_find_mut name s of
           None \<Rightarrow> (AEGIS_ENOENT, s)
         | Some i \<Rightarrow>
             let v = supervised s ! i;
                 running = (if sv_state v \<noteq> SUPERVISED_RUNNING then su_running_count st + 1 else su_running_count st);
                 faulted = (if sv_state v = SUPERVISED_FAULTED \<and> su_faulted_count st \<noteq> 0 then su_faulted_count st - 1 else su_faulted_count st)
             in if sv_pid v \<noteq> pid then (AEGIS_ENOENT, s)
                else (AEGIS_OK,
                  update_sup_state (\<lambda>st. st\<lparr>su_running_count := running, su_faulted_count := faulted, su_services_running := running \<noteq> 0\<rparr>)
                  (update_service i (\<lambda>v. v\<lparr>sv_state := SUPERVISED_RUNNING\<rparr>) s)))"

text \<open>
  The exit of a service: the counter of failures restarts when the window since the first one is over, and the next
  restart is delayed by the base time shifted by the number of failures before this one, at most six.
\<close>

definition exit_service :: "u64 \<Rightarrow> u32 \<Rightarrow> int \<Rightarrow> supervised_service \<Rightarrow> supervised_service" where
  "exit_service now pid exit_code v =
     (let expired = (sv_first_failure_tick v = 0 \<or> sv_restart_window_ticks v < now - sv_first_failure_tick v);
          failures = (if expired then 1 else sv_consecutive_failures v + 1);
          shift = (if 6 < failures then 6 else failures - 1)
      in v\<lparr>sv_state := (if sv_max_restarts v \<noteq> 0 \<and> sv_max_restarts v < failures then SUPERVISED_STOPPED else SUPERVISED_FAULTED),
           sv_fault_count := sv_fault_count v + 1, sv_consecutive_failures := failures, sv_last_exit_code := exit_code,
           sv_last_fault := (sv_last_fault v)\<lparr>fr_kind := FAULT_EXIT, fr_pid := pid, fr_service_id := sv_service_id v, fr_exit_code := exit_code\<rparr>,
           sv_first_failure_tick := (if expired then now else sv_first_failure_tick v),
           sv_next_restart_tick := now + push_bit (unat shift) (sv_base_backoff_ticks v)\<rparr>)"

definition service_supervisor_native_mark_exit :: "string option \<Rightarrow> u32 \<Rightarrow> int \<Rightarrow> u64 \<Rightarrow> supervisor \<Rightarrow> int \<times> supervisor" where
  "service_supervisor_native_mark_exit name pid exit_code now s =
     (let st = sup_state s
      in if \<not> su_initialised st \<or> name = None \<or> pid = 0 then (AEGIS_EINVAL, s)
         else case service_supervisor_find_mut name s of
           None \<Rightarrow> (AEGIS_ENOENT, s)
         | Some i \<Rightarrow>
             let v = supervised s ! i;
                 running = (if sv_state v = SUPERVISED_RUNNING \<and> su_running_count st \<noteq> 0 then su_running_count st - 1 else su_running_count st);
                 stopped = (sv_state (exit_service now pid exit_code v) = SUPERVISED_STOPPED)
             in if sv_pid v \<noteq> pid then (AEGIS_ENOENT, s)
                else (AEGIS_OK,
                  update_sup_state (\<lambda>st. st\<lparr>su_running_count := running, su_faulted_count := su_faulted_count st + 1,
                    su_permanently_faulted_count := (if stopped then su_permanently_faulted_count st + 1 else su_permanently_faulted_count st),
                    su_total_faults := su_total_faults st + 1, su_services_running := running \<noteq> 0\<rparr>)
                  (update_service i (exit_service now pid exit_code) s)))"

definition service_supervisor_set_restart_policy :: "string option \<Rightarrow> u32 \<Rightarrow> u64 \<Rightarrow> u64 \<Rightarrow> supervisor \<Rightarrow> int \<times> supervisor" where
  "service_supervisor_set_restart_policy name max_restarts window backoff s =
     (case service_supervisor_find_mut name s of
        None \<Rightarrow> (AEGIS_EINVAL, s)
      | Some i \<Rightarrow> if max_restarts = 0 \<or> window = 0 \<or> backoff = 0 then (AEGIS_EINVAL, s)
          else (AEGIS_OK, update_service i (\<lambda>v. v\<lparr>sv_max_restarts := max_restarts, sv_restart_window_ticks := window,
                 sv_base_backoff_ticks := backoff\<rparr>) s))"

text \<open>The value written to \<open>*wait_ticks\<close> is the second result; \<open>None\<close> when nothing is written.\<close>

definition service_supervisor_restart_allowed :: "string option \<Rightarrow> u64 \<Rightarrow> supervisor \<Rightarrow> int \<times> u64 option \<times> supervisor" where
  "service_supervisor_restart_allowed name now_ticks s =
     (case service_supervisor_find_mut name s of
        None \<Rightarrow> (AEGIS_ENOENT, None, s)
      | Some i \<Rightarrow>
          let v = supervised s ! i
          in if su_shutdown_in_progress (sup_state s) \<or> sv_shutdown_requested v then (AEGIS_ESHUTDOWN, None, s)
             else if sv_policy v AND POLICY_RESTART_ON_FAULT = 0 then (AEGIS_EPERM, None, s)
             else if sv_state v = SUPERVISED_STOPPED \<or> (sv_max_restarts v \<noteq> 0 \<and> sv_max_restarts v < sv_consecutive_failures v)
             then (AEGIS_EPERM, None, s)
             else if now_ticks < sv_next_restart_tick v
             then (AEGIS_EAGAIN, Some (sv_next_restart_tick v - now_ticks),
                   update_sup_state (\<lambda>st. st\<lparr>su_restart_throttled_count := su_restart_throttled_count st + 1\<rparr>) s)
             else (AEGIS_OK, Some 0, s))"

definition service_supervisor_note_restart :: "string option \<Rightarrow> u32 \<Rightarrow> u64 \<Rightarrow> supervisor \<Rightarrow> int \<times> supervisor" where
  "service_supervisor_note_restart name new_pid now_ticks s =
     (case service_supervisor_find_mut name s of
        None \<Rightarrow> (AEGIS_EINVAL, s)
      | Some i \<Rightarrow>
          let v = supervised s ! i; st = sup_state s
          in if new_pid = 0 then (AEGIS_EINVAL, s)
             else if su_shutdown_in_progress st \<or> sv_shutdown_requested v then (AEGIS_ESHUTDOWN, s)
             else (AEGIS_OK,
               update_sup_state (\<lambda>st. st\<lparr>su_faulted_count :=
                   (if sv_state v = SUPERVISED_FAULTED \<and> su_faulted_count st \<noteq> 0 then su_faulted_count st - 1 else su_faulted_count st),
                 su_total_restarts := su_total_restarts st + 1\<rparr>)
               (update_service i (\<lambda>v. v\<lparr>sv_pid := new_pid, sv_state := SUPERVISED_RESTARTING,
                 sv_restart_count := sv_restart_count v + 1, sv_next_restart_tick := now_ticks\<rparr>) s)))"

definition service_supervisor_request_shutdown :: "string option \<Rightarrow> supervisor \<Rightarrow> int \<times> supervisor" where
  "service_supervisor_request_shutdown name s =
     (case service_supervisor_find_mut name s of
        None \<Rightarrow> (AEGIS_ENOENT, s)
      | Some i \<Rightarrow>
          let v = supervised s ! i
          in (AEGIS_OK,
               update_sup_state (\<lambda>st. st\<lparr>su_running_count :=
                 (if sv_state v = SUPERVISED_RUNNING \<and> su_running_count st \<noteq> 0 then su_running_count st - 1 else su_running_count st)\<rparr>)
               (update_service i (\<lambda>v. v\<lparr>sv_shutdown_requested := True, sv_state := SUPERVISED_STOPPED\<rparr>) s)))"

definition service_supervisor_begin_shutdown :: "supervisor \<Rightarrow> supervisor" where
  "service_supervisor_begin_shutdown s =
     (let n = unat (su_service_count (sup_state s))
      in s\<lparr>sup_state := (sup_state s)\<lparr>su_shutdown_in_progress := True\<rparr>,
           supervised := map (\<lambda>v. v\<lparr>sv_shutdown_requested := True\<rparr>) (take n (supervised s)) @ drop n (supervised s)\<rparr>)"

end
