(* ===== verification/Supervisor_Proofs.thy ===== *)
theory Supervisor_Proofs
  imports Supervisor
begin

text \<open>
  The supervisor: what its restart policy allows after a series of crashes, and that a
  shutdown once begun is final.
\<close>

section \<open>Updates and lookups\<close>

lemma sup_update_simps [simp]:
  "sup_state (update_service i f s) = sup_state s" "supervised (update_sup_state g s) = supervised s"
  "sup_state (update_sup_state g s) = g (sup_state s)" "supervised (update_service i f s) = (supervised s)[i := f (supervised s ! i)]"
  by (simp_all add: update_service_def update_sup_state_def)

lemma find_mut_Some:
  "service_supervisor_find_mut (Some n) s = Some i \<Longrightarrow>
    i < length (supervised s) \<and> sv_state (supervised s ! i) \<noteq> SUPERVISED_EMPTY \<and> sv_name (supervised s ! i) = n"
  by (auto simp: service_supervisor_find_mut_def scan_Some_iff)

lemma find_mut_update:
  assumes "service_supervisor_find_mut (Some n) s = Some i" and "sv_name v = n" and "sv_state v \<noteq> SUPERVISED_EMPTY"
    and "supervised t = (supervised s)[i := v]" and "su_service_count (sup_state t) = su_service_count (sup_state s)"
  shows "service_supervisor_find_mut (Some n) t = Some i"
proof -
  let ?k = "unat (su_service_count (sup_state s))"
  have "scan (\<lambda>v. sv_state v \<noteq> SUPERVISED_EMPTY \<and> str_eq (sv_name v) n) ((take ?k (supervised s))[i := v]) =
      scan (\<lambda>v. sv_state v \<noteq> SUPERVISED_EMPTY \<and> str_eq (sv_name v) n) (take ?k (supervised s))"
    using assms(1-3) by (intro scan_update_same) (auto simp: service_supervisor_find_mut_def scan_Some_iff)
  then show ?thesis using assms(1,4,5) by (simp add: service_supervisor_find_mut_def take_update_swap)
qed

section \<open>One crash cycle\<close>

text \<open>A service is restarted under a new process, reports running and exits at time \<open>t\<close>.\<close>

definition crash_cycle :: "string \<Rightarrow> u32 \<times> u64 \<Rightarrow> supervisor \<Rightarrow> supervisor" where
  "crash_cycle n = (\<lambda>(pid, t) s.
     snd (service_supervisor_native_mark_exit (Some n) pid 1 t
       (snd (service_supervisor_native_mark_running (Some n) pid
         (snd (service_supervisor_note_restart (Some n) pid t s))))))"

text \<open>The service \<open>n\<close> is entry \<open>i\<close>, with content \<open>v\<close>, and no shutdown has been requested.\<close>

definition live_service :: "string \<Rightarrow> nat \<Rightarrow> supervised_service \<Rightarrow> supervisor \<Rightarrow> bool" where
  "live_service n i v s \<longleftrightarrow> su_initialised (sup_state s) \<and> \<not> su_shutdown_in_progress (sup_state s) \<and>
     service_supervisor_find_mut (Some n) s = Some i \<and> supervised s ! i = v \<and> \<not> sv_shutdown_requested v"

lemma live_service_step:
  assumes "live_service n i v s" and "sv_name w = n" and "sv_state w \<noteq> SUPERVISED_EMPTY" and "\<not> sv_shutdown_requested w"
    and "supervised t = (supervised s)[i := w]" and "su_service_count (sup_state t) = su_service_count (sup_state s)"
    and "su_initialised (sup_state t)" and "\<not> su_shutdown_in_progress (sup_state t)"
  shows "live_service n i w t"
  using assms find_mut_update [of n s i w t] find_mut_Some [of n s i] by (simp add: live_service_def)

lemma live_name: "live_service n i v s \<Longrightarrow> sv_name v = n \<and> sv_state v \<noteq> SUPERVISED_EMPTY"
  using find_mut_Some [of n s i] by (auto simp: live_service_def)

lemma live_restart:
  assumes "live_service n i v s" and "pid \<noteq> 0"
  shows "live_service n i (v\<lparr>sv_pid := pid, sv_state := SUPERVISED_RESTARTING, sv_restart_count := sv_restart_count v + 1,
    sv_next_restart_tick := t\<rparr>) (snd (service_supervisor_note_restart (Some n) pid t s))"
  using assms live_name [OF assms(1)]
  by (intro live_service_step [OF assms(1)]) (auto simp: live_service_def service_supervisor_note_restart_def Let_def)

lemma live_running:
  assumes "live_service n i v s" and "pid \<noteq> 0" and "sv_pid v = pid"
  shows "live_service n i (v\<lparr>sv_state := SUPERVISED_RUNNING\<rparr>) (snd (service_supervisor_native_mark_running (Some n) pid s))"
  using assms live_name [OF assms(1)]
  by (intro live_service_step [OF assms(1)]) (auto simp: live_service_def service_supervisor_native_mark_running_def Let_def)

lemma live_exit:
  assumes "live_service n i v s" and "pid \<noteq> 0" and "sv_pid v = pid"
  shows "live_service n i (exit_service t pid c v) (snd (service_supervisor_native_mark_exit (Some n) pid c t s))"
  using assms live_name [OF assms(1)]
  by (intro live_service_step [OF assms(1)])
    (auto simp: live_service_def service_supervisor_native_mark_exit_def exit_service_def Let_def)

lemma live_cycle:
  assumes "live_service n i v s" and "pid \<noteq> 0"
  shows "live_service n i (exit_service t pid 1 (v\<lparr>sv_pid := pid, sv_restart_count := sv_restart_count v + 1,
    sv_next_restart_tick := t, sv_state := SUPERVISED_RUNNING\<rparr>)) (crash_cycle n (pid, t) s)"
  using live_exit [OF live_running [OF live_restart [OF assms, of t] assms(2)] assms(2), of t 1] by (simp add: crash_cycle_def)

section \<open>A series of crashes\<close>

text \<open>What a service looks like after \<open>k\<close> crashes within its window, the last at time \<open>t\<close>.\<close>

definition crashed :: "supervised_service \<Rightarrow> nat \<Rightarrow> u64 \<Rightarrow> u64 \<Rightarrow> supervised_service \<Rightarrow> bool" where
  "crashed v0 k t1 t v \<longleftrightarrow> sv_consecutive_failures v = of_nat k \<and> sv_first_failure_tick v = t1 \<and>
     sv_max_restarts v = sv_max_restarts v0 \<and> sv_restart_window_ticks v = sv_restart_window_ticks v0 \<and>
     sv_base_backoff_ticks v = sv_base_backoff_ticks v0 \<and> sv_policy v = sv_policy v0 \<and>
     sv_next_restart_tick v = t + push_bit (min (k - 1) 6) (sv_base_backoff_ticks v0) \<and>
     (sv_state v = SUPERVISED_STOPPED \<longleftrightarrow> unat (sv_max_restarts v0) < k)"

lemma backoff_shift: "0 < k \<Longrightarrow> k < 2 ^ 32 \<Longrightarrow> unat (if 6 < (of_nat k :: u32) then 6 else of_nat k - 1 :: u32) = min (k - 1) 6"
proof -
  assume k: "0 < k" "k < 2 ^ 32"
  then have u: "unat (of_nat k :: u32) = k" by (intro unat_of_nat_small) simp
  then have "unat (of_nat k - 1 :: u32) = k - 1" using k unat_dec [of "of_nat k :: u32"] by simp
  then show ?thesis using u by (simp add: word_less_nat_alt)
qed

lemma exit_crashed:
  assumes "0 < k" and "k < 2 ^ 32" and "sv_max_restarts v \<noteq> 0"
    and "sv_first_failure_tick v = 0 \<and> k = 1 \<and> t1 = t \<or> sv_first_failure_tick v = t1 \<and> t1 \<noteq> 0 \<and> t - t1 \<le> sv_restart_window_ticks v \<and>
      sv_consecutive_failures v = of_nat (k - 1)"
  shows "crashed v k t1 t (exit_service t pid c v)"
proof -
  have "(if sv_first_failure_tick v = 0 \<or> sv_restart_window_ticks v < t - sv_first_failure_tick v then 1 else sv_consecutive_failures v + 1) =
      (of_nat k :: u32)" "(if sv_first_failure_tick v = 0 \<or> sv_restart_window_ticks v < t - sv_first_failure_tick v then t else sv_first_failure_tick v) = t1"
    using assms(1,4) by (auto simp: not_less [symmetric] of_nat_diff)
  then show ?thesis
    using assms(3) backoff_shift [OF assms(1,2)] unat_of_nat_small [of k, where ?'a = 32] assms(2)
    by (cases "6 < k") (simp_all add: crashed_def exit_service_def Let_def word_less_nat_alt)
qed

lemma crash_series:
  assumes "live_service n i v0 s" and "sv_first_failure_tick v0 = 0" and "sv_max_restarts v0 \<noteq> 0" and "length cs < 2 ^ 32" and "cs \<noteq> []"
    and "\<forall>(pid, t)\<in>set cs. pid \<noteq> 0 \<and> t - snd (hd cs) \<le> sv_restart_window_ticks v0" and "snd (hd cs) \<noteq> 0"
  shows "\<exists>v. live_service n i v (fold (crash_cycle n) cs s) \<and> crashed v0 (length cs) (snd (hd cs)) (snd (last cs)) v"
  using assms(5,4,6,7)
proof (induction cs rule: rev_nonempty_induct)
  case (single c)
  obtain pid t where c: "c = (pid, t)" by force
  let ?v = "v0\<lparr>sv_pid := pid, sv_restart_count := sv_restart_count v0 + 1, sv_next_restart_tick := t, sv_state := SUPERVISED_RUNNING\<rparr>"
  have "crashed ?v 1 t t (exit_service t pid 1 ?v)" using assms(2,3) by (intro exit_crashed) auto
  then show ?case using live_cycle [OF assms(1), of pid t] single.prems c
    by (intro exI [of _ "exit_service t pid 1 ?v"]) (auto simp: crashed_def)
next
  case (snoc c cs)
  obtain pid t where c: "c = (pid, t)" by force
  obtain v where v: "live_service n i v (fold (crash_cycle n) cs s)" "crashed v0 (length cs) (snd (hd cs)) (snd (last cs)) v"
    using snoc by auto
  let ?v = "v\<lparr>sv_pid := pid, sv_restart_count := sv_restart_count v + 1, sv_next_restart_tick := t, sv_state := SUPERVISED_RUNNING\<rparr>"
  have "crashed ?v (Suc (length cs)) (snd (hd cs)) t (exit_service t pid 1 ?v)"
    using v(2) snoc.prems snoc.hyps assms(3) c by (intro exit_crashed) (auto simp: crashed_def)
  then show ?case using live_cycle [OF v(1), of pid t] v(2) snoc.prems snoc.hyps c
    by (intro exI [of _ "exit_service t pid 1 ?v"]) (auto simp: crashed_def)
qed

section \<open>Properties\<close>

text \<open>
  C24. Crash loops are throttled and then stopped: after \<open>k\<close> crash cycles within the restart window of a service without
  earlier failures, a restart is refused for good once \<open>k\<close> exceeds the restart limit, and before that it is
  allowed exactly from the last exit time plus the base back-off doubled \<open>k - 1\<close> times, at most six times.
\<close>

theorem crash_loop_policy:
  assumes "live_service n i v s" and "sv_first_failure_tick v = 0" and "sv_max_restarts v \<noteq> 0" and "length cs < 2 ^ 32" and "cs \<noteq> []"
    and "\<forall>(pid, t)\<in>set cs. pid \<noteq> 0 \<and> t - snd (hd cs) \<le> sv_restart_window_ticks v" and "snd (hd cs) \<noteq> 0"
    and "sv_policy v AND POLICY_RESTART_ON_FAULT \<noteq> 0"
  shows "fst (service_supervisor_restart_allowed (Some n) now (fold (crash_cycle n) cs s)) =
    (if unat (sv_max_restarts v) < length cs then AEGIS_EPERM
     else if now < snd (last cs) + push_bit (min (length cs - 1) 6) (sv_base_backoff_ticks v) then AEGIS_EAGAIN else AEGIS_OK)"
proof -
  obtain w where w: "live_service n i w (fold (crash_cycle n) cs s)" "crashed v (length cs) (snd (hd cs)) (snd (last cs)) w"
    using crash_series [OF assms(1-7)] by blast
  moreover have "unat (of_nat (length cs) :: u32) = length cs" using assms(4) by (intro unat_of_nat_small) simp
  ultimately show ?thesis using assms(3,8)
    by (auto simp: service_supervisor_restart_allowed_def live_service_def crashed_def Let_def word_less_nat_alt)
qed

definition crashing_supervisor :: supervisor where
  "crashing_supervisor = snd (service_supervisor_native_register_starting (Some ''routerd'') 3 7 POLICY_RESTART_ON_FAULT service_supervisor_init)"

lemma crashing_live:
  "\<exists>v. live_service ''routerd'' 0 v crashing_supervisor \<and> sv_first_failure_tick v = 0 \<and> sv_max_restarts v = 5 \<and>
    sv_restart_window_ticks v = 6000 \<and> sv_policy v = POLICY_RESTART_ON_FAULT"
  by (simp add: crashing_supervisor_def service_supervisor_native_register_starting_def service_supervisor_init_def live_service_def
      service_supervisor_find_mut_def zero_supervisor_state_def zero_supervised_def supervisor_consts restart_defaults_def Let_def
      update_service_def update_sup_state_def supervisor_copy_name_def table_simps)

lemma crash_loop_policy_witness:
  "fst (service_supervisor_restart_allowed (Some ''routerd'') 10000 (fold (crash_cycle ''routerd'')
    [(8, 100), (9, 200), (10, 300), (11, 400), (12, 500), (13, 600)] crashing_supervisor)) = AEGIS_EPERM"
proof -
  obtain v where "live_service ''routerd'' 0 v crashing_supervisor" "sv_first_failure_tick v = 0" "sv_max_restarts v = 5"
    "sv_restart_window_ticks v = 6000" "sv_policy v = POLICY_RESTART_ON_FAULT" using crashing_live by blast
  then show ?thesis
    using crash_loop_policy [of "''routerd''" 0 v crashing_supervisor "[(8, 100), (9, 200), (10, 300), (11, 400), (12, 500), (13, 600)]" 10000]
    by (simp add: POLICY_RESTART_ON_FAULT_def)
qed

section \<open>Shutdown\<close>

text \<open>Every operation of the supervisor other than its initialisation.\<close>

inductive supervisor_step :: "supervisor \<Rightarrow> supervisor \<Rightarrow> bool" where
  sup_register: "supervisor_step s (snd (service_supervisor_register_user_processes u ipc s))"
| sup_start: "supervisor_step s (snd (service_supervisor_start_registered s))"
| sup_fault: "supervisor_step s (snd (service_supervisor_record_fault n k f c s))"
| sup_fault_proof: "supervisor_step s (snd (service_supervisor_prepare_v44_fault_proof s))"
| sup_native: "supervisor_step s (snd (service_supervisor_native_register_starting n i p pol s))"
| sup_running: "supervisor_step s (snd (service_supervisor_native_mark_running n p s))"
| sup_exit: "supervisor_step s (snd (service_supervisor_native_mark_exit n p c t s))"
| sup_policy: "supervisor_step s (snd (service_supervisor_set_restart_policy n m w b s))"
| sup_allowed: "supervisor_step s (snd (snd (service_supervisor_restart_allowed n t s)))"
| sup_restart: "supervisor_step s (snd (service_supervisor_note_restart n p t s))"
| sup_request: "supervisor_step s (snd (service_supervisor_request_shutdown n s))"
| sup_shutdown: "supervisor_step s (service_supervisor_begin_shutdown s)"

abbreviation shutting :: "supervisor \<Rightarrow> bool" where
  "shutting s \<equiv> su_shutdown_in_progress (sup_state s)"

lemma shutting_register: "shutting s \<Longrightarrow> shutting (snd (register_descriptors ps s))"
proof (induction ps arbitrary: s)
  case (Cons p ps)
  have "shutting (snd (service_supervisor_register_descriptor p s))"
    using Cons.prems by (simp add: service_supervisor_register_descriptor_def Let_def)
  then show ?case using Cons.IH by (auto simp: Let_def split: prod.splits)
qed simp

lemma shutting_start: "shutting s \<Longrightarrow> shutting (snd (start_from i k s))"
  by (induction i k s rule: start_from.induct) auto

lemma shutting_fault: "shutting s \<Longrightarrow> shutting (snd (service_supervisor_record_fault n k f c s))"
  by (simp add: service_supervisor_record_fault_def Let_def split: option.splits)

lemma shutting_processes: "shutting s \<Longrightarrow> shutting (snd (service_supervisor_register_user_processes u ipc s))"
  using shutting_register by (auto simp: service_supervisor_register_user_processes_def Let_def split: prod.splits) (metis snd_conv)+

lemma shutting_started: "shutting s \<Longrightarrow> shutting (snd (service_supervisor_start_registered s))"
  using shutting_start [of "update_sup_state (\<lambda>st. st\<lparr>su_running_count := 0\<rparr>) s" 0 "unat (su_service_count (sup_state s))"]
  by (auto simp: service_supervisor_start_registered_def Let_def split: prod.splits)

lemma shutting_step: "supervisor_step s t \<Longrightarrow> shutting s \<Longrightarrow> shutting t"
proof (induction rule: supervisor_step.induct)
  case (sup_fault_proof s)
  then show ?case using shutting_fault by (simp add: service_supervisor_prepare_v44_fault_proof_def Let_def)
qed (auto simp: shutting_processes shutting_started shutting_fault service_supervisor_native_register_starting_def
    service_supervisor_native_mark_running_def service_supervisor_native_mark_exit_def service_supervisor_set_restart_policy_def
    service_supervisor_restart_allowed_def service_supervisor_note_restart_def service_supervisor_request_shutdown_def
    service_supervisor_begin_shutdown_def Let_def split: option.splits)

text \<open>
  C25. Shutdown is final: after \<open>service_supervisor_begin_shutdown\<close>, whatever supervisor operations follow, no service is
  allowed a restart and no restart is recorded.
\<close>

theorem shutdown_is_final:
  assumes "supervisor_step\<^sup>*\<^sup>* (service_supervisor_begin_shutdown s) t"
  shows "fst (service_supervisor_restart_allowed n now t) \<in> {AEGIS_ENOENT, AEGIS_ESHUTDOWN} \<and>
    fst (service_supervisor_note_restart n pid now t) \<noteq> AEGIS_OK \<and> snd (service_supervisor_note_restart n pid now t) = t"
proof -
  have "shutting (service_supervisor_begin_shutdown s)" by (simp add: service_supervisor_begin_shutdown_def Let_def)
  with assms have "shutting t" by (induction rule: rtranclp_induct) (auto dest: shutting_step)
  then show ?thesis
    by (auto simp: service_supervisor_restart_allowed_def service_supervisor_note_restart_def Let_def split: option.splits)
qed

lemma shutdown_is_final_witness:
  "fst (service_supervisor_restart_allowed (Some ''routerd'') 5 (snd (service_supervisor_native_register_starting (Some ''routerd'') 3 7 2
    (service_supervisor_begin_shutdown service_supervisor_init)))) \<in> {AEGIS_ENOENT, AEGIS_ESHUTDOWN}"
  using shutdown_is_final [OF r_into_rtranclp [where r = supervisor_step, OF sup_native]] by blast

end
