(* ===== verification/Scheduler.thy ===== *)
theory Scheduler
  imports Heap
begin

text \<open>
  The task scheduler (kernel/core/scheduler.c) over the kernel heap: a linked list of tasks, here the list of
  the linked structures in link order, each with the address that identifies it.  A NULL pointer is \<open>None\<close>; undefined
  behaviour and \<open>PANIC\<close> are the value \<open>None\<close> of an operation.
\<close>

definition TASK_NAME_MAX :: nat where "TASK_NAME_MAX = 32"

datatype task_state = TASK_READY | TASK_RUNNING | TASK_BLOCKED | TASK_DEAD

record task_context =
  tc_x19 :: u64
  tc_x20 :: u64
  tc_x21 :: u64
  tc_x22 :: u64
  tc_x23 :: u64
  tc_x24 :: u64
  tc_x25 :: u64
  tc_x26 :: u64
  tc_x27 :: u64
  tc_x28 :: u64
  tc_fp :: u64
  tc_lr :: u64
  tc_sp :: u64
  tc_elr_el1 :: u64
  tc_spsr_el1 :: u64
  tc_sp_el0 :: u64

record task =
  t_addr :: u64
  t_tid :: u32
  t_state :: task_state
  t_ctx :: task_context
  t_stack_base :: u64
  t_stack_size :: u64
  t_priority :: u64
  t_name :: string

record sched =
  task_list :: "task list"
  current_task :: "u64 option"
  idle_task :: "u64 option"
  next_tid :: u32

text \<open>The size of the structure on the 64-bit target.\<close>

definition SIZEOF_TASK :: u64 where "SIZEOF_TASK = 200"

definition zero_context :: task_context where
  "zero_context = \<lparr>tc_x19 = 0, tc_x20 = 0, tc_x21 = 0, tc_x22 = 0, tc_x23 = 0, tc_x24 = 0, tc_x25 = 0, tc_x26 = 0, tc_x27 = 0,
     tc_x28 = 0, tc_fp = 0, tc_lr = 0, tc_sp = 0, tc_elr_el1 = 0, tc_spsr_el1 = 0, tc_sp_el0 = 0\<rparr>"

section \<open>Operations\<close>

definition task_name_copy :: "string option \<Rightarrow> string" where
  "task_name_copy src = copy_bounded (TASK_NAME_MAX - 1) (case src of None \<Rightarrow> ''task'' | Some s \<Rightarrow> s)"

definition task_append :: "task \<Rightarrow> task list \<Rightarrow> task list" where
  "task_append t l = l @ [t]"

fun pick_best :: "task option \<Rightarrow> task list \<Rightarrow> task option" where
  "pick_best best [] = best"
| "pick_best best (p # ps) =
     (if t_state p \<noteq> TASK_READY then pick_best best ps
      else if best = None \<or> t_priority (the best) < t_priority p then pick_best (Some p) ps
      else pick_best best ps)"

definition scheduler_pick_first_ready :: "sched \<Rightarrow> task option" where
  "scheduler_pick_first_ready s = pick_best None (task_list s)"

definition scheduler_init :: sched where
  "scheduler_init = \<lparr>task_list = [], current_task = None, idle_task = None, next_tid = 1\<rparr>"

definition task_create :: "string option \<Rightarrow> u64 \<Rightarrow> u64 \<Rightarrow> heap \<times> sched \<Rightarrow> (u64 option \<times> heap \<times> sched) option" where
  "task_create name entry priority = (\<lambda>(h, s).
     if entry = 0 then Some (None, h, s)
     else let (p, h1) = kmalloc SIZEOF_TASK h
          in if p = 0 then Some (None, h1, s)
             else let s1 = s\<lparr>next_tid := next_tid s + 1\<rparr>; (stack, h2) = kmalloc 8192 h1
                  in if stack = 0 then map_option (\<lambda>h3. (None, h3, s1)) (kfree p h2)
                     else Some (Some p, h2, s1\<lparr>task_list := task_append
                       \<lparr>t_addr = p, t_tid = next_tid s, t_state = TASK_READY,
                        t_ctx = zero_context\<lparr>tc_sp := stack + 8192, tc_lr := entry\<rparr>, t_stack_base = stack, t_stack_size = 8192,
                        t_priority = priority, t_name = task_name_copy name\<rparr> (task_list s)\<rparr>))"

definition update_task :: "u64 \<Rightarrow> (task \<Rightarrow> task) \<Rightarrow> task list \<Rightarrow> task list" where
  "update_task a f = map (\<lambda>t. if t_addr t = a then f t else t)"

definition task_at :: "u64 \<Rightarrow> task list \<Rightarrow> nat option" where
  "task_at a = scan (\<lambda>t. t_addr t = a)"

definition task_destroy :: "u64 option \<Rightarrow> heap \<times> sched \<Rightarrow> (heap \<times> sched) option" where
  "task_destroy ptr = (\<lambda>(h, s).
     case ptr of None \<Rightarrow> Some (h, s)
     | Some a \<Rightarrow>
         if current_task s = Some a then Some (h, s\<lparr>task_list := update_task a (\<lambda>t. t\<lparr>t_state := TASK_DEAD\<rparr>) (task_list s)\<rparr>)
         else case task_at a (task_list s) of
           None \<Rightarrow> Some (h, s)
         | Some i \<Rightarrow>
             let t = task_list s ! i; s1 = s\<lparr>task_list := take i (task_list s) @ drop (Suc i) (task_list s)\<rparr>
             in Option.bind (if t_stack_base t \<noteq> 0 then kfree (t_stack_base t) h else Some h)
                  (\<lambda>h1. map_option (\<lambda>h2. (h2, s1)) (kfree a h1)))"

text \<open>
  \<open>context_switch\<close> (boot/arm64/context_switch.S) stores the callee-saved registers, the stack pointer and the exception return
  state of the processor in the context of the task that leaves, and loads those of the next one.
\<close>

definition context_switch :: "task_context \<Rightarrow> task_context \<Rightarrow> task_context \<times> task_context" where
  "context_switch cpu next = (cpu, next)"

text \<open>The result of \<open>scheduler_run\<close> is the processor context with which the first task starts.\<close>

definition scheduler_run :: "task_context \<Rightarrow> sched \<Rightarrow> (task_context \<times> sched) option" where
  "scheduler_run cpu s =
     (case scheduler_pick_first_ready s of
        None \<Rightarrow> None
      | Some t \<Rightarrow> Some (snd (context_switch cpu (t_ctx t)),
          s\<lparr>current_task := Some (t_addr t), task_list := update_task (t_addr t) (\<lambda>t. t\<lparr>t_state := TASK_RUNNING\<rparr>) (task_list s)\<rparr>))"

definition scheduler_set_idle_task :: "u64 option \<Rightarrow> sched \<Rightarrow> sched" where
  "scheduler_set_idle_task t s = s\<lparr>idle_task := t\<rparr>"

text \<open>The order in which the cursor visits the other tasks: those behind the current one, then those before it.\<close>

definition ring_after :: "nat \<Rightarrow> 'a list \<Rightarrow> 'a list" where
  "ring_after i l = drop (Suc i) l @ take i l"

definition next_ready :: "u64 option \<Rightarrow> task list \<Rightarrow> task option" where
  "next_ready idle order =
     (case find (\<lambda>t. t_state t = TASK_READY \<and> Some (t_addr t) \<noteq> idle) order of
        Some t \<Rightarrow> Some t
      | None \<Rightarrow> find (\<lambda>t. t_state t = TASK_READY \<and> Some (t_addr t) = idle) order)"

definition scheduler_yield :: "task_context \<Rightarrow> sched \<Rightarrow> (task_context \<times> sched) option" where
  "scheduler_yield cpu s =
     (case current_task s of
        None \<Rightarrow> Some (cpu, s)
      | Some a \<Rightarrow>
          if task_list s = [] then Some (cpu, s)
          else case task_at a (task_list s) of
            None \<Rightarrow> None
          | Some i \<Rightarrow>
              case next_ready (idle_task s) (ring_after i (task_list s)) of
                None \<Rightarrow> if t_state (task_list s ! i) = TASK_DEAD then None else Some (cpu, s)
              | Some t \<Rightarrow>
                  let (saved, loaded) = context_switch cpu (t_ctx t);
                      l1 = update_task a (\<lambda>p. p\<lparr>t_state := (if t_state p = TASK_RUNNING then TASK_READY else t_state p), t_ctx := saved\<rparr>)
                             (task_list s)
                  in Some (loaded, s\<lparr>task_list := update_task (t_addr t) (\<lambda>t. t\<lparr>t_state := TASK_RUNNING\<rparr>) l1,
                                     current_task := Some (t_addr t)\<rparr>))"

definition scheduler_current :: "sched \<Rightarrow> u64 option" where
  "scheduler_current s = current_task s"

definition scheduler_task_count :: "sched \<Rightarrow> u32" where
  "scheduler_task_count s = of_nat (length (task_list s))"

definition scheduler_ready_count :: "sched \<Rightarrow> u32" where
  "scheduler_ready_count s = of_nat (length (filter (\<lambda>t. t_state t = TASK_READY) (task_list s)))"

section \<open>Self-tests\<close>

definition task_of :: "u64 \<Rightarrow> sched \<Rightarrow> task" where
  "task_of a s = (case task_at a (task_list s) of Some i \<Rightarrow> task_list s ! i | None \<Rightarrow> undefined)"

text \<open>\<open>entry_a\<close> and \<open>entry_b\<close> are the addresses of the two test task bodies.\<close>

definition scheduler_bringup_selftest :: "u64 \<Rightarrow> u64 \<Rightarrow> heap \<times> sched \<Rightarrow> (int \<times> heap \<times> sched) option" where
  "scheduler_bringup_selftest entry_a entry_b hs =
     (if scheduler_current (snd hs) \<noteq> None then Some (AEGIS_EBUSY, hs)
      else let before = scheduler_task_count (snd hs)
           in Option.bind (task_create (Some ''sched-proof-a'') entry_a 1 hs) (\<lambda>(a, hs1).
              Option.bind (task_create (Some ''sched-proof-b'') entry_b 1 hs1) (\<lambda>(b, hs2).
                let ta = task_of (the a) (snd hs2); tb = task_of (the b) (snd hs2);
                    rc = first_fail
                      [(a = None \<or> b = None, AEGIS_ENOMEM), (a = b, AEGIS_EINVAL),
                       (t_tid ta = t_tid tb \<or> t_tid ta = 0 \<or> t_tid tb = 0, AEGIS_EINVAL),
                       (t_state ta \<noteq> TASK_READY \<or> t_state tb \<noteq> TASK_READY, AEGIS_EINVAL),
                       (tc_sp (t_ctx ta) = 0 \<or> tc_sp (t_ctx tb) = 0 \<or> tc_sp (t_ctx ta) = tc_sp (t_ctx tb), AEGIS_EINVAL),
                       (t_stack_base ta = 0 \<or> t_stack_base tb = 0 \<or> t_stack_base ta = t_stack_base tb, AEGIS_EINVAL),
                       (tc_lr (t_ctx ta) \<noteq> entry_a, AEGIS_EINVAL), (tc_lr (t_ctx tb) \<noteq> entry_b, AEGIS_EINVAL),
                       (scheduler_task_count (snd hs2) \<noteq> before + 2, AEGIS_EINVAL), (scheduler_ready_count (snd hs2) < 2, AEGIS_EINVAL)]
                in if rc \<noteq> AEGIS_OK then Some (rc, hs2)
                   else Option.bind (task_destroy b hs2) (\<lambda>hs3. Option.bind (task_destroy a hs3) (\<lambda>hs4.
                     Some ((if scheduler_task_count (snd hs4) \<noteq> before then AEGIS_EINVAL else AEGIS_OK), hs4))))))"

definition scheduler_first_init_thread_selftest :: "u64 \<Rightarrow> heap \<times> sched \<Rightarrow> (int \<times> heap \<times> sched) option" where
  "scheduler_first_init_thread_selftest entry hs =
     (if scheduler_current (snd hs) \<noteq> None then Some (AEGIS_EBUSY, hs)
      else let before = scheduler_task_count (snd hs)
           in Option.bind (task_create (Some ''aegisbox-init-proof'') entry 100 hs) (\<lambda>(i, hs1).
                let t = task_of (the i) (snd hs1);
                    rc = first_fail
                      [(i = None, AEGIS_ENOMEM), (t_state t \<noteq> TASK_READY, AEGIS_EINVAL), (t_priority t \<noteq> 100, AEGIS_EINVAL),
                       (tc_lr (t_ctx t) \<noteq> entry, AEGIS_EINVAL),
                       (tc_sp (t_ctx t) = 0 \<or> t_stack_base t = 0 \<or> t_stack_size t < 4096, AEGIS_EINVAL),
                       (map_option t_addr (scheduler_pick_first_ready (snd hs1)) \<noteq> i, AEGIS_EINVAL),
                       (scheduler_task_count (snd hs1) \<noteq> before + 1, AEGIS_EINVAL)]
                in if rc \<noteq> AEGIS_OK then Some (rc, hs1)
                   else Option.bind (task_destroy i hs1) (\<lambda>hs2.
                     Some ((if scheduler_task_count (snd hs2) \<noteq> before then AEGIS_EINVAL else AEGIS_OK), hs2))))"

section \<open>The rotation\<close>

lemma ring_rotate:
  assumes "distinct (map t_addr l)" and "rotate k l = t # r"
  shows "\<exists>i. task_at (t_addr t) l = Some i \<and> ring_after i l = r"
proof -
  have l: "l \<noteq> []" using assms(2) by auto
  define i where "i = k mod length l"
  have i: "i < length l" using l by (simp add: i_def)
  have "drop i l @ take i l = t # r" using assms(2) by (simp add: rotate_drop_take i_def)
  moreover have "drop i l = l ! i # drop (Suc i) l" using i by (simp add: Cons_nth_drop_Suc)
  ultimately have t: "l ! i = t" "ring_after i l = r" by (simp_all add: ring_after_def)
  have "task_at (t_addr t) l = Some i"
    unfolding task_at_def using i t(1) assms(1)
    by (intro scan_eq_SomeI) (auto simp: distinct_conv_nth)
  then show ?thesis using t(2) by blast
qed

lemma ring_next:
  assumes "distinct (map t_addr l)" and "i < length l" and "ring_after i l = us @ t # vs"
  shows "\<exists>j. task_at (t_addr t) l = Some j \<and> ring_after j l = vs @ (l ! i) # us"
proof -
  have "rotate i l = l ! i # ring_after i l"
    using assms(2) by (simp add: rotate_drop_take ring_after_def Cons_nth_drop_Suc flip: append_Cons)
  then have "rotate (length (l ! i # us)) (rotate i l) = (t # vs) @ (l ! i # us)"
    using rotate_append [of "l ! i # us" "t # vs"] assms(3) by simp
  then have "rotate (length (l ! i # us) + i) l = t # vs @ (l ! i # us)" by (simp add: rotate_rotate)
  from ring_rotate [OF assms(1) this] show ?thesis .
qed

lemma update_task_addr [simp]: "(\<And>t. t_addr (f t) = t_addr t) \<Longrightarrow> map t_addr (update_task a f l) = map t_addr l"
  by (induction l) (auto simp: update_task_def)

lemma task_at_map: "(\<And>t. t_addr (f t) = t_addr t) \<Longrightarrow> task_at a (map f l) = task_at a l"
  by (induction l) (auto simp: task_at_def)

lemma ring_map: "ring_after i (map f l) = map f (ring_after i l)"
  by (simp add: ring_after_def drop_map take_map)

section \<open>Invariant\<close>

definition sched_ok :: "sched \<Rightarrow> bool" where
  "sched_ok s \<longleftrightarrow> distinct (map t_addr (task_list s)) \<and>
     (\<forall>t\<in>set (task_list s). t_state t = TASK_RUNNING \<longrightarrow> current_task s = Some (t_addr t)) \<and>
     (\<forall>a. current_task s = Some a \<longrightarrow> a \<in> t_addr ` set (task_list s))"

lemma task_at_exists: "a \<in> t_addr ` set l \<Longrightarrow> \<exists>i. task_at a l = Some i"
  by (cases "task_at a l") (auto simp: task_at_def)

lemma task_at_nth: "task_at a l = Some i \<Longrightarrow> i < length l \<and> t_addr (l ! i) = a"
  by (auto simp: task_at_def scan_Some_iff)

lemma addr_update: "(\<And>t. t_addr (f t) = t_addr t) \<Longrightarrow> t_addr ` set (update_task a f l) = t_addr ` set l"
  by (metis list.set_map update_task_addr)

lemma update_task_mem: "t \<in> set (update_task a f l) \<Longrightarrow> \<exists>u\<in>set l. t = (if t_addr u = a then f u else u)"
  by (auto simp: update_task_def)

lemma next_ready_mem: "next_ready idle order = Some t \<Longrightarrow> t \<in> set order \<and> t_state t = TASK_READY"
  by (auto simp: next_ready_def find_Some_iff split: option.splits)

lemma ring_set: "i < length l \<Longrightarrow> set (ring_after i l) \<subseteq> set l"
  by (auto simp: ring_after_def dest: in_set_dropD in_set_takeD)

lemma yield_ok:
  assumes "sched_ok s" and "scheduler_yield cpu s = Some (c, s')"
  shows "sched_ok s'"
proof (cases "current_task s")
  case None
  then show ?thesis using assms by (simp add: scheduler_yield_def)
next
  case (Some a)
  then obtain i where i: "task_at a (task_list s) = Some i" using assms(1) task_at_exists [of a "task_list s"] by (auto simp: sched_ok_def)
  show ?thesis
  proof (cases "next_ready (idle_task s) (ring_after i (task_list s))")
    case None
    then show ?thesis using assms Some i by (auto simp: scheduler_yield_def split: if_splits)
  next
    case (Some t)
    let ?f = "\<lambda>p. p\<lparr>t_state := (if t_state p = TASK_RUNNING then TASK_READY else t_state p), t_ctx := cpu\<rparr>"
    let ?l = "update_task (t_addr t) (\<lambda>t. t\<lparr>t_state := TASK_RUNNING\<rparr>) (update_task a ?f (task_list s))"
    have t: "t \<in> set (task_list s)" using next_ready_mem [OF Some] ring_set task_at_nth [OF i] by blast
    have s': "s' = s\<lparr>task_list := ?l, current_task := Some (t_addr t)\<rparr>"
      using assms(2) Some i \<open>current_task s = Some a\<close> t by (auto simp: scheduler_yield_def context_switch_def split: if_splits)
    have "t_addr u = t_addr t" if u: "u \<in> set ?l" "t_state u = TASK_RUNNING" for u
    proof (rule ccontr)
      assume ne: "t_addr u \<noteq> t_addr t"
      obtain v where v: "v \<in> set (update_task a ?f (task_list s))" "u = (if t_addr v = t_addr t then v\<lparr>t_state := TASK_RUNNING\<rparr> else v)"
        using update_task_mem [OF u(1)] by blast
      then have uv: "u = v" using ne by (cases "t_addr v = t_addr t") simp_all
      obtain w where w: "w \<in> set (task_list s)" "v = (if t_addr w = a then ?f w else w)"
        using update_task_mem [OF v(1)] by blast
      show False
      proof (cases "t_addr w = a")
        case True
        then have "t_state v \<noteq> TASK_RUNNING" using w(2) by simp
        then show False using uv u(2) by simp
      next
        case False
        then have "t_state w = TASK_RUNNING" using w(2) uv u(2) by simp
        then show False using assms(1) w(1) False \<open>current_task s = Some a\<close> unfolding sched_ok_def by auto
      qed
    qed
    then show ?thesis using assms(1) s' t by (auto simp: sched_ok_def addr_update)
  qed
qed

section \<open>Round robin\<close>

text \<open>Successive yields; the list gives the processor context of the task that yields each time.\<close>

fun yields :: "task_context list \<Rightarrow> sched \<Rightarrow> sched option" where
  "yields [] s = Some s"
| "yields (c # cs) s = Option.bind (scheduler_yield c s) (\<lambda>(_, s'). yields cs s')"

lemma find_first: "P t \<Longrightarrow> \<exists>us' x vs'. us @ t # vs = us' @ x # vs' \<and> P x \<and> find P (us @ t # vs) = Some x \<and> (x = t \<and> us' = us \<and> vs' = vs \<or>
    (\<exists>ws. us = us' @ x # ws \<and> vs' = ws @ t # vs))"
proof (induction us)
  case (Cons u us)
  show ?case
  proof (cases "P u")
    case True
    then show ?thesis by (intro exI [of _ "[]"] exI [of _ u] exI [of _ "us @ t # vs"]) auto
  next
    case False
    obtain us' x vs' where x: "us @ t # vs = us' @ x # vs'" "P x" "find P (us @ t # vs) = Some x"
      "x = t \<and> us' = us \<and> vs' = vs \<or> (\<exists>ws. us = us' @ x # ws \<and> vs' = ws @ t # vs)" using Cons by blast
    then show ?thesis using False by (intro exI [of _ "u # us'"] exI [of _ x] exI [of _ vs']) auto
  qed
qed auto

lemma yield_to:
  assumes "sched_ok s" and "current_task s = Some a" and "task_at a (task_list s) = Some i"
    and "find (\<lambda>t. t_state t = TASK_READY \<and> Some (t_addr t) \<noteq> idle_task s) (ring_after i (task_list s)) = Some x"
  shows "\<exists>f c. (\<forall>t. t_addr (f t) = t_addr t \<and> (t_addr t \<noteq> a \<and> t_addr t \<noteq> t_addr x \<longrightarrow> f t = t)) \<and>
    scheduler_yield cpu s = Some (c, s\<lparr>task_list := map f (task_list s), current_task := Some (t_addr x)\<rparr>)"
proof -
  define f :: "task \<Rightarrow> task" where "f t = (if t_addr t = t_addr x then (\<lambda>t. t\<lparr>t_state := TASK_RUNNING\<rparr>) else id)
    ((if t_addr t = a then (\<lambda>p. p\<lparr>t_state := (if t_state p = TASK_RUNNING then TASK_READY else t_state p), t_ctx := cpu\<rparr>) else id) t)" for t
  have "task_list s \<noteq> []" using task_at_nth [OF assms(3)] by auto
  then have "scheduler_yield cpu s = Some (t_ctx x, s\<lparr>task_list := map f (task_list s), current_task := Some (t_addr x)\<rparr>)"
    using assms(2-4) by (auto simp: scheduler_yield_def next_ready_def context_switch_def update_task_def f_def)
  moreover have "\<forall>t. t_addr (f t) = t_addr t \<and> (t_addr t \<noteq> a \<and> t_addr t \<noteq> t_addr x \<longrightarrow> f t = t)" by (simp add: f_def)
  ultimately show ?thesis by blast
qed

lemma round_robin_aux:
  assumes "sched_ok s" and "current_task s = Some a" and "task_at a (task_list s) = Some i"
    and "ring_after i (task_list s) = us @ t # vs" and "t_state t = TASK_READY" and "Some (t_addr t) \<noteq> idle_task s"
    and "length us < length cs"
  shows "\<exists>k s'. k \<le> length cs \<and> yields (take k cs) s = Some s' \<and> current_task s' = Some (t_addr t)"
  using assms
proof (induction "length us" arbitrary: s a i us vs cs rule: less_induct)
  case less
  let ?P = "\<lambda>t. t_state t = TASK_READY \<and> Some (t_addr t) \<noteq> idle_task s"
  obtain c cs' where cs: "cs = c # cs'" using less.prems(7) by (cases cs) auto
  have i: "i < length (task_list s)" "t_addr (task_list s ! i) = a" using task_at_nth [OF less.prems(3)] by auto
  have dist: "distinct (map t_addr (task_list s))" using less.prems(1) by (simp add: sched_ok_def)
  obtain us' x vs' where x: "ring_after i (task_list s) = us' @ x # vs'" "find ?P (ring_after i (task_list s)) = Some x"
    "x = t \<or> (\<exists>ws. us = us' @ x # ws \<and> vs' = ws @ t # vs)"
    using find_first [of ?P t us vs] less.prems(4-6) by auto
  obtain f c' where f: "\<forall>t. t_addr (f t) = t_addr t \<and> (t_addr t \<noteq> a \<and> t_addr t \<noteq> t_addr x \<longrightarrow> f t = t)"
    "scheduler_yield c s = Some (c', s\<lparr>task_list := map f (task_list s), current_task := Some (t_addr x)\<rparr>)"
    using yield_to [OF less.prems(1-3) x(2)] by blast
  let ?s = "s\<lparr>task_list := map f (task_list s), current_task := Some (t_addr x)\<rparr>"
  show ?case
  proof (cases "x = t")
    case True
    then show ?thesis using f(2) cs by (intro exI [of _ 1] exI [of _ ?s]) simp
  next
    case False
    then obtain ws where ws: "us = us' @ x # ws" "vs' = ws @ t # vs" using x(3) by blast
    obtain j where j: "task_at (t_addr x) (task_list s) = Some j" "ring_after j (task_list s) = vs' @ task_list s ! i # us'"
      using ring_next [OF dist i(1) x(1)] by blast
    have "distinct (map t_addr (task_list s ! i # us' @ x # vs'))"
    proof -
      have "map t_addr (task_list s ! i # ring_after i (task_list s)) = map t_addr (rotate i (task_list s))"
        using i(1) by (simp add: rotate_drop_take ring_after_def Cons_nth_drop_Suc flip: append_Cons)
      then show ?thesis using dist x(1) by (simp add: rotate_map flip: rotate_map)
    qed
    then have ft: "f t = t" using f(1) i(2) ws(2) by auto
    have "\<exists>k s'. k \<le> length cs' \<and> yields (take k cs') ?s = Some s' \<and> current_task s' = Some (t_addr t)"
      using less.prems(5-7) cs ws f(1) j ft yield_ok [OF less.prems(1) f(2)]
      by (intro less.hyps [of "map f ws" ?s "t_addr x" j "map f (vs @ task_list s ! i # us')"]) (auto simp: task_at_map ring_map)
    then obtain k s' where "k \<le> length cs'" "yields (take k cs') ?s = Some s'" "current_task s' = Some (t_addr t)" by blast
    then show ?thesis using f(2) cs by (intro exI [of _ "Suc k"] exI [of _ s']) simp
  qed
qed

end
