(* ===== verification/Scheduler_Proofs.thy ===== *)
theory Scheduler_Proofs
  imports Scheduler
begin

text \<open>
  The scheduler over the heap: the tasks own their structures and stacks, no operation frees memory twice, and a
  ready task is reached after at most one round of yields.
\<close>

section \<open>Ownership of heap blocks\<close>

definition task_blocks :: "sched \<Rightarrow> u64 list" where
  "task_blocks s = map t_addr (task_list s) @ map t_stack_base (task_list s)"

definition owns :: "heap \<Rightarrow> u64 list \<Rightarrow> bool" where
  "owns h ps \<longleftrightarrow> distinct ps \<and> (\<forall>p\<in>set ps. p \<noteq> 0 \<and> unat p \<in> fst ` heap_live h)"

lemma owns_malloc:
  assumes "heap_inv a e h" and "owns h ps" and "kmalloc n h = (p, h')" and "p \<noteq> 0"
  shows "heap_inv a e h' \<and> owns h' (p # ps) \<and> owns h' ps"
proof -
  obtain s where s: "heap_live h' = insert (unat p, s) (heap_live h)" "unat p \<notin> fst ` heap_live h" "heap_inv a e h'"
    using kh.malloc_law [OF assms(1,3,4)] by blast
  then have "p \<notin> set ps" using assms(2) by (auto simp: owns_def)
  then show ?thesis using s assms(2,4) by (auto simp: owns_def)
qed

lemma owns_free:
  assumes "heap_inv a e h" and "owns h ps" and "p \<in> set ps"
  shows "\<exists>h'. kfree p h = Some h' \<and> heap_inv a e h' \<and> owns h' (remove1 p ps)"
proof -
  obtain s where "(unat p, s) \<in> heap_live h" using assms(2,3) by (force simp: owns_def)
  then obtain h' where h': "kfree p h = Some h'" "heap_inv a e h'" "heap_live h' = heap_live h - {(unat p, s)}"
    using kh.free_law [OF assms(1)] by blast
  have "unat q \<in> fst ` heap_live h'" if q: "q \<in> set ps" "q \<noteq> p" for q
  proof -
    obtain r where "(unat q, r) \<in> heap_live h" using assms(2) q(1) by (force simp: owns_def)
    then show ?thesis using h'(3) q(2) by (force simp: word_unat_eq_iff)
  qed
  then have "owns h' (remove1 p ps)" using assms(2) by (auto simp: owns_def)
  then show ?thesis using h' by blast
qed

lemma owns_perm: "owns h ps \<Longrightarrow> distinct qs \<Longrightarrow> set qs \<subseteq> set ps \<Longrightarrow> owns h qs"
  by (auto simp: owns_def)

lemma task_create_safe:
  assumes "heap_inv a e h" and "sched_ok s" and "owns h (task_blocks s)"
  shows "\<exists>r h' s'. task_create n en pr (h, s) = Some (r, h', s') \<and> heap_inv a e h' \<and> sched_ok s' \<and> owns h' (task_blocks s')"
proof (cases "en = 0")
  case True
  then show ?thesis using assms by (simp add: task_create_def)
next
  case False
  obtain p h1 where p: "kmalloc SIZEOF_TASK h = (p, h1)" by force
  show ?thesis
  proof (cases "p = 0")
    case True
    then have "h1 = h" using kh.malloc_fail [OF assms(1)] p by blast
    then show ?thesis using assms p True False by (simp add: task_create_def)
  next
    case pn: False
    have 1: "heap_inv a e h1" "owns h1 (p # task_blocks s)" using owns_malloc [OF assms(1,3) p pn] by auto
    obtain q h2 where q: "kmalloc 8192 h1 = (q, h2)" by force
    show ?thesis
    proof (cases "q = 0")
      case True
      then have "h2 = h1" using kh.malloc_fail [OF 1(1)] q by blast
      then obtain h3 where "kfree p h2 = Some h3" "heap_inv a e h3" "owns h3 (task_blocks s)"
        using owns_free [OF 1, of p] by auto
      then show ?thesis using assms(2) p pn q True False by (simp add: task_create_def sched_ok_def task_blocks_def)
    next
      case qn: False
      have 2: "heap_inv a e h2" "owns h2 (q # p # task_blocks s)" using owns_malloc [OF 1 q qn] by auto
      then have "p \<notin> t_addr ` set (task_list s)" by (auto simp: owns_def task_blocks_def)
      moreover have "owns h2 (map t_addr (task_list s) @ p # map t_stack_base (task_list s) @ [q])"
        using 2(2) by (auto simp: owns_def task_blocks_def)
      ultimately show ?thesis using 2(1) assms(2) p pn q qn False
        by (auto simp: task_create_def task_append_def sched_ok_def task_blocks_def)
    qed
  qed
qed

lemma remove_two:
  assumes "distinct (X @ a # Y @ b # Z)"
  shows "set (X @ Y @ Z) \<subseteq> set (remove1 a (remove1 b (X @ a # Y @ b # Z))) \<and> a \<in> set (remove1 b (X @ a # Y @ b # Z)) \<and> distinct (X @ Y @ Z)"
proof -
  have "set (remove1 b (X @ a # Y @ b # Z)) = set (X @ a # Y @ b # Z) - {b}" using assms by (rule set_remove1_eq)
  moreover have "set (remove1 a (remove1 b (X @ a # Y @ b # Z))) = set (remove1 b (X @ a # Y @ b # Z)) - {a}"
    using assms by (intro set_remove1_eq distinct_remove1)
  ultimately show ?thesis using assms by auto
qed

lemma removed_blocks:
  assumes "task_at a (task_list s) = Some i" and "distinct (task_blocks s)"
    and "s' = s\<lparr>task_list := take i (task_list s) @ drop (Suc i) (task_list s)\<rparr>"
  shows "set (task_blocks s') \<subseteq> set (remove1 a (remove1 (t_stack_base (task_list s ! i)) (task_blocks s))) \<and>
    a \<in> set (remove1 (t_stack_base (task_list s ! i)) (task_blocks s)) \<and> distinct (task_blocks s')"
proof -
  let ?t = "task_list s ! i" and ?xs = "take i (task_list s)" and ?ys = "drop (Suc i) (task_list s)"
  have i: "i < length (task_list s)" "t_addr ?t = a" using task_at_nth [OF assms(1)] by auto
  have l: "task_list s = ?xs @ ?t # ?ys" using i(1) by (rule id_take_nth_drop)
  have "task_blocks s = map t_addr ?xs @ a # map t_addr ?ys @ map t_stack_base ?xs @ t_stack_base ?t # map t_stack_base ?ys"
    unfolding task_blocks_def by (subst (1 2) l) (simp add: i(2))
  moreover have "task_blocks s' = map t_addr ?xs @ map t_addr ?ys @ map t_stack_base ?xs @ map t_stack_base ?ys"
    using assms(3) by (simp add: task_blocks_def)
  ultimately show ?thesis
    using assms(2) remove_two [of "map t_addr ?xs" a "map t_addr ?ys @ map t_stack_base ?xs" "t_stack_base ?t" "map t_stack_base ?ys"]
    by (simp only: append_assoc append_Cons)
qed

lemma distinct_drop_nth: "distinct xs \<Longrightarrow> distinct (take i xs @ drop (Suc i) xs)"
  using set_take_disj_set_drop_if_distinct [of xs i "Suc i"] by simp

lemma task_destroy_safe:
  assumes "heap_inv a e h" and "sched_ok s" and "owns h (task_blocks s)"
  shows "\<exists>h' s'. task_destroy ptr (h, s) = Some (h', s') \<and> heap_inv a e h' \<and> sched_ok s' \<and> owns h' (task_blocks s')"
proof (cases "\<exists>p. ptr = Some p \<and> current_task s \<noteq> Some p \<and> task_at p (task_list s) \<noteq> None")
  case False
  show ?thesis
  proof (cases "ptr = None \<or> current_task s \<noteq> ptr")
    case True
    then have "task_destroy ptr (h, s) = Some (h, s)" using False by (cases ptr) (auto simp: task_destroy_def)
    then show ?thesis using assms by blast
  next
    case cur: False
    then obtain p where p: "ptr = Some p" "current_task s = Some p" by auto
    let ?f = "\<lambda>t. t\<lparr>t_state := TASK_DEAD\<rparr>"
    have m: "map t_addr (update_task p ?f (task_list s)) = map t_addr (task_list s)"
      "map t_stack_base (update_task p ?f (task_list s)) = map t_stack_base (task_list s)" by (auto simp: update_task_def)
    have "sched_ok (s\<lparr>task_list := update_task p ?f (task_list s)\<rparr>)"
      using assms(2) p(2) m(1) by (auto simp: sched_ok_def addr_update dest!: update_task_mem split: if_splits)
    then show ?thesis using assms(1,3) p m by (simp add: task_destroy_def task_blocks_def)
  qed
next
  case True
  then obtain p i where p: "ptr = Some p" "current_task s \<noteq> Some p" "task_at p (task_list s) = Some i" by auto
  let ?t = "task_list s ! i" and ?s = "s\<lparr>task_list := take i (task_list s) @ drop (Suc i) (task_list s)\<rparr>"
  have i: "i < length (task_list s)" "t_addr ?t = p" using task_at_nth [OF p(3)] by auto
  have "t_stack_base ?t \<in> set (task_blocks s)" using i(1) by (auto simp: task_blocks_def)
  then obtain h1 where 1: "kfree (t_stack_base ?t) h = Some h1" "heap_inv a e h1" "owns h1 (remove1 (t_stack_base ?t) (task_blocks s))"
    using owns_free [OF assms(1,3)] by blast
  have nz: "t_stack_base ?t \<noteq> 0" using \<open>t_stack_base ?t \<in> set (task_blocks s)\<close> assms(3) by (auto simp: owns_def)
  have b: "set (task_blocks ?s) \<subseteq> set (remove1 p (remove1 (t_stack_base ?t) (task_blocks s)))"
    "p \<in> set (remove1 (t_stack_base ?t) (task_blocks s))" "distinct (task_blocks ?s)"
    using removed_blocks [OF p(3)] assms(3) by (auto simp: owns_def)
  obtain h2 where 2: "kfree p h1 = Some h2" "heap_inv a e h2" "owns h2 (remove1 p (remove1 (t_stack_base ?t) (task_blocks s)))"
    using owns_free [OF 1(2,3) b(2)] by blast
  have l: "task_list s = take i (task_list s) @ ?t # drop (Suc i) (task_list s)" using i(1) by (rule id_take_nth_drop)
  have "sched_ok ?s"
  proof -
    have "distinct (map t_addr (take i (task_list s) @ drop (Suc i) (task_list s)))"
      using assms(2) distinct_drop_nth [of "map t_addr (task_list s)" i] by (simp add: sched_ok_def take_map drop_map)
    moreover have "\<forall>t\<in>set (task_list ?s). t \<in> set (task_list s)" by (auto dest: in_set_takeD in_set_dropD)
    moreover have "q \<in> t_addr ` set (task_list ?s)" if "current_task s = Some q" for q
    proof -
      have "q \<in> t_addr ` set (take i (task_list s) @ ?t # drop (Suc i) (task_list s))" using assms(2) that l by (simp add: sched_ok_def)
      then show ?thesis using that p(2) i(2) by auto
    qed
    ultimately show ?thesis using assms(2) by (auto simp: sched_ok_def split: option.splits)
  qed
  then show ?thesis using p nz 1(1) 2 owns_perm [OF 2(3) b(3,1)] by (simp add: task_destroy_def Let_def)
qed

section \<open>Reachable states\<close>

lemma run_ok: "sched_ok s \<Longrightarrow> current_task s = None \<Longrightarrow> scheduler_run cpu s = Some (c, s') \<Longrightarrow> sched_ok s'"
proof -
  assume s: "sched_ok s" "current_task s = None" "scheduler_run cpu s = Some (c, s')"
  obtain t where t: "scheduler_pick_first_ready s = Some t" using s(3) by (auto simp: scheduler_run_def split: option.splits)
  have "pick_best b l = Some t \<Longrightarrow> t \<in> set l \<or> b = Some t" for b l
    by (induction b l rule: pick_best.induct) (auto split: if_splits)
  then have m: "t \<in> set (task_list s)" using t by (auto simp: scheduler_pick_first_ready_def)
  have "\<forall>u\<in>set (task_list s). t_state u \<noteq> TASK_RUNNING" using s(1,2) by (auto simp: sched_ok_def)
  then have "t_addr u = t_addr t" if "u \<in> set (update_task (t_addr t) (\<lambda>t. t\<lparr>t_state := TASK_RUNNING\<rparr>) (task_list s))" "t_state u = TASK_RUNNING" for u
    using update_task_mem [OF that(1)] that(2) by (auto split: if_splits)
  then show ?thesis using s t m by (auto simp: scheduler_run_def sched_ok_def addr_update)
qed

lemma blocks_same:
  "map t_addr (task_list s') = map t_addr (task_list s) \<Longrightarrow> map t_stack_base (task_list s') = map t_stack_base (task_list s) \<Longrightarrow>
    task_blocks s' = task_blocks s"
  by (simp add: task_blocks_def)

lemma update_stack [simp]: "(\<And>t. t_stack_base (f t) = t_stack_base t) \<Longrightarrow> map t_stack_base (update_task a f l) = map t_stack_base l"
  by (induction l) (auto simp: update_task_def)

lemma yield_blocks: "scheduler_yield cpu s = Some (c, s') \<Longrightarrow> task_blocks s' = task_blocks s"
  by (auto simp: scheduler_yield_def context_switch_def intro!: blocks_same split: option.splits if_splits)

lemma run_blocks: "scheduler_run cpu s = Some (c, s') \<Longrightarrow> task_blocks s' = task_blocks s"
  by (auto simp: scheduler_run_def intro!: blocks_same split: option.splits)

text \<open>
  Steps of the scheduler and of the other users of the heap between \<open>lo\<close> and \<open>hi\<close>, who free only what is not a task's.
\<close>

inductive sched_step :: "heap \<times> sched \<Rightarrow> heap \<times> sched \<Rightarrow> bool" where
  step_create: "task_create n en pr hs = Some (r, hs') \<Longrightarrow> sched_step hs hs'"
| step_destroy: "task_destroy p hs = Some hs' \<Longrightarrow> sched_step hs hs'"
| step_yield: "scheduler_yield cpu s = Some (c, s') \<Longrightarrow> sched_step (h, s) (h, s')"
| step_run: "current_task s = None \<Longrightarrow> scheduler_run cpu s = Some (c, s') \<Longrightarrow> sched_step (h, s) (h, s')"
| step_idle: "sched_step (h, s) (h, scheduler_set_idle_task t s)"
| step_malloc: "kmalloc n h = (p, h') \<Longrightarrow> sched_step (h, s) (h', s)"
| step_free: "(unat p, n) \<in> heap_live h \<Longrightarrow> p \<notin> set (task_blocks s) \<Longrightarrow> kfree p h = Some h' \<Longrightarrow> sched_step (h, s) (h', s)"

definition sched_inv :: "nat \<Rightarrow> nat \<Rightarrow> heap \<times> sched \<Rightarrow> bool" where
  "sched_inv lo hi = (\<lambda>(h, s). heap_inv lo hi h \<and> sched_ok s \<and> owns h (task_blocks s))"

lemma sched_inv_step: "sched_step hs hs' \<Longrightarrow> sched_inv lo hi hs \<Longrightarrow> sched_inv lo hi hs'"
proof (induction rule: sched_step.induct)
  case (step_create n en pr hs r hs')
  then show ?case using task_create_safe [of lo hi "fst hs" "snd hs" n en pr] by (auto simp: sched_inv_def split: prod.splits)
next
  case (step_destroy p hs hs')
  then show ?case using task_destroy_safe [of lo hi "fst hs" "snd hs" p] by (auto simp: sched_inv_def split: prod.splits)
next
  case (step_yield cpu s c s' h)
  then show ?case using yield_ok [of s] yield_blocks by (auto simp: sched_inv_def)
next
  case (step_run s cpu c s' h)
  then show ?case using run_ok [of s] run_blocks by (auto simp: sched_inv_def)
next
  case (step_idle h s t)
  then show ?case by (simp add: sched_inv_def scheduler_set_idle_task_def sched_ok_def task_blocks_def)
next
  case (step_malloc n h p h' s)
  then show ?case using owns_malloc [of lo hi h "task_blocks s" n p h'] kh.malloc_fail [of lo hi h n h'] by (auto simp: sched_inv_def)
next
  case (step_free p n h s h')
  then obtain g where g: "kfree p h = Some g" "heap_inv lo hi g" "heap_live g = heap_live h - {(unat p, n)}"
    using kh.free_law [of lo hi h p n] by (auto simp: sched_inv_def)
  have "unat q \<in> fst ` heap_live g" if "q \<in> set (task_blocks s)" for q
  proof -
    have "q \<noteq> p" "unat q \<in> fst ` heap_live h" using step_free.prems that \<open>p \<notin> set (task_blocks s)\<close> by (auto simp: sched_inv_def owns_def)
    then show ?thesis using g(3) by (force simp: word_unat_eq_iff)
  qed
  then show ?case using step_free.prems step_free.hyps(3) g by (auto simp: sched_inv_def owns_def)
qed

section \<open>Properties\<close>

text \<open>
  C26. The scheduler never corrupts the heap: from the initial state, after any interleaving of task operations with other users of the
  heap, all task structures and stacks are distinct live allocations, at most the current task is running and the current task is
  in the list; creating and destroying a task, with any pointer, is always defined (no double or invalid free); and a
  yield is defined unless a dead task has no ready successor, where the code panics.
\<close>

theorem scheduler_reachable_safe:
  assumes "sched_step\<^sup>*\<^sup>* (heap_init base sz g, scheduler_init) (h, s)" and "8 \<le> unat base" and "24 \<le> unat sz" and "unat base + unat sz < 2 ^ 64"
  shows "owns h (task_blocks s) \<and> sched_ok s \<and> task_create n en pr (h, s) \<noteq> None \<and> task_destroy p (h, s) \<noteq> None \<and>
    (scheduler_yield cpu s = None \<longrightarrow> (\<exists>t\<in>set (task_list s). current_task s = Some (t_addr t) \<and> t_state t = TASK_DEAD))"
proof -
  have "heap_inv (unat base) (unat base + unat sz) (heap_init base sz g)"
    by (rule heap_init_inv [OF assms(2-4)])
  then have "sched_inv (unat base) (unat base + unat sz) (heap_init base sz g, scheduler_init)"
    by (simp add: sched_inv_def sched_ok_def scheduler_init_def owns_def task_blocks_def)
  with assms(1) have i: "sched_inv (unat base) (unat base + unat sz) (h, s)"
    by (induction rule: rtranclp_induct) (auto dest: sched_inv_step)
  have "\<exists>t\<in>set (task_list s). current_task s = Some (t_addr t) \<and> t_state t = TASK_DEAD" if y: "scheduler_yield cpu s = None"
  proof -
    obtain a where a: "current_task s = Some a" using y by (cases "current_task s") (auto simp: scheduler_yield_def)
    then obtain k where k: "task_at a (task_list s) = Some k" using i task_at_exists [of a "task_list s"] by (auto simp: sched_inv_def sched_ok_def)
    then have "t_state (task_list s ! k) = TASK_DEAD"
      using y a by (auto simp: scheduler_yield_def context_switch_def split: option.splits if_splits)
    then show ?thesis using task_at_nth [OF k] a by (intro bexI [of _ "task_list s ! k"]) auto
  qed
  then show ?thesis
    using i task_create_safe [of "unat base" "unat base + unat sz" h s n en pr] task_destroy_safe [of "unat base" "unat base + unat sz" h s p]
    by (auto simp: sched_inv_def)
qed

lemma scheduler_reachable_safe_witness:
  "task_destroy (Some 4120) (heap_init 4096 1024 demo_heap, scheduler_set_idle_task None scheduler_init) \<noteq> None"
proof -
  have "sched_step\<^sup>*\<^sup>* (heap_init 4096 1024 demo_heap, scheduler_init)
      (heap_init 4096 1024 demo_heap, scheduler_set_idle_task None scheduler_init)"
    by (intro r_into_rtranclp step_idle)
  from scheduler_reachable_safe [OF this] show ?thesis by simp
qed

text \<open>
  C27. Yielding is fair: a ready task other than the idle task that has \<open>d\<close> tasks between the current one and itself in the
  ring of tasks becomes current after at most \<open>d + 1\<close> yields, whatever register contents the yielding tasks have.
\<close>

theorem round_robin:
  assumes "sched_ok s" and "current_task s = Some a" and "task_at a (task_list s) = Some i"
    and "ring_after i (task_list s) = us @ t # vs" and "t_state t = TASK_READY" and "Some (t_addr t) \<noteq> idle_task s"
    and "length us < length cs"
  shows "\<exists>k s'. k \<le> length us + 1 \<and> yields (take k cs) s = Some s' \<and> current_task s' = Some (t_addr t)"
proof -
  obtain k s' where k: "k \<le> length (take (length us + 1) cs)" "yields (take k (take (length us + 1) cs)) s = Some s'" "current_task s' = Some (t_addr t)"
    using round_robin_aux [OF assms(1-6), of "take (length us + 1) cs"] assms(7) by auto
  then show ?thesis by (intro exI [of _ "min k (length us + 1)"] exI [of _ s']) (auto simp: min.commute)
qed

definition demo_task :: "u64 \<Rightarrow> task_state \<Rightarrow> task" where
  "demo_task a st = \<lparr>t_addr = a, t_tid = 1, t_state = st, t_ctx = zero_context, t_stack_base = a + 256, t_stack_size = 8192, t_priority = 1, t_name = []\<rparr>"

lemma round_robin_witness:
  "\<exists>k s'. k \<le> 2 \<and> yields (take k [zero_context, zero_context])
      \<lparr>task_list = [demo_task 1 TASK_READY, demo_task 2 TASK_RUNNING, demo_task 3 TASK_READY], current_task = Some 2, idle_task = None, next_tid = 4\<rparr> = Some s' \<and>
    current_task s' = Some 1"
  using round_robin [of "\<lparr>task_list = [demo_task 1 TASK_READY, demo_task 2 TASK_RUNNING, demo_task 3 TASK_READY], current_task = Some 2,
      idle_task = None, next_tid = 4\<rparr>" 2 1 "[demo_task 3 TASK_READY]" "demo_task 1 TASK_READY" "[]" "[zero_context, zero_context]"]
  by (simp add: sched_ok_def demo_task_def task_at_def ring_after_def numeral_2_eq_2)

end
