(* ===== verification/Timers.thy ===== *)
theory Timers
  imports Aegis_Prelude
begin

text \<open>
  Kernel timers (kernel/core/timer.c): a table of one-shot and periodic software timers that the tick interrupt
  serves.  The hardware counter and its frequency are arguments, and so is the effect of a timer callback on the table,
  since a callback may create and cancel timers.
\<close>

definition MAX_TIMERS :: nat where "MAX_TIMERS = 256"

record ktimer =
  tm_expire_ticks :: u64
  tm_callback :: u64
  tm_data :: u64
  tm_active :: bool
  tm_periodic :: bool
  tm_interval_us :: u64

record ktimers =
  timers :: "ktimer list"
  tick_count :: u64
  jiffies :: u64

section \<open>Operations\<close>

text \<open>The ticks of a delay in microseconds at a counter frequency in hertz.\<close>

definition ticks_of_us :: "u64 \<Rightarrow> u64 \<Rightarrow> u64" where
  "ticks_of_us freq us = us * (freq div 1000000)"

text \<open>One turn of the loop of the interrupt handler: the callbacks invoked so far are the first component.\<close>

definition serve_timer ::
  "(u64 \<Rightarrow> u64 \<Rightarrow> ktimers \<Rightarrow> ktimers) \<Rightarrow> u64 \<Rightarrow> u64 \<Rightarrow> nat \<Rightarrow> (u64 \<times> u64) list \<times> ktimers \<Rightarrow> (u64 \<times> u64) list \<times> ktimers" where
  "serve_timer cb now freq i = (\<lambda>(calls, st).
     let t = timers st ! i
     in if \<not> tm_active t \<or> now < tm_expire_ticks t then (calls, st)
        else
          let st1 = st\<lparr>timers := (timers st)[i := t\<lparr>tm_active := False\<rparr>]\<rparr>;
              (calls2, st2) = (if tm_callback t \<noteq> 0 then (calls @ [(tm_callback t, tm_data t)], cb (tm_callback t) (tm_data t) st1) else (calls, st1));
              t2 = timers st2 ! i
          in if tm_periodic t2
             then (calls2, st2\<lparr>timers := (timers st2)[i := t2\<lparr>tm_expire_ticks := now + ticks_of_us freq (tm_interval_us t2), tm_active := True\<rparr>]\<rparr>)
             else (calls2, st2))"

definition timer_irq_handler :: "(u64 \<Rightarrow> u64 \<Rightarrow> ktimers \<Rightarrow> ktimers) \<Rightarrow> u64 \<Rightarrow> u64 \<Rightarrow> ktimers \<Rightarrow> (u64 \<times> u64) list \<times> ktimers" where
  "timer_irq_handler cb now freq st =
     fold (serve_timer cb now freq) [0..<MAX_TIMERS] ([], st\<lparr>tick_count := tick_count st + 1, jiffies := jiffies st + 1\<rparr>)"

definition kernel_timer_init :: "ktimers \<Rightarrow> ktimers" where
  "kernel_timer_init st = st\<lparr>timers := map (\<lambda>t. t\<lparr>tm_active := False\<rparr>) (timers st), tick_count := 0, jiffies := 0\<rparr>"

definition ktimer_create :: "u64 \<Rightarrow> u64 \<Rightarrow> u64 \<Rightarrow> u64 \<Rightarrow> u64 \<Rightarrow> bool \<Rightarrow> ktimers \<Rightarrow> int \<times> ktimers" where
  "ktimer_create now freq delay_us callback data periodic st =
     (case scan (\<lambda>t. \<not> tm_active t) (timers st) of
        None \<Rightarrow> (AEGIS_ENOMEM, st)
      | Some i \<Rightarrow> (int i, st\<lparr>timers := (timers st)[i := \<lparr>tm_expire_ticks = now + ticks_of_us freq delay_us, tm_callback = callback,
          tm_data = data, tm_active = True, tm_periodic = periodic, tm_interval_us = delay_us\<rparr>]\<rparr>))"

definition ktimer_cancel :: "int \<Rightarrow> ktimers \<Rightarrow> ktimers" where
  "ktimer_cancel timer_id st =
     (if 0 \<le> timer_id \<and> timer_id < int MAX_TIMERS
      then st\<lparr>timers := (timers st)[nat timer_id := (timers st ! nat timer_id)\<lparr>tm_active := False\<rparr>]\<rparr> else st)"

definition kernel_get_ticks :: "ktimers \<Rightarrow> u64" where "kernel_get_ticks st = tick_count st"

definition kernel_get_jiffies :: "ktimers \<Rightarrow> u64" where "kernel_get_jiffies st = jiffies st"

text \<open>
  The sleep loop yields until the counter has reached the end; \<open>read k\<close> is the counter at its \<open>k\<close>-th reading, and the
  result is the number of yields.
\<close>

partial_function (option) sleep_until :: "(nat \<Rightarrow> u64) \<Rightarrow> u64 \<Rightarrow> nat \<Rightarrow> nat option" where
  "sleep_until read fin k = (if read k < fin then sleep_until read fin (Suc k) else Some k)"

definition kernel_sleep_us :: "u64 \<Rightarrow> (nat \<Rightarrow> u64) \<Rightarrow> u64 \<Rightarrow> nat option" where
  "kernel_sleep_us freq read us = sleep_until (\<lambda>k. read (Suc k)) (read 0 + us * (freq div 1000000)) 0"

text \<open>The bring-up test, with the values it reads from the counter and from the timer registers.\<close>

definition kernel_timer_bringup_selftest :: "u64 \<Rightarrow> u64 \<Rightarrow> u64 \<Rightarrow> u64 \<Rightarrow> u64 \<Rightarrow> int" where
  "kernel_timer_bringup_selftest freq before after ctl tval =
     first_fail [(freq = 0 \<or> freq < 1000000, AEGIS_EINVAL), (after \<le> before, AEGIS_EBUSY), (ctl AND 1 = 0 \<or> tval = 0, AEGIS_EINVAL)]"

section \<open>What a tick does\<close>

abbreviation expired :: "u64 \<Rightarrow> ktimer \<Rightarrow> bool" where
  "expired now t \<equiv> tm_active t \<and> tm_expire_ticks t \<le> now"

definition served :: "u64 \<Rightarrow> u64 \<Rightarrow> ktimer \<Rightarrow> ktimer" where
  "served now freq t =
     (if \<not> expired now t then t
      else if tm_periodic t then t\<lparr>tm_expire_ticks := now + ticks_of_us freq (tm_interval_us t), tm_active := True\<rparr>
      else t\<lparr>tm_active := False\<rparr>)"

definition calls_of :: "u64 \<Rightarrow> ktimer list \<Rightarrow> (u64 \<times> u64) list" where
  "calls_of now ts = map (\<lambda>t. (tm_callback t, tm_data t)) (filter (\<lambda>t. expired now t \<and> tm_callback t \<noteq> 0) ts)"

lemma served_one:
  assumes "\<And>c d st. cb c d st = st" and "i < length (timers st)"
  shows "serve_timer cb now freq i (calls, st) =
    (calls @ calls_of now [timers st ! i], st\<lparr>timers := (timers st)[i := served now freq (timers st ! i)]\<rparr>)"
  using assms by (auto simp: serve_timer_def served_def calls_of_def Let_def not_less)

lemma served_upto:
  assumes "\<And>c d st. cb c d st = st" and "n \<le> length (timers st)"
  shows "fold (serve_timer cb now freq) [0..<n] ([], st) =
    (calls_of now (take n (timers st)), st\<lparr>timers := map (served now freq) (take n (timers st)) @ drop n (timers st)\<rparr>)"
  using assms(2)
proof (induction n)
  case (Suc n)
  let ?ts = "map (served now freq) (take n (timers st)) @ drop n (timers st)"
  have n: "n < length (timers st)" "?ts ! n = timers st ! n" using Suc.prems by (auto simp: nth_append)
  have "take (Suc n) (timers st) = take n (timers st) @ [timers st ! n]" "drop n (timers st) = timers st ! n # drop (Suc n) (timers st)"
    using n(1) by (simp_all add: take_Suc_conv_app_nth Cons_nth_drop_Suc)
  then show ?case using Suc n served_one [OF assms(1), where i = n and st = "st\<lparr>timers := ?ts\<rparr>" and now = now and freq = freq]
    by (simp add: calls_of_def list_update_append)
qed (simp add: calls_of_def)

lemma sleep_until_ends: "fin \<le> read n \<Longrightarrow> k \<le> n \<Longrightarrow> (\<And>j. k \<le> j \<Longrightarrow> j < n \<Longrightarrow> read j < fin) \<Longrightarrow> sleep_until read fin k = Some n"
proof (induction "n - k" arbitrary: k)
  case 0
  then show ?case by (subst sleep_until.simps) auto
next
  case (Suc d)
  then have "sleep_until read fin (Suc k) = Some n" by (intro Suc.hyps) auto
  then show ?case using Suc.prems(3) [of k] Suc.hyps(2) by (subst sleep_until.simps) simp
qed

section \<open>Properties\<close>

text \<open>
  C28. A tick serves exactly the expired timers: with callbacks that leave the timer table alone, the handler invokes, in the order of the
  table, the callbacks of the active timers whose time has come; one-shot timers become inactive, periodic ones are
  armed one interval after now, every other timer is untouched, and the tick counters advance by one.
\<close>

theorem timer_tick_exact:
  assumes "\<And>c d st. cb c d st = st" and "length (timers st) = MAX_TIMERS"
  shows "timer_irq_handler cb now freq st = (calls_of now (timers st),
    st\<lparr>tick_count := tick_count st + 1, jiffies := jiffies st + 1, timers := map (served now freq) (timers st)\<rparr>)"
  using served_upto [OF assms(1), where n = MAX_TIMERS and st = "st\<lparr>tick_count := tick_count st + 1, jiffies := jiffies st + 1\<rparr>"] assms(2)
  by (simp add: timer_irq_handler_def)

definition timers_start :: ktimers where
  "timers_start = \<lparr>timers = replicate MAX_TIMERS \<lparr>tm_expire_ticks = 0, tm_callback = 0, tm_data = 0, tm_active = False, tm_periodic = False,
     tm_interval_us = 0\<rparr>, tick_count = 0, jiffies = 0\<rparr>"

lemma timer_tick_exact_witness:
  "fst (timer_irq_handler (\<lambda>_ _ st. st) 700 1000000 (snd (ktimer_create 100 1000000 500 0xBEEF 7 True timers_start))) = [(0xBEEF, 7)]"
proof -
  let ?st = "snd (ktimer_create 100 1000000 500 0xBEEF 7 True timers_start)"
  have t: "timers ?st = \<lparr>tm_expire_ticks = 600, tm_callback = 0xBEEF, tm_data = 7, tm_active = True, tm_periodic = True, tm_interval_us = 500\<rparr> #
      replicate 255 \<lparr>tm_expire_ticks = 0, tm_callback = 0, tm_data = 0, tm_active = False, tm_periodic = False, tm_interval_us = 0\<rparr>"
    by (simp add: ktimer_create_def timers_start_def MAX_TIMERS_def table_simps ticks_of_us_def)
  then show ?thesis
    using timer_tick_exact [of "\<lambda>_ _ st. st" ?st 700 1000000] by (simp add: MAX_TIMERS_def calls_of_def)
qed

end
