(* ===== verification/Fd_Table.thy ===== *)
theory Fd_Table
  imports Aegis_Prelude
begin

text \<open>
  File descriptors (kernel/core/fd_table.c): a table of open objects per process.  The pointer that \<open>fd_get\<close> returns through
  \<open>offset_out\<close> is the position of the entry.  The calls of \<open>vfs_close\<close> are collected as a list of objects.
\<close>

definition FD_PROCESS_SLOTS :: nat where "FD_PROCESS_SLOTS = 256"
definition AEGIS_FD_FIRST :: int where "AEGIS_FD_FIRST = 3"
definition AEGIS_FD_MAX_PER_PROCESS :: nat where "AEGIS_FD_MAX_PER_PROCESS = 32"

lemmas fd_consts = FD_PROCESS_SLOTS_def AEGIS_FD_FIRST_def AEGIS_FD_MAX_PER_PROCESS_def

record fd_entry =
  fd_used :: bool
  fd_readable :: bool
  fd_writable :: bool
  fd_object :: u64
  fd_offset :: u64

record fd_table =
  g_fd :: "fd_entry list list"
  fd_closed :: "u64 list"

definition zero_fd :: fd_entry where
  "zero_fd = \<lparr>fd_used = False, fd_readable = False, fd_writable = False, fd_object = 0, fd_offset = 0\<rparr>"

section \<open>Operations\<close>

definition fd_table_init :: "fd_table \<Rightarrow> fd_table" where
  "fd_table_init s = s\<lparr>g_fd := replicate FD_PROCESS_SLOTS (replicate AEGIS_FD_MAX_PER_PROCESS zero_fd)\<rparr>"

definition fd_install :: "u32 \<Rightarrow> u64 \<Rightarrow> bool \<Rightarrow> bool \<Rightarrow> fd_table \<Rightarrow> int \<times> fd_table" where
  "fd_install pid object readable writable s =
     (if pid = 0 \<or> FD_PROCESS_SLOTS \<le> unat pid \<or> object = 0 then (AEGIS_EINVAL, s)
      else let row = g_fd s ! unat pid
           in case scan (\<lambda>e. \<not> fd_used e) row of
                None \<Rightarrow> (AEGIS_ENOSPC, s)
              | Some i \<Rightarrow> (int i + AEGIS_FD_FIRST, s\<lparr>g_fd := (g_fd s)[unat pid := row[i :=
                  \<lparr>fd_used = True, fd_readable = readable, fd_writable = writable, fd_object = object, fd_offset = 0\<rparr>]]\<rparr>))"

text \<open>The entry that a descriptor names, if it is in range.\<close>

definition fd_index :: "u32 \<Rightarrow> int \<Rightarrow> nat option" where
  "fd_index pid fd =
     (if pid = 0 \<or> FD_PROCESS_SLOTS \<le> unat pid \<or> fd < AEGIS_FD_FIRST then None
      else if int AEGIS_FD_MAX_PER_PROCESS \<le> fd - AEGIS_FD_FIRST then None else Some (nat (fd - AEGIS_FD_FIRST)))"

definition fd_get :: "u32 \<Rightarrow> int \<Rightarrow> bool \<Rightarrow> fd_table \<Rightarrow> (u64 \<times> nat) option" where
  "fd_get pid fd for_write s =
     (case fd_index pid fd of
        None \<Rightarrow> None
      | Some i \<Rightarrow>
          let e = g_fd s ! unat pid ! i
          in if \<not> fd_used e \<or> (if for_write then \<not> fd_writable e else \<not> fd_readable e) then None else Some (fd_object e, i))"

definition clear_fd :: "nat \<Rightarrow> nat \<Rightarrow> fd_table \<Rightarrow> fd_table" where
  "clear_fd p i s = s\<lparr>g_fd := (g_fd s)[p := (g_fd s ! p)[i := zero_fd]], fd_closed := fd_closed s @ [fd_object (g_fd s ! p ! i)]\<rparr>"

definition fd_close :: "u32 \<Rightarrow> int \<Rightarrow> fd_table \<Rightarrow> int \<times> fd_table" where
  "fd_close pid fd s =
     (if pid = 0 \<or> FD_PROCESS_SLOTS \<le> unat pid \<or> fd < AEGIS_FD_FIRST then (AEGIS_EINVAL, s)
      else case fd_index pid fd of
        None \<Rightarrow> (AEGIS_ENOENT, s)
      | Some i \<Rightarrow> if \<not> fd_used (g_fd s ! unat pid ! i) then (AEGIS_ENOENT, s) else (AEGIS_OK, clear_fd (unat pid) i s))"

definition fd_close_all :: "u32 \<Rightarrow> fd_table \<Rightarrow> fd_table" where
  "fd_close_all pid s =
     (if pid = 0 \<or> FD_PROCESS_SLOTS \<le> unat pid then s
      else fold (\<lambda>i s. if \<not> fd_used (g_fd s ! unat pid ! i) then s else clear_fd (unat pid) i s) [0..<AEGIS_FD_MAX_PER_PROCESS] s)"

section \<open>Descriptors as a map\<close>

definition fds_ok :: "fd_table \<Rightarrow> bool" where
  "fds_ok s \<longleftrightarrow> length (g_fd s) = FD_PROCESS_SLOTS \<and> (\<forall>row\<in>set (g_fd s). length row = AEGIS_FD_MAX_PER_PROCESS)"

text \<open>What a process finds behind a descriptor.\<close>

definition fd_map :: "fd_table \<Rightarrow> u32 \<Rightarrow> int \<Rightarrow> fd_entry option" where
  "fd_map s pid fd = (case fd_index pid fd of None \<Rightarrow> None
     | Some i \<Rightarrow> if fd_used (g_fd s ! unat pid ! i) then Some (g_fd s ! unat pid ! i) else None)"

lemma fd_index_Some: "fd_index pid fd = Some i \<longleftrightarrow> pid \<noteq> 0 \<and> unat pid < FD_PROCESS_SLOTS \<and> i < AEGIS_FD_MAX_PER_PROCESS \<and> fd = int i + AEGIS_FD_FIRST"
  by (auto simp: fd_index_def fd_consts split: if_splits)

lemma row_length: "fds_ok s \<Longrightarrow> p < FD_PROCESS_SLOTS \<Longrightarrow> length (g_fd s ! p) = AEGIS_FD_MAX_PER_PROCESS"
  by (simp add: fds_ok_def)

text \<open>Writing one entry changes the view at exactly one descriptor.\<close>

lemma fd_map_update:
  assumes "fds_ok s" and "fd_index pid fd = Some i"
  shows "fd_map (s\<lparr>g_fd := (g_fd s)[unat pid := (g_fd s ! unat pid)[i := e]]\<rparr>) =
    (fd_map s)(pid := (fd_map s pid)(fd := (if fd_used e then Some e else None)))"
proof (intro ext)
  fix p f
  have r: "unat pid < length (g_fd s)" "i < length (g_fd s ! unat pid)" "fd = int i + AEGIS_FD_FIRST"
    using assms row_length [OF assms(1), of "unat pid"] by (auto simp: fd_index_Some fds_ok_def)
  show "fd_map (s\<lparr>g_fd := (g_fd s)[unat pid := (g_fd s ! unat pid)[i := e]]\<rparr>) p f =
      ((fd_map s)(pid := (fd_map s pid)(fd := (if fd_used e then Some e else None)))) p f"
  proof (cases "fd_index p f")
    case None
    then show ?thesis using assms(2) by (auto simp: fd_map_def)
  next
    case (Some j)
    then have f: "f = int j + AEGIS_FD_FIRST" by (simp add: fd_index_Some)
    show ?thesis using Some r f
      by (cases "p = pid"; cases "j = i") (auto simp: fd_map_def nth_list_update word_unat_eq_iff)
  qed
qed

lemma fds_ok_update: "fds_ok s \<Longrightarrow> p < FD_PROCESS_SLOTS \<Longrightarrow> fds_ok (s\<lparr>g_fd := (g_fd s)[p := (g_fd s ! p)[i := e]]\<rparr>)"
  using set_update_subset_insert [of "g_fd s" p "(g_fd s ! p)[i := e]"] row_length [of s p] by (auto simp: fds_ok_def)

lemma clear_fd_map:
  assumes "fds_ok s" and "fd_index pid fd = Some i"
  shows "fds_ok (clear_fd (unat pid) i s) \<and> fd_map (clear_fd (unat pid) i s) = (fd_map s)(pid := (fd_map s pid)(fd := None))"
proof -
  have "fds_ok (s\<lparr>g_fd := (g_fd s)[unat pid := (g_fd s ! unat pid)[i := zero_fd]]\<rparr>)"
    using assms by (intro fds_ok_update) (auto simp: fd_index_Some)
  moreover have "fd_map (clear_fd (unat pid) i s) = fd_map (s\<lparr>g_fd := (g_fd s)[unat pid := (g_fd s ! unat pid)[i := zero_fd]]\<rparr>)"
    by (simp add: fd_map_def clear_fd_def fun_eq_iff split: option.split)
  ultimately show ?thesis using fd_map_update [OF assms, of zero_fd] by (simp add: fds_ok_def clear_fd_def zero_fd_def)
qed

lemma fd_close_all_upto:
  assumes "fds_ok s" and "pid \<noteq> 0" and "unat pid < FD_PROCESS_SLOTS" and "n \<le> AEGIS_FD_MAX_PER_PROCESS"
  shows "fds_ok (fold (\<lambda>i s. if \<not> fd_used (g_fd s ! unat pid ! i) then s else clear_fd (unat pid) i s) [0..<n] s) \<and>
    fd_map (fold (\<lambda>i s. if \<not> fd_used (g_fd s ! unat pid ! i) then s else clear_fd (unat pid) i s) [0..<n] s) =
      (fd_map s)(pid := (\<lambda>fd. if fd < int n + AEGIS_FD_FIRST then None else fd_map s pid fd))"
  using assms(4)
proof (induction n)
  case 0
  have "fd_map s pid fd = None" if "fd < AEGIS_FD_FIRST" for fd using that by (simp add: fd_map_def fd_index_def)
  then show ?case using assms(1) by (auto simp: fun_eq_iff)
next
  case (Suc n)
  let ?s = "fold (\<lambda>i s. if \<not> fd_used (g_fd s ! unat pid ! i) then s else clear_fd (unat pid) i s) [0..<n] s"
  let ?fd = "int n + AEGIS_FD_FIRST"
  have IH: "fds_ok ?s" "fd_map ?s = (fd_map s)(pid := (\<lambda>fd. if fd < ?fd then None else fd_map s pid fd))" using Suc by auto
  have i: "fd_index pid ?fd = Some n" using assms(2,3) Suc.prems by (simp add: fd_index_Some)
  have "fd_map ?s pid ?fd = None \<longleftrightarrow> \<not> fd_used (g_fd ?s ! unat pid ! n)" using i by (simp add: fd_map_def)
  then have "fds_ok (if \<not> fd_used (g_fd ?s ! unat pid ! n) then ?s else clear_fd (unat pid) n ?s) \<and>
      fd_map (if \<not> fd_used (g_fd ?s ! unat pid ! n) then ?s else clear_fd (unat pid) n ?s) = (fd_map ?s)(pid := (fd_map ?s pid)(?fd := None))"
    using clear_fd_map [OF IH(1) i] IH(1) by (auto simp: fun_upd_idem)
  then show ?case unfolding IH(2) by (simp only: upt_Suc fold_append fold_simps o_apply) (auto simp: fun_eq_iff)
qed

lemma fd_close_all_map:
  assumes "fds_ok s"
  shows "fds_ok (fd_close_all pid s) \<and> fd_map (fd_close_all pid s) = (fd_map s)(pid := (\<lambda>_. None))"
proof -
  have none: "fd_map s pid = (\<lambda>_. None)" if "pid = 0 \<or> FD_PROCESS_SLOTS \<le> unat pid" using that by (auto simp: fd_map_def fd_index_def fun_eq_iff)
  have big: "fd_map s pid f = None" if "int AEGIS_FD_MAX_PER_PROCESS + AEGIS_FD_FIRST \<le> f" for f using that by (auto simp: fd_map_def fd_index_def)
  show ?thesis using none big assms fd_close_all_upto [OF assms, of pid AEGIS_FD_MAX_PER_PROCESS] by (auto simp: fd_close_all_def fun_eq_iff not_less)
qed

section \<open>Properties\<close>

text \<open>
  C29. Descriptor tables are isolated maps: installing an object gives a free descriptor of that process only,
  with the access modes asked for and offset 0, or fails with the table unchanged; closing removes exactly that descriptor and reports an error when it
  is not open; closing all removes every descriptor of the process and none of another.
\<close>

theorem fd_table_isolated:
  assumes "fds_ok s"
  shows "(let (rc, t) = fd_install pid obj r w s in fds_ok t \<and>
      (if rc < 0 then t = s else fd_map s pid rc = None \<and> fd_map t = (fd_map s)(pid := (fd_map s pid)(rc \<mapsto>
         \<lparr>fd_used = True, fd_readable = r, fd_writable = w, fd_object = obj, fd_offset = 0\<rparr>)))) \<and>
    (let (rc, t) = fd_close pid fd s in fds_ok t \<and> (rc = AEGIS_OK \<longleftrightarrow> fd_map s pid fd \<noteq> None) \<and>
      fd_map t = (fd_map s)(pid := (fd_map s pid)(fd := None))) \<and>
    fds_ok (fd_close_all pid s) \<and> fd_map (fd_close_all pid s) = (fd_map s)(pid := (\<lambda>_. None))"
proof (intro conjI)
  show "let (rc, t) = fd_install pid obj r w s in fds_ok t \<and>
      (if rc < 0 then t = s else fd_map s pid rc = None \<and> fd_map t = (fd_map s)(pid := (fd_map s pid)(rc \<mapsto>
         \<lparr>fd_used = True, fd_readable = r, fd_writable = w, fd_object = obj, fd_offset = 0\<rparr>)))"
  proof (cases "pid = 0 \<or> FD_PROCESS_SLOTS \<le> unat pid \<or> obj = 0 \<or> scan (\<lambda>e. \<not> fd_used e) (g_fd s ! unat pid) = None")
    case True
    then show ?thesis using assms by (auto simp: fd_install_def simp del: scan_None_iff)
  next
    case False
    then obtain i where i: "scan (\<lambda>e. \<not> fd_used e) (g_fd s ! unat pid) = Some i" by (auto simp del: scan_None_iff)
    then have "fd_index pid (int i + AEGIS_FD_FIRST) = Some i" "\<not> fd_used (g_fd s ! unat pid ! i)"
      using False row_length [OF assms, of "unat pid"] by (auto simp: fd_index_Some scan_Some_iff)
    then show ?thesis using False i fd_map_update [OF assms, of pid _ i] fds_ok_update [OF assms, of "unat pid"]
      by (auto simp: fd_install_def fd_map_def [of s] AEGIS_FD_FIRST_def)
  qed
  show "let (rc, t) = fd_close pid fd s in fds_ok t \<and> (rc = AEGIS_OK \<longleftrightarrow> fd_map s pid fd \<noteq> None) \<and>
      fd_map t = (fd_map s)(pid := (fd_map s pid)(fd := None))"
  proof (cases "fd_map s pid fd")
    case None
    then have "fst (fd_close pid fd s) \<noteq> AEGIS_OK" "snd (fd_close pid fd s) = s"
      by (auto simp: fd_close_def fd_map_def split: option.splits if_splits)
    then show ?thesis using assms None by (auto simp: Let_def fun_upd_idem split: prod.splits)
  next
    case (Some e)
    then obtain i where i: "fd_index pid fd = Some i" "fd_used (g_fd s ! unat pid ! i)" by (auto simp: fd_map_def split: option.splits if_splits)
    then have "fd_close pid fd s = (AEGIS_OK, clear_fd (unat pid) i s)" using fd_index_Some [THEN iffD1, OF i(1)] by (simp add: fd_close_def)
    then show ?thesis using clear_fd_map [OF assms i(1)] Some by simp
  qed
  show "fds_ok (fd_close_all pid s)" "fd_map (fd_close_all pid s) = (fd_map s)(pid := (\<lambda>_. None))"
    using fd_close_all_map [OF assms] by auto
qed

lemma fd_table_isolated_witness:
  "fds_ok (fd_close_all 7 (fd_table_init \<lparr>g_fd = [], fd_closed = []\<rparr>))"
proof -
  have "fds_ok (fd_table_init \<lparr>g_fd = [], fd_closed = []\<rparr>)" by (simp add: fds_ok_def fd_table_init_def)
  from fd_table_isolated [OF this, of 7 1 True False 3] show ?thesis by blast
qed

end
