(* ===== verification/Elf_Loader.thy ===== *)
theory Elf_Loader
  imports Userland_State
begin

text \<open>
  The ELF loader (kernel/core/elf_loader.c): validation of an ELF64 image, copying of its load segments into one of sixteen
  runtime slots, release of a slot, and the checks of user address ranges.

  An image is a view of its bytes by offset together with its length.  The static backing memory of a slot is a view of
  its bytes, and its address and the address of the stack backing are the arguments \<open>ia\<close> and \<open>sa\<close>.  A write
  outside the backing memory is the result None.
\<close>

section \<open>Data\<close>

definition AEGIS_ELF_PATH_MAX :: nat where "AEGIS_ELF_PATH_MAX = 64"
definition AEGIS_ELF_LOAD_READ :: u32 where "AEGIS_ELF_LOAD_READ = 1"
definition AEGIS_ELF_LOAD_WRITE :: u32 where "AEGIS_ELF_LOAD_WRITE = 2"
definition AEGIS_ELF_LOAD_EXEC :: u32 where "AEGIS_ELF_LOAD_EXEC = 4"
definition AEGIS_ELF_MAX_LOAD_SEGMENTS :: nat where "AEGIS_ELF_MAX_LOAD_SEGMENTS = 8"
definition AEGIS_ELF_RUNTIME_MAX :: nat where "AEGIS_ELF_RUNTIME_MAX = 16"
definition AEGIS_ELF_RUNTIME_IMAGE_MAX :: u64 where "AEGIS_ELF_RUNTIME_IMAGE_MAX = 0x40000"
definition AEGIS_ELF_IMAGE_BUF_MAX :: int where "AEGIS_ELF_IMAGE_BUF_MAX = 0x80000"
definition AEGIS_ELF_EM_AARCH64 :: u16 where "AEGIS_ELF_EM_AARCH64 = 183"
definition SIZEOF_EHDR :: u64 where "SIZEOF_EHDR = 64"
definition SIZEOF_PHDR :: u64 where "SIZEOF_PHDR = 56"
definition PT_LOAD :: u32 where "PT_LOAD = 1"
definition PF_X :: u32 where "PF_X = 1"
definition PF_W :: u32 where "PF_W = 2"
definition PF_R :: u32 where "PF_R = 4"

lemmas elf_consts = AEGIS_ELF_LOAD_READ_def AEGIS_ELF_LOAD_WRITE_def AEGIS_ELF_LOAD_EXEC_def PF_X_def PF_W_def PF_R_def

record elf64_ehdr =
  e_ident :: "u8 list"
  e_type :: u16
  e_machine :: u16
  e_version :: u32
  e_entry :: u64
  e_phoff :: u64
  e_ehsize :: u16
  e_phentsize :: u16
  e_phnum :: u16

record elf64_phdr =
  p_type :: u32
  p_flags :: u32
  p_offset :: u64
  p_vaddr :: u64
  p_filesz :: u64
  p_memsz :: u64
  p_align :: u64

record elf_image_info =
  ei_validated :: bool
  ei_loadable :: bool
  ei_path :: string
  ei_entry :: u64
  ei_text_vaddr :: u64
  ei_text_filesz :: u64
  ei_text_memsz :: u64
  ei_text_flags :: u32
  ei_text_pt_load_copied :: bool
  ei_text_permissions_ready :: bool
  ei_text_file_bytes_copied :: u64
  ei_text_zero_bytes :: u64
  ei_text_kernel_backing :: u64
  ei_runtime_image_base :: u64
  ei_runtime_image_size :: u64
  ei_load_segment_count :: nat
  ei_runtime_entry :: u64
  ei_runtime_stack_base :: u64
  ei_runtime_stack_size :: u64
  ei_runtime_stack_top :: u64
  ei_runtime_slot :: u32
  ei_phnum :: u16
  ei_machine :: u16
  ei_type :: u16

definition zero_info :: elf_image_info where
  "zero_info = \<lparr>ei_validated = False, ei_loadable = False, ei_path = [], ei_entry = 0, ei_text_vaddr = 0, ei_text_filesz = 0,
     ei_text_memsz = 0, ei_text_flags = 0, ei_text_pt_load_copied = False, ei_text_permissions_ready = False,
     ei_text_file_bytes_copied = 0, ei_text_zero_bytes = 0, ei_text_kernel_backing = 0, ei_runtime_image_base = 0,
     ei_runtime_image_size = 0, ei_load_segment_count = 0, ei_runtime_entry = 0, ei_runtime_stack_base = 0,
     ei_runtime_stack_size = 0, ei_runtime_stack_top = 0, ei_runtime_slot = 0, ei_phnum = 0, ei_machine = 0, ei_type = 0\<rparr>"

record elf_runtime_segment =
  seg_base :: u64
  seg_size :: u64
  seg_flags :: u32

text \<open>The \<open>segment_count\<close> first entries of the segment array are the list.\<close>

record elf_runtime_slot =
  sl_used :: bool
  sl_info :: elf_image_info
  sl_image_backing :: "nat \<Rightarrow> u8"
  sl_stack_backing :: "nat \<Rightarrow> u8"
  sl_segments :: "elf_runtime_segment list"

record elf_loader =
  runtime_slots :: "elf_runtime_slot list"
  builtin_info :: elf_image_info
  loader_initialised :: bool
  builtin_ready :: bool
  pt_load_segments_copied :: bool
  permissions_ready :: bool
  builtin_runtime_slot :: u32

section \<open>Helpers\<close>

text \<open>Little-endian fields of an image.\<close>

fun le :: "nat \<Rightarrow> (nat \<Rightarrow> u8) \<Rightarrow> nat \<Rightarrow> u64" where
  "le 0 b i = 0"
| "le (Suc n) b i = ucast (b i) + 256 * le n b (Suc i)"

definition read_ehdr :: "(nat \<Rightarrow> u8) \<Rightarrow> elf64_ehdr" where
  "read_ehdr b = \<lparr>e_ident = map b [0..<16], e_type = ucast (le 2 b 16), e_machine = ucast (le 2 b 18), e_version = ucast (le 4 b 20),
     e_entry = le 8 b 24, e_phoff = le 8 b 32, e_ehsize = ucast (le 2 b 52), e_phentsize = ucast (le 2 b 54), e_phnum = ucast (le 2 b 56)\<rparr>"

definition read_phdr :: "(nat \<Rightarrow> u8) \<Rightarrow> nat \<Rightarrow> elf64_phdr" where
  "read_phdr b at = \<lparr>p_type = ucast (le 4 b at), p_flags = ucast (le 4 b (at + 4)), p_offset = le 8 b (at + 8), p_vaddr = le 8 b (at + 16),
     p_filesz = le 8 b (at + 32), p_memsz = le 8 b (at + 40), p_align = le 8 b (at + 48)\<rparr>"

definition read_phdrs :: "(nat \<Rightarrow> u8) \<Rightarrow> elf64_phdr list" where
  "read_phdrs b = map (\<lambda>i. read_phdr b (unat (e_phoff (read_ehdr b)) + 56 * i)) [0..<unat (e_phnum (read_ehdr b))]"

definition range_contains :: "u64 \<Rightarrow> u64 \<Rightarrow> u64 \<Rightarrow> bool" where
  "range_contains base siz addr = (if siz = 0 then False else if base + siz \<le> base then False else base \<le> addr \<and> addr < base + siz)"

definition full_range_inside :: "u64 \<Rightarrow> u64 \<Rightarrow> u64 \<Rightarrow> u64 \<Rightarrow> bool" where
  "full_range_inside ptr len base siz =
     (if ptr = 0 \<or> len = 0 \<or> siz = 0 then False
      else if ptr + len \<le> ptr \<or> base + siz \<le> base then False
      else base \<le> ptr \<and> ptr + len \<le> base + siz)"

definition elf_flags_to_loader_flags :: "u32 \<Rightarrow> u32" where
  "elf_flags_to_loader_flags flags =
     (if flags AND PF_R \<noteq> 0 then AEGIS_ELF_LOAD_READ else 0) OR (if flags AND PF_W \<noteq> 0 then AEGIS_ELF_LOAD_WRITE else 0) OR
     (if flags AND PF_X \<noteq> 0 then AEGIS_ELF_LOAD_EXEC else 0)"

definition page_floor :: "u64 \<Rightarrow> u64" where "page_floor x = x AND NOT 0xFFF"

definition seg_start :: "elf64_phdr \<Rightarrow> u64" where "seg_start ph = page_floor (p_vaddr ph)"
definition seg_end :: "elf64_phdr \<Rightarrow> u64" where "seg_end ph = page_floor (p_vaddr ph + p_memsz ph + 0x1000 - 1)"

definition zero_slot :: elf_runtime_slot where
  "zero_slot = \<lparr>sl_used = False, sl_info = zero_info, sl_image_backing = (\<lambda>_. 0), sl_stack_backing = (\<lambda>_. 0), sl_segments = []\<rparr>"

definition runtime_slot_from_id :: "u32 \<Rightarrow> elf_loader \<Rightarrow> elf_runtime_slot option" where
  "runtime_slot_from_id i s =
     (if i = 0 \<or> AEGIS_ELF_RUNTIME_MAX < unat i then None
      else let slot = runtime_slots s ! (unat i - 1) in if sl_used slot then Some slot else None)"

definition runtime_slot_allocate :: "elf_loader \<Rightarrow> (u32 \<times> elf_loader) option" where
  "runtime_slot_allocate s =
     (case scan (\<lambda>sl. \<not> sl_used sl) (runtime_slots s) of
        None \<Rightarrow> None
      | Some i \<Rightarrow> Some (of_nat (i + 1), s\<lparr>runtime_slots := (runtime_slots s)[i := zero_slot\<lparr>sl_used := True\<rparr>]\<rparr>))"

definition elf_loader_init :: "elf_loader \<Rightarrow> elf_loader" where
  "elf_loader_init s = s\<lparr>builtin_info := zero_info, runtime_slots := map (\<lambda>sl. sl\<lparr>sl_used := False, sl_info := zero_info\<rparr>) (runtime_slots s),
     loader_initialised := True, builtin_ready := False, pt_load_segments_copied := False, permissions_ready := False, builtin_runtime_slot := 0\<rparr>"

section \<open>Validation\<close>

record validation =
  va_min :: u64
  va_max :: u64
  va_entry_exec :: bool
  va_loads :: nat
  va_info :: elf_image_info

text \<open>The tests on one load segment, the \<open>n\<close>-th, and the tests on the header.\<close>

definition validate_segment :: "nat \<Rightarrow> u64 \<Rightarrow> elf64_phdr \<Rightarrow> int" where
  "validate_segment n image_len ph =
     first_fail
       [(AEGIS_ELF_MAX_LOAD_SEGMENTS < n \<or> p_memsz ph = 0 \<or> p_memsz ph < p_filesz ph, AEGIS_EINVAL),
        (p_align ph \<noteq> 0 \<and> p_align ph AND (p_align ph - 1) \<noteq> 0, AEGIS_EINVAL),
        (image_len < p_offset ph + p_filesz ph \<or> p_offset ph + p_filesz ph < p_offset ph, AEGIS_EINVAL),
        (p_flags ph AND (PF_W OR PF_X) = PF_W OR PF_X, AEGIS_EPERM),
        (seg_end ph \<le> seg_start ph, AEGIS_EINVAL)]"

definition validate_header :: "elf64_ehdr \<Rightarrow> u64 \<Rightarrow> int" where
  "validate_header eh image_len =
     (let ident = e_ident eh; ph_bytes = ucast (e_phentsize eh) * ucast (e_phnum eh)
      in first_fail
           [(ident ! 0 \<noteq> 0x7f \<or> ident ! 1 \<noteq> 0x45 \<or> ident ! 2 \<noteq> 0x4c \<or> ident ! 3 \<noteq> 0x46, AEGIS_EINVAL),
            (ident ! 4 \<noteq> 2 \<or> ident ! 5 \<noteq> 1 \<or> ident ! 6 \<noteq> 1, AEGIS_EINVAL),
            (e_type eh \<noteq> 2 \<or> e_machine eh \<noteq> AEGIS_ELF_EM_AARCH64 \<or> e_version eh \<noteq> 1, AEGIS_EINVAL),
            (ucast (e_ehsize eh) \<noteq> SIZEOF_EHDR \<or> ucast (e_phentsize eh) \<noteq> SIZEOF_PHDR, AEGIS_EINVAL),
            (e_phnum eh = 0 \<or> AEGIS_ELF_MAX_LOAD_SEGMENTS < unat (e_phnum eh) \<or> image_len \<le> e_phoff eh, AEGIS_EINVAL),
            (image_len < e_phoff eh + ph_bytes \<or> e_phoff eh + ph_bytes < e_phoff eh, AEGIS_EINVAL)])"

fun validate_segments :: "u64 \<Rightarrow> u64 \<Rightarrow> elf64_phdr list \<Rightarrow> validation \<Rightarrow> int + validation" where
  "validate_segments entry image_len [] v = Inr v"
| "validate_segments entry image_len (ph # phs) v =
     (if p_type ph \<noteq> PT_LOAD then validate_segments entry image_len phs v
      else
        let v1 = v\<lparr>va_loads := va_loads v + 1\<rparr>;
            rc = validate_segment (va_loads v1) image_len ph
        in if rc \<noteq> AEGIS_OK then Inl rc
           else
             let v2 = v1\<lparr>va_min := min (va_min v1) (seg_start ph), va_max := max (va_max v1) (seg_end ph)\<rparr>;
                 v3 = (if range_contains (p_vaddr ph) (p_memsz ph) entry \<and> p_flags ph AND PF_X \<noteq> 0
                       then v2\<lparr>va_entry_exec := True, va_info := (va_info v2)\<lparr>ei_text_vaddr := p_vaddr ph, ei_text_filesz := p_filesz ph,
                         ei_text_memsz := p_memsz ph, ei_text_flags := elf_flags_to_loader_flags (p_flags ph)\<rparr>\<rparr>
                       else v2)
             in validate_segments entry image_len phs v3)"

text \<open>
  The descriptor that validation fills in is its result; what it leaves in a descriptor when it fails is not modelled, since every
  caller drops the descriptor then.
\<close>

definition elf_loader_validate_image :: "(nat \<Rightarrow> u8) option \<Rightarrow> u64 \<Rightarrow> string option \<Rightarrow> elf_loader \<Rightarrow> int + elf_image_info" where
  "elf_loader_validate_image img image_len path s =
     (case img of
        None \<Rightarrow> Inl AEGIS_EINVAL
      | Some b \<Rightarrow>
          let eh = read_ehdr b;
              rc = (if \<not> loader_initialised s \<or> image_len < SIZEOF_EHDR then AEGIS_EINVAL else validate_header eh image_len)
          in if rc \<noteq> AEGIS_OK then Inl rc
             else
               let info = zero_info\<lparr>ei_phnum := e_phnum eh, ei_machine := e_machine eh, ei_type := e_type eh, ei_entry := e_entry eh,
                     ei_path := copy_bounded (AEGIS_ELF_PATH_MAX - 1) (case path of None \<Rightarrow> ''<memory>'' | Some p \<Rightarrow> p)\<rparr>
               in case validate_segments (e_entry eh) image_len (read_phdrs b)
                         \<lparr>va_min = - 1, va_max = 0, va_entry_exec = False, va_loads = 0, va_info = info\<rparr> of
                    Inl e \<Rightarrow> Inl e
                  | Inr v \<Rightarrow>
                      if va_loads v = 0 \<or> \<not> va_entry_exec v \<or> va_min v = - 1 \<or> AEGIS_ELF_RUNTIME_IMAGE_MAX < va_max v - va_min v
                      then Inl AEGIS_EINVAL
                      else Inr ((va_info v)\<lparr>ei_runtime_image_size := va_max v - va_min v, ei_load_segment_count := va_loads v,
                             ei_loadable := True, ei_validated := True\<rparr>))"

section \<open>Loading\<close>

record copying =
  cp_backing :: "nat \<Rightarrow> u8"
  cp_segments :: "elf_runtime_segment list"
  cp_copied :: u64
  cp_zeroed :: u64

definition load_span :: "elf64_phdr list \<Rightarrow> u64 \<times> u64" where
  "load_span phs = fold (\<lambda>ph (lo, hi). if p_type ph = PT_LOAD then (min lo (seg_start ph), max hi (seg_end ph)) else (lo, hi)) phs (- 1, 0)"

text \<open>The copy loop, with its return code and what it has copied so far.\<close>

fun copy_segments :: "u64 \<Rightarrow> (nat \<Rightarrow> u8) \<Rightarrow> u64 \<Rightarrow> u64 \<Rightarrow> elf64_phdr list \<Rightarrow> copying \<Rightarrow> (int \<times> copying) option" where
  "copy_segments base img image_len lo [] c = Some (AEGIS_OK, c)"
| "copy_segments base img image_len lo (ph # phs) c =
     (if p_type ph \<noteq> PT_LOAD then copy_segments base img image_len lo phs c
      else if image_len < p_offset ph + p_filesz ph then Some (AEGIS_EINVAL, c)
      else
        let off = p_vaddr ph - lo
        in if AEGIS_ELF_RUNTIME_IMAGE_MAX < off + p_memsz ph then Some (AEGIS_ENOMEM, c)
           else if unat AEGIS_ELF_RUNTIME_IMAGE_MAX < unat off + unat (p_filesz ph) then None
           else copy_segments base img image_len lo phs
             \<lparr>cp_backing = (\<lambda>k. if unat off \<le> k \<and> k < unat off + unat (p_filesz ph) then img (unat (p_offset ph) + (k - unat off)) else cp_backing c k),
              cp_segments = cp_segments c @ [\<lparr>seg_base = base + off, seg_size = p_memsz ph, seg_flags = elf_flags_to_loader_flags (p_flags ph)\<rparr>],
              cp_copied = cp_copied c + p_filesz ph, cp_zeroed = cp_zeroed c + (p_memsz ph - p_filesz ph)\<rparr>)"

text \<open>The slot is the one with index \<open>i\<close>.\<close>

definition copy_executable_pt_load ::
  "(nat \<Rightarrow> u64) \<Rightarrow> (nat \<Rightarrow> u64) \<Rightarrow> (nat \<Rightarrow> u8) \<Rightarrow> u64 \<Rightarrow> nat \<Rightarrow> elf_image_info \<Rightarrow> elf_loader \<Rightarrow> ((int + elf_image_info) \<times> elf_loader) option" where
  "copy_executable_pt_load ia sa b image_len i info s =
     (if \<not> ei_validated info \<or> \<not> ei_loadable info then Some (Inl AEGIS_EINVAL, s)
      else
        let phs = read_phdrs b; (lo, hi) = load_span phs
        in if lo = - 1 \<or> AEGIS_ELF_RUNTIME_IMAGE_MAX < hi - lo then Some (Inl AEGIS_ENOMEM, s)
           else case copy_segments (ia i) b image_len lo phs \<lparr>cp_backing = (\<lambda>_. 0), cp_segments = [], cp_copied = 0, cp_zeroed = 0\<rparr> of
                  None \<Rightarrow> None
                | Some (rc, c) \<Rightarrow>
                    let slot = (runtime_slots s ! i)\<lparr>sl_image_backing := cp_backing c, sl_segments := cp_segments c\<rparr>
                    in if rc \<noteq> AEGIS_OK then Some (Inl rc, s\<lparr>runtime_slots := (runtime_slots s)[i := slot]\<rparr>)
                       else
                         let info1 = info\<lparr>ei_text_pt_load_copied := True, ei_text_permissions_ready := True,
                               ei_text_file_bytes_copied := cp_copied c, ei_text_zero_bytes := cp_zeroed c,
                               ei_runtime_image_base := ia i, ei_runtime_image_size := hi - lo, ei_text_kernel_backing := ia i,
                               ei_text_memsz := hi - lo, ei_runtime_entry := ia i + (ei_entry info - lo),
                               ei_runtime_stack_base := sa i, ei_runtime_stack_size := AEGIS_USER_STACK_SIZE,
                               ei_runtime_stack_top := (sa i + AEGIS_USER_STACK_SIZE) AND NOT 0xF, ei_runtime_slot := of_nat (i + 1)\<rparr>
                         in Some (Inr info1, s\<lparr>runtime_slots := (runtime_slots s)[i := slot\<lparr>sl_info := info1\<rparr>],
                              pt_load_segments_copied := True, permissions_ready := True\<rparr>))"

definition load_image_into_runtime ::
  "(nat \<Rightarrow> u64) \<Rightarrow> (nat \<Rightarrow> u64) \<Rightarrow> (nat \<Rightarrow> u8) \<Rightarrow> u64 \<Rightarrow> string option \<Rightarrow> elf_loader \<Rightarrow> ((int + elf_image_info) \<times> elf_loader) option" where
  "load_image_into_runtime ia sa b image_len path s =
     (case elf_loader_validate_image (Some b) image_len path s of
        Inl rc \<Rightarrow> Some (Inl rc, s)
      | Inr tmp \<Rightarrow>
          case runtime_slot_allocate s of
            None \<Rightarrow> Some (Inl AEGIS_ENOMEM, s)
          | Some (slot_id, s1) \<Rightarrow>
              let i = unat slot_id - 1
              in case copy_executable_pt_load ia sa b image_len i tmp s1 of
                   None \<Rightarrow> None
                 | Some (Inl rc, s2) \<Rightarrow> Some (Inl rc, s2\<lparr>runtime_slots := (runtime_slots s2)[i := (runtime_slots s2 ! i)\<lparr>sl_used := False\<rparr>]\<rparr>)
                 | Some (Inr info, s2) \<Rightarrow> Some (Inr info, s2))"

text \<open>The built-in image, byte for byte.\<close>

fun le_bytes :: "nat \<Rightarrow> u64 \<Rightarrow> u8 list" where
  "le_bytes 0 w = []"
| "le_bytes (Suc n) w = ucast w # le_bytes n (w div 256)"

definition builtin_aegis_init_elf :: "u8 list" where
  "builtin_aegis_init_elf =
     [0x7f, 0x45, 0x4c, 0x46, 2, 1, 1, 0, 0, 0, 0, 0, 0, 0, 0, 0] @ le_bytes 2 2 @ le_bytes 2 (ucast AEGIS_ELF_EM_AARCH64) @ le_bytes 4 1 @
     le_bytes 8 AEGIS_USER_TEXT_BASE @ le_bytes 8 SIZEOF_EHDR @ le_bytes 8 0 @ le_bytes 4 0 @ le_bytes 2 SIZEOF_EHDR @ le_bytes 2 SIZEOF_PHDR @
     le_bytes 2 1 @ le_bytes 2 0 @ le_bytes 2 0 @ le_bytes 2 0 @
     le_bytes 4 (ucast PT_LOAD) @ le_bytes 4 (ucast (PF_R OR PF_X)) @ le_bytes 8 (SIZEOF_EHDR + SIZEOF_PHDR) @ le_bytes 8 AEGIS_USER_TEXT_BASE @
     le_bytes 8 AEGIS_USER_TEXT_BASE @ le_bytes 8 16 @ le_bytes 8 0x1000 @ le_bytes 8 0x1000 @
     [0xa9, 0x37, 0x00, 0x00, 0x54, 0x37, 0x00, 0x00, 0x50, 0x54, 0x4c, 0x44, 0x50, 0x45, 0x52, 0x4d]"

definition view_of :: "u8 list \<Rightarrow> nat \<Rightarrow> u8" where
  "view_of bs k = (if k < length bs then bs ! k else 0)"

definition bind_builtin :: "((int + elf_image_info) \<times> elf_loader) option \<Rightarrow> ((int + elf_image_info) \<times> elf_loader) option" where
  "bind_builtin r =
     (case r of
        None \<Rightarrow> None
      | Some (Inl rc, s) \<Rightarrow> Some (Inl rc, s)
      | Some (Inr tmp, s) \<Rightarrow> Some (Inr tmp, s\<lparr>builtin_info := tmp, builtin_runtime_slot := ei_runtime_slot tmp, builtin_ready := True\<rparr>))"

definition elf_loader_load_builtin_aegis_init :: "(nat \<Rightarrow> u64) \<Rightarrow> (nat \<Rightarrow> u64) \<Rightarrow> elf_loader \<Rightarrow> ((int + elf_image_info) \<times> elf_loader) option" where
  "elf_loader_load_builtin_aegis_init ia sa s =
     (if \<not> loader_initialised s then Some (Inl AEGIS_EINVAL, s)
      else bind_builtin (load_image_into_runtime ia sa (view_of builtin_aegis_init_elf) (of_nat (length builtin_aegis_init_elf)) (Some ''/sbin/aegis-init'') s))"

text \<open>\<open>file\<close> is what opening and reading a path gives: no node, or the bytes and the return code of the read.\<close>

definition elf_loader_load_vfs_path ::
  "(nat \<Rightarrow> u64) \<Rightarrow> (nat \<Rightarrow> u64) \<Rightarrow> (string \<Rightarrow> ((nat \<Rightarrow> u8) \<times> int) option) \<Rightarrow> string option \<Rightarrow> elf_loader \<Rightarrow> ((int + elf_image_info) \<times> elf_loader) option" where
  "elf_loader_load_vfs_path ia sa file path s =
     (case path of
        None \<Rightarrow> Some (Inl AEGIS_EINVAL, s)
      | Some p \<Rightarrow>
          if \<not> loader_initialised s then Some (Inl AEGIS_EINVAL, s)
          else case file p of
                 None \<Rightarrow> Some (Inl AEGIS_ENOENT, s)
               | Some (b, n) \<Rightarrow>
                   if n \<le> 0 then Some (Inl AEGIS_EINVAL, s)
                   else if AEGIS_ELF_IMAGE_BUF_MAX \<le> n then Some (Inl AEGIS_ENOMEM, s)
                   else load_image_into_runtime ia sa b (of_int n) (Some p) s)"

definition elf_loader_load_vfs_aegis_init ::
  "(nat \<Rightarrow> u64) \<Rightarrow> (nat \<Rightarrow> u64) \<Rightarrow> (string \<Rightarrow> ((nat \<Rightarrow> u8) \<times> int) option) \<Rightarrow> elf_loader \<Rightarrow> ((int + elf_image_info) \<times> elf_loader) option" where
  "elf_loader_load_vfs_aegis_init ia sa file s =
     (if \<not> loader_initialised s then Some (Inl AEGIS_EINVAL, s) else bind_builtin (elf_loader_load_vfs_path ia sa file (Some ''/sbin/aegis-init'') s))"

definition elf_loader_release_runtime_slot :: "u32 \<Rightarrow> elf_loader \<Rightarrow> int \<times> elf_loader" where
  "elf_loader_release_runtime_slot runtime_slot s =
     (let rc = first_fail
            [(\<not> loader_initialised s \<or> runtime_slot = 0 \<or> AEGIS_ELF_RUNTIME_MAX < unat runtime_slot, AEGIS_EINVAL),
             (runtime_slot = builtin_runtime_slot s, AEGIS_EPERM),
             (\<not> sl_used (runtime_slots s ! (unat runtime_slot - 1)), AEGIS_ENOENT)]
      in if rc \<noteq> AEGIS_OK then (rc, s) else (AEGIS_OK, s\<lparr>runtime_slots := (runtime_slots s)[unat runtime_slot - 1 := zero_slot]\<rparr>))"

section \<open>Queries\<close>

definition elf_loader_selftest :: "elf_loader \<Rightarrow> int" where
  "elf_loader_selftest s =
     (let bi = builtin_info s
      in first_fail
           [(\<not> loader_initialised s \<or> \<not> builtin_ready s, AEGIS_EINVAL), (\<not> ei_validated bi \<or> \<not> ei_loadable bi, AEGIS_EINVAL),
            (ei_machine bi \<noteq> AEGIS_ELF_EM_AARCH64, AEGIS_EINVAL), (ei_entry bi \<noteq> AEGIS_USER_TEXT_BASE, AEGIS_EINVAL),
            (ei_text_vaddr bi \<noteq> AEGIS_USER_TEXT_BASE, AEGIS_EINVAL), (ei_text_memsz bi = 0 \<or> ei_text_memsz bi AND 0xFFF \<noteq> 0, AEGIS_EINVAL),
            (ei_text_flags bi AND AEGIS_ELF_LOAD_EXEC = 0, AEGIS_EINVAL),
            (runtime_slot_from_id (builtin_runtime_slot s) s = None, AEGIS_EINVAL)])"

definition elf_loader_pt_load_selftest :: "(nat \<Rightarrow> u64) \<Rightarrow> (nat \<Rightarrow> u64) \<Rightarrow> elf_loader \<Rightarrow> int" where
  "elf_loader_pt_load_selftest ia sa s =
     (let bi = builtin_info s; i = unat (builtin_runtime_slot s) - 1
      in if \<not> loader_initialised s \<or> \<not> builtin_ready s then AEGIS_EINVAL
         else case runtime_slot_from_id (builtin_runtime_slot s) s of
                None \<Rightarrow> AEGIS_EINVAL
              | Some slot \<Rightarrow> first_fail
                  [(\<not> pt_load_segments_copied s \<or> \<not> permissions_ready s, AEGIS_EINVAL),
                   (\<not> ei_text_pt_load_copied bi \<or> \<not> ei_text_permissions_ready bi, AEGIS_EINVAL), (ei_text_kernel_backing bi \<noteq> ia i, AEGIS_EINVAL),
                   (ei_runtime_entry bi < ei_text_kernel_backing bi, AEGIS_EINVAL),
                   (ei_text_kernel_backing bi + ei_text_memsz bi \<le> ei_runtime_entry bi, AEGIS_EINVAL),
                   (ei_runtime_stack_base bi \<noteq> sa i, AEGIS_EINVAL), (ei_runtime_stack_size bi \<noteq> AEGIS_USER_STACK_SIZE, AEGIS_EINVAL),
                   (ei_runtime_stack_top bi AND 0xF \<noteq> 0, AEGIS_EINVAL),
                   (ei_text_file_bytes_copied bi = 0 \<or> ei_text_memsz bi < ei_text_file_bytes_copied bi, AEGIS_EINVAL),
                   (ei_text_zero_bytes bi \<noteq> ei_text_memsz bi - ei_text_file_bytes_copied bi, AEGIS_EINVAL),
                   (ei_text_flags bi AND AEGIS_ELF_LOAD_READ = 0, AEGIS_EINVAL), (ei_text_flags bi AND AEGIS_ELF_LOAD_EXEC = 0, AEGIS_EINVAL),
                   (ei_text_flags bi AND AEGIS_ELF_LOAD_WRITE \<noteq> 0, AEGIS_EINVAL),
                   (sl_image_backing slot 0 = 0 \<and> ei_text_file_bytes_copied bi \<noteq> 0, AEGIS_EINVAL),
                   (sl_image_backing slot (unat (ei_text_file_bytes_copied bi)) \<noteq> 0, AEGIS_EINVAL)])"

definition elf_loader_segments_copied :: "elf_loader \<Rightarrow> bool" where
  "elf_loader_segments_copied s \<longleftrightarrow> loader_initialised s \<and> builtin_ready s \<and> pt_load_segments_copied s \<and> ei_text_pt_load_copied (builtin_info s)"

definition elf_loader_permissions_ready :: "elf_loader \<Rightarrow> bool" where
  "elf_loader_permissions_ready s \<longleftrightarrow> elf_loader_segments_copied s \<and> permissions_ready s \<and> ei_text_permissions_ready (builtin_info s)"

definition elf_loader_builtin_aegis_init_ready :: "elf_loader \<Rightarrow> bool" where
  "elf_loader_builtin_aegis_init_ready s \<longleftrightarrow> loader_initialised s \<and> builtin_ready s"

definition elf_loader_builtin_aegis_init_info :: "elf_loader \<Rightarrow> elf_image_info option" where
  "elf_loader_builtin_aegis_init_info s = (if builtin_ready s then Some (builtin_info s) else None)"

definition elf_loader_runtime_entry :: "elf_loader \<Rightarrow> u64" where
  "elf_loader_runtime_entry s = (if builtin_ready s then ei_runtime_entry (builtin_info s) else 0)"

definition elf_loader_runtime_stack_base :: "elf_loader \<Rightarrow> u64" where
  "elf_loader_runtime_stack_base s = (if builtin_ready s then ei_runtime_stack_base (builtin_info s) else 0)"

definition elf_loader_runtime_stack_size :: "elf_loader \<Rightarrow> u64" where
  "elf_loader_runtime_stack_size s = (if builtin_ready s then ei_runtime_stack_size (builtin_info s) else 0)"

definition elf_loader_runtime_stack_top :: "elf_loader \<Rightarrow> u64" where
  "elf_loader_runtime_stack_top s = (if builtin_ready s then ei_runtime_stack_top (builtin_info s) else 0)"

text \<open>The two range checks differ in the flag they ask for.\<close>

definition slot_range_ok :: "u32 \<Rightarrow> u32 \<Rightarrow> u64 \<Rightarrow> u64 \<Rightarrow> elf_loader \<Rightarrow> bool" where
  "slot_range_ok flag runtime_slot ptr len s =
     (case runtime_slot_from_id runtime_slot s of
        None \<Rightarrow> False
      | Some slot \<Rightarrow>
          full_range_inside ptr len (ei_runtime_stack_base (sl_info slot)) (ei_runtime_stack_size (sl_info slot)) \<or>
          list_ex (\<lambda>seg. seg_flags seg AND flag \<noteq> 0 \<and> full_range_inside ptr len (seg_base seg) (seg_size seg)) (sl_segments slot))"

definition elf_loader_slot_read_range_ok :: "u32 \<Rightarrow> u64 \<Rightarrow> u64 \<Rightarrow> elf_loader \<Rightarrow> bool" where
  "elf_loader_slot_read_range_ok = slot_range_ok AEGIS_ELF_LOAD_READ"

definition elf_loader_slot_write_range_ok :: "u32 \<Rightarrow> u64 \<Rightarrow> u64 \<Rightarrow> elf_loader \<Rightarrow> bool" where
  "elf_loader_slot_write_range_ok = slot_range_ok AEGIS_ELF_LOAD_WRITE"

definition elf_loader_runtime_read_range_ok :: "u64 \<Rightarrow> u64 \<Rightarrow> elf_loader \<Rightarrow> bool" where
  "elf_loader_runtime_read_range_ok ptr len s \<longleftrightarrow> builtin_ready s \<and> elf_loader_slot_read_range_ok (builtin_runtime_slot s) ptr len s"

definition elf_loader_runtime_write_range_ok :: "u64 \<Rightarrow> u64 \<Rightarrow> elf_loader \<Rightarrow> bool" where
  "elf_loader_runtime_write_range_ok ptr len s \<longleftrightarrow> builtin_ready s \<and> elf_loader_slot_write_range_ok (builtin_runtime_slot s) ptr len s"

definition elf_loader_runtime_count :: "elf_loader \<Rightarrow> nat" where
  "elf_loader_runtime_count s = length (filter sl_used (runtime_slots s))"

definition elf_loader_state_name :: "elf_loader \<Rightarrow> string" where
  "elf_loader_state_name s =
     (if \<not> loader_initialised s then ''uninitialised'' else if \<not> builtin_ready s then ''initialised''
      else if \<not> pt_load_segments_copied s then ''validated-no-segments''
      else if \<not> permissions_ready s then ''segments-copied-no-permissions''
      else if ei_runtime_entry (builtin_info s) \<noteq> 0 then ''v58-native-lifecycle-runtime-ready'' else ''file-backed-aegis-init-ptload-ready'')"

end
