(* ===== verification/Elf_Proofs.thy ===== *)
theory Elf_Proofs
  imports Elf_Loader
begin

text \<open>
  What the ELF loader guarantees: validation decides a declarative well-formedness, a validated image without wrapping segments loads without a write
  outside its slot, and the user ranges that the loader accepts lie in the memory of the slot.
\<close>

section \<open>Well-formed images\<close>

abbreviation loads :: "elf64_phdr list \<Rightarrow> elf64_phdr list" where
  "loads phs \<equiv> filter (\<lambda>ph. p_type ph = PT_LOAD) phs"

definition segment_wf :: "u64 \<Rightarrow> elf64_phdr \<Rightarrow> bool" where
  "segment_wf image_len ph \<longleftrightarrow> p_memsz ph \<noteq> 0 \<and> p_filesz ph \<le> p_memsz ph \<and> (p_align ph = 0 \<or> p_align ph AND (p_align ph - 1) = 0) \<and>
     unat (p_offset ph) + unat (p_filesz ph) \<le> unat image_len \<and> \<not> (p_flags ph AND PF_W \<noteq> 0 \<and> p_flags ph AND PF_X \<noteq> 0) \<and>
     seg_start ph < seg_end ph"

definition holds_entry :: "u64 \<Rightarrow> elf64_phdr \<Rightarrow> bool" where
  "holds_entry entry ph \<longleftrightarrow> unat (p_vaddr ph) + unat (p_memsz ph) < 2 ^ 64 \<and> p_vaddr ph \<le> entry \<and> entry < p_vaddr ph + p_memsz ph \<and> p_flags ph AND PF_X \<noteq> 0"

definition header_wf :: "(nat \<Rightarrow> u8) \<Rightarrow> u64 \<Rightarrow> bool" where
  "header_wf b image_len \<longleftrightarrow> 64 \<le> unat image_len \<and> map b [0..<7] = [0x7f, 0x45, 0x4c, 0x46, 2, 1, 1] \<and>
     (let eh = read_ehdr b
      in e_type eh = 2 \<and> e_machine eh = 183 \<and> e_version eh = 1 \<and> e_ehsize eh = 64 \<and> e_phentsize eh = 56 \<and>
         e_phnum eh \<noteq> 0 \<and> unat (e_phnum eh) \<le> 8 \<and> unat (e_phoff eh) + 56 * unat (e_phnum eh) \<le> unat image_len)"

definition elf_wf :: "(nat \<Rightarrow> u8) \<Rightarrow> u64 \<Rightarrow> bool" where
  "elf_wf b image_len \<longleftrightarrow> header_wf b image_len \<and>
     (let L = set (loads (read_phdrs b))
      in (\<forall>ph\<in>L. segment_wf image_len ph) \<and> (\<exists>ph\<in>L. holds_entry (e_entry (read_ehdr b)) ph) \<and>
         Max (seg_end ` L) - Min (seg_start ` L) \<le> AEGIS_ELF_RUNTIME_IMAGE_MAX)"

section \<open>Words\<close>

lemma no_wrap_iff: "x + y < x \<longleftrightarrow> 2 ^ 64 \<le> unat x + unat (y :: u64)" for x :: u64
  using unat_bounds(4) [of x] unat_bounds(4) [of y] by (simp add: word_less_nat_alt unat_plus_if') linarith

lemma wrap_le_iff: "y \<noteq> 0 \<Longrightarrow> x + y \<le> x \<longleftrightarrow> 2 ^ 64 \<le> unat x + unat (y :: u64)" for x :: u64
  unfolding no_wrap_iff [symmetric] by (auto simp: order.order_iff_strict)

lemma and_bit: "w AND PF_W \<noteq> 0 \<longleftrightarrow> bit w 1" "w AND PF_X \<noteq> 0 \<longleftrightarrow> bit w 0"
  using and_exp_eq_0_iff_not_bit [of w 1] and_exp_eq_0_iff_not_bit [of w 0] by (auto simp: PF_W_def PF_X_def)

lemma two_flags: "w AND (PF_W OR PF_X) = PF_W OR PF_X \<longleftrightarrow> w AND PF_W \<noteq> 0 \<and> w AND PF_X \<noteq> 0"
proof -
  have "bit PF_W n \<longleftrightarrow> n = 1" "bit PF_X n \<longleftrightarrow> n = 0" for n
    using bit_exp_iff [where ?'a = u32, of 1 n] bit_exp_iff [where ?'a = u32, of 0 n] by (auto simp: PF_W_def PF_X_def)
  then have b: "bit (PF_W OR PF_X) n \<longleftrightarrow> n = 0 \<or> n = 1" for n by (auto simp: bit_or_iff)
  show ?thesis unfolding and_bit
  proof
    assume "w AND (PF_W OR PF_X) = PF_W OR PF_X"
    then have "bit (w AND (PF_W OR PF_X)) n = bit (PF_W OR PF_X) n" for n by simp
    from this [of 0] this [of 1] show "bit w 1 \<and> bit w 0" by (simp add: bit_and_iff b)
  qed (auto intro!: bit_word_eqI simp: bit_and_iff b)
qed

lemma unat_page_floor: "unat (page_floor x) = unat x div 4096 * 4096"
proof -
  have "x AND NOT (mask 12) = push_bit 12 (drop_bit 12 x)" by (rule bit_word_eqI) (auto simp: bit_simps)
  then have eq: "page_floor x = x div 4096 * 4096" by (simp add: page_floor_def mask_eq_exp_minus_1 push_bit_eq_mult drop_bit_eq_div)
  have "unat (x div 4096) * unat (4096::u64) < 2 ^ 64" using unat_bounds(4) [of x] by (simp add: unat_div)
  then show ?thesis unfolding eq using unat_mult_lem [of "x div 4096" 4096] by (simp add: unat_div)
qed

lemma page_floor_not_max: "page_floor x \<noteq> - 1"
proof
  assume "page_floor x = - 1"
  then have "unat x div 4096 * 4096 = 2 ^ 64 - 1" using unat_page_floor [of x] by (simp add: unsigned_minus_1_eq_mask mask_eq_exp_minus_1)
  moreover have "even (unat x div 4096 * 4096)" by simp
  moreover have "odd (2 ^ 64 - 1 :: nat)" by simp
  ultimately show False by metis
qed

section \<open>Validation\<close>

lemma segment_check:
  assumes "Suc n \<le> 8"
  shows "validate_segment (n + 1) image_len ph = AEGIS_OK \<longleftrightarrow> segment_wf image_len ph"
proof -
  have "\<not> (image_len < p_offset ph + p_filesz ph \<or> p_offset ph + p_filesz ph < p_offset ph) \<longleftrightarrow> unat (p_offset ph) + unat (p_filesz ph) \<le> unat image_len"
    using unat_bounds(4) [of image_len] by (auto simp: no_wrap_iff not_less word_le_nat_alt unat_plus_if')
  then show ?thesis using assms by (auto simp: validate_segment_def segment_wf_def two_flags AEGIS_ELF_MAX_LOAD_SEGMENTS_def not_le not_less)
qed

lemma entry_check: "range_contains (p_vaddr ph) (p_memsz ph) entry \<and> p_flags ph AND PF_X \<noteq> 0 \<longleftrightarrow> p_memsz ph \<noteq> 0 \<and> holds_entry entry ph"
  using wrap_le_iff [of "p_memsz ph" "p_vaddr ph"] by (auto simp: range_contains_def holds_entry_def)

text \<open>What a completed loop has collected.\<close>

definition collected :: "u64 \<Rightarrow> elf64_phdr list \<Rightarrow> validation \<Rightarrow> validation \<Rightarrow> bool" where
  "collected entry ls v0 v \<longleftrightarrow> va_loads v = va_loads v0 + length ls \<and>
     va_min v = fold min (map seg_start ls) (va_min v0) \<and> va_max v = fold max (map seg_end ls) (va_max v0) \<and>
     (va_entry_exec v \<longleftrightarrow> va_entry_exec v0 \<or> (\<exists>ph\<in>set ls. holds_entry entry ph)) \<and> ei_entry (va_info v) = ei_entry (va_info v0)"

lemma validate_segments_spec:
  assumes "va_loads v0 + length (loads phs) \<le> 8"
  shows "(\<forall>e. validate_segments entry image_len phs v0 = Inl e \<longrightarrow> \<not> (\<forall>ph\<in>set (loads phs). segment_wf image_len ph)) \<and>
    (\<forall>v. validate_segments entry image_len phs v0 = Inr v \<longrightarrow>
      (\<forall>ph\<in>set (loads phs). segment_wf image_len ph) \<and> collected entry (loads phs) v0 v)"
  using assms
proof (induction phs arbitrary: v0)
  case (Cons ph phs)
  show ?case
  proof (cases "p_type ph = PT_LOAD")
    case load: True
    show ?thesis
    proof (cases "segment_wf image_len ph")
      case False
      then show ?thesis using load Cons.prems segment_check [of "va_loads v0" image_len ph] by (simp add: Let_def split del: if_split)
    next
      case True
      have nz: "p_memsz ph \<noteq> 0" using True by (simp add: segment_wf_def)
      define v2 where "v2 = v0\<lparr>va_loads := va_loads v0 + 1, va_min := min (va_min v0) (seg_start ph), va_max := max (va_max v0) (seg_end ph)\<rparr>"
      define v3 where "v3 = (if holds_entry entry ph then v2\<lparr>va_entry_exec := True, va_info := (va_info v2)\<lparr>ei_text_vaddr := p_vaddr ph,
        ei_text_filesz := p_filesz ph, ei_text_memsz := p_memsz ph, ei_text_flags := elf_flags_to_loader_flags (p_flags ph)\<rparr>\<rparr> else v2)"
      have "validate_segments entry image_len (ph # phs) v0 = validate_segments entry image_len phs v3"
        using load Cons.prems True nz segment_check [of "va_loads v0" image_len ph] entry_check [of ph entry]
        by (simp add: Let_def v2_def v3_def split del: if_split cong: if_cong)
      moreover have v3: "va_loads v3 = va_loads v0 + 1" "va_min v3 = min (seg_start ph) (va_min v0)" "va_max v3 = max (seg_end ph) (va_max v0)"
        "va_entry_exec v3 \<longleftrightarrow> va_entry_exec v0 \<or> holds_entry entry ph" "ei_entry (va_info v3) = ei_entry (va_info v0)"
        by (simp_all add: v3_def v2_def min.commute max.commute)
      then have "collected entry (loads phs) v3 v \<Longrightarrow> collected entry (loads (ph # phs)) v0 v" for v
        using load by (auto simp: collected_def)
      ultimately show ?thesis using Cons.IH [of v3] Cons.prems load True by (simp add: v3(1))
    qed
  next
    case False
    then show ?thesis using Cons by simp
  qed
qed (simp add: collected_def)

lemma fold_min_starts: "ls \<noteq> [] \<Longrightarrow> fold min (map seg_start ls) (- 1) = Min (seg_start ` set ls)"
  using Min.set_eq_fold [of "- 1" "map seg_start ls"] by (simp add: min_absorb2 word_order.extremum)

lemma fold_max_ends: "ls \<noteq> [] \<Longrightarrow> fold max (map seg_end ls) 0 = Max (seg_end ` set ls)"
  using Max.set_eq_fold [of 0 "map seg_end ls"] by (simp add: max_absorb2)

lemma header_check: "64 \<le> unat image_len \<and> validate_header (read_ehdr b) image_len = AEGIS_OK \<longleftrightarrow> header_wf b image_len"
proof -
  let ?eh = "read_ehdr b"
  have id: "map b [0..<7] = [0x7f, 0x45, 0x4c, 0x46, 2, 1, 1] \<longleftrightarrow> b 0 = 0x7f \<and> b 1 = 0x45 \<and> b 2 = 0x4c \<and> b 3 = 0x46 \<and> b 4 = 2 \<and> b 5 = 1 \<and> b 6 = 1"
    by (simp add: upt_rec numeral_2_eq_2 numeral_3_eq_3 eval_nat_numeral)
  have nth: "e_ident ?eh ! k = b k" if "k < 16" for k using that by (simp add: read_ehdr_def)
  have uc: "unat (ucast x :: u64) = unat x" for x :: u16
    using unat_bounds(2) [of x] by (simp add: unsigned_ucast_eq take_bit_eq_mod)
  have u: "ucast x = (64 :: u64) \<longleftrightarrow> x = 64" "ucast x = (56 :: u64) \<longleftrightarrow> x = 56" for x :: u16
    by (simp_all add: word_unat_eq_iff uc)
  have sz: "unat (56 * ucast (e_phnum ?eh) :: u64) = 56 * unat (e_phnum ?eh)" if "unat (e_phnum ?eh) \<le> 8"
    using that by (simp add: unat_word_ariths uc)
  have ph: "\<not> (image_len < e_phoff ?eh + w \<or> e_phoff ?eh + w < e_phoff ?eh) \<longleftrightarrow> unat (e_phoff ?eh) + unat w \<le> unat image_len" for w
    using unat_bounds(4) [of image_len] by (auto simp: no_wrap_iff not_less word_le_nat_alt unat_plus_if')
  have "validate_header ?eh image_len = AEGIS_OK \<longleftrightarrow>
      map b [0..<7] = [0x7f, 0x45, 0x4c, 0x46, 2, 1, 1] \<and> e_type ?eh = 2 \<and> e_machine ?eh = 183 \<and> e_version ?eh = 1 \<and>
      e_ehsize ?eh = 64 \<and> e_phentsize ?eh = 56 \<and> (e_phnum ?eh \<noteq> 0 \<and> unat (e_phnum ?eh) \<le> 8 \<and> e_phoff ?eh < image_len) \<and>
      unat (e_phoff ?eh) + unat (ucast (e_phentsize ?eh) * ucast (e_phnum ?eh) :: u64) \<le> unat image_len"
    unfolding id ph [symmetric]
    by (simp add: validate_header_def Let_def nth SIZEOF_EHDR_def SIZEOF_PHDR_def u AEGIS_ELF_EM_AARCH64_def AEGIS_ELF_MAX_LOAD_SEGMENTS_def not_less not_le) blast
  moreover have "e_phoff ?eh < image_len" if "e_phnum ?eh \<noteq> 0" "unat (e_phoff ?eh) + 56 * unat (e_phnum ?eh) \<le> unat image_len"
    using that unat_gt_0 [of "e_phnum ?eh"] by (simp add: word_less_nat_alt)
  ultimately show ?thesis
    using sz unfolding header_wf_def Let_def by (auto simp del: map_eq_Cons_conv)
qed

lemma validate_iff:
  assumes "loader_initialised s"
  shows "(\<exists>info. elf_loader_validate_image (Some b) image_len path s = Inr info) \<longleftrightarrow> elf_wf b image_len"
proof (cases "header_wf b image_len")
  case False
  then show ?thesis using header_check [of image_len b] assms
    by (auto simp: elf_loader_validate_image_def elf_wf_def Let_def SIZEOF_EHDR_def word_less_nat_alt)
next
  case True
  then have h: "\<not> image_len < SIZEOF_EHDR" "validate_header (read_ehdr b) image_len = AEGIS_OK" "unat (e_phnum (read_ehdr b)) \<le> 8"
    using header_check [of image_len b] by (auto simp: SIZEOF_EHDR_def word_less_nat_alt header_wf_def Let_def)
  define ls where "ls = loads (read_phdrs b)"
  define v0 where "v0 = \<lparr>va_min = - 1, va_max = 0, va_entry_exec = False, va_loads = 0, va_info = zero_info\<lparr>ei_phnum := e_phnum (read_ehdr b), ei_machine := e_machine (read_ehdr b),
      ei_type := e_type (read_ehdr b), ei_entry := e_entry (read_ehdr b),
      ei_path := copy_bounded (AEGIS_ELF_PATH_MAX - 1) (case path of None \<Rightarrow> ''<memory>'' | Some p \<Rightarrow> p)\<rparr>\<rparr>"
  have "length ls \<le> 8" using h(3) length_filter_le [of _ "read_phdrs b"] by (simp add: ls_def read_phdrs_def) (meson le_trans length_filter_le)
  then have sp: "\<forall>e. validate_segments (e_entry (read_ehdr b)) image_len (read_phdrs b) v0 = Inl e \<longrightarrow> \<not> (\<forall>ph\<in>set ls. segment_wf image_len ph)"
    "\<forall>v. validate_segments (e_entry (read_ehdr b)) image_len (read_phdrs b) v0 = Inr v \<longrightarrow>
      (\<forall>ph\<in>set ls. segment_wf image_len ph) \<and> collected (e_entry (read_ehdr b)) ls v0 v"
    using validate_segments_spec [of v0 "read_phdrs b" "e_entry (read_ehdr b)" image_len] by (simp_all add: v0_def ls_def)
  have eq: "elf_loader_validate_image (Some b) image_len path s =
      (case validate_segments (e_entry (read_ehdr b)) image_len (read_phdrs b) v0 of
         Inl e \<Rightarrow> Inl e
       | Inr v \<Rightarrow>
           if va_loads v = 0 \<or> \<not> va_entry_exec v \<or> va_min v = - 1 \<or> AEGIS_ELF_RUNTIME_IMAGE_MAX < va_max v - va_min v then Inl AEGIS_EINVAL
           else Inr ((va_info v)\<lparr>ei_runtime_image_size := va_max v - va_min v, ei_load_segment_count := va_loads v, ei_loadable := True, ei_validated := True\<rparr>))"
    using assms h by (simp add: elf_loader_validate_image_def Let_def v0_def)
  show ?thesis
  proof (cases "validate_segments (e_entry (read_ehdr b)) image_len (read_phdrs b) v0")
    case (Inl e)
    then show ?thesis using sp(1) by (auto simp: eq elf_wf_def Let_def ls_def [symmetric])
  next
    case (Inr v)
    have c: "collected (e_entry (read_ehdr b)) ls v0 v" "\<forall>ph\<in>set ls. segment_wf image_len ph" using sp(2) Inr by auto
    have m: "va_min v = Min (seg_start ` set ls)" "va_max v = Max (seg_end ` set ls)" "va_min v \<noteq> - 1" if "ls \<noteq> []"
    proof -
      show "va_min v = Min (seg_start ` set ls)" "va_max v = Max (seg_end ` set ls)"
        using c(1) that by (simp_all add: collected_def v0_def fold_min_starts fold_max_ends)
      then have "va_min v \<in> seg_start ` set ls" using that by simp
      then show "va_min v \<noteq> - 1" by (metis imageE page_floor_not_max seg_start_def)
    qed
    have "va_entry_exec v \<longleftrightarrow> (\<exists>ph\<in>set ls. holds_entry (e_entry (read_ehdr b)) ph)" "va_loads v = length ls"
      using c(1) by (simp_all add: collected_def v0_def)
    then show ?thesis using m c(2) True Inr
      by (cases "ls = []") (auto simp: eq elf_wf_def Let_def ls_def [symmetric] not_less)
  qed
qed

section \<open>Loading\<close>

definition no_wrap :: "elf64_phdr \<Rightarrow> bool" where
  "no_wrap ph \<longleftrightarrow> unat (p_vaddr ph) + unat (p_memsz ph) + 4095 < 2 ^ 64"

definition image_no_wrap :: "(nat \<Rightarrow> u8) \<Rightarrow> bool" where
  "image_no_wrap b \<longleftrightarrow> (\<forall>ph\<in>set (loads (read_phdrs b)). no_wrap ph)"

definition seg_of :: "u64 \<Rightarrow> u64 \<Rightarrow> elf64_phdr \<Rightarrow> elf_runtime_segment" where
  "seg_of base lo ph = \<lparr>seg_base = base + (p_vaddr ph - lo), seg_size = p_memsz ph, seg_flags = elf_flags_to_loader_flags (p_flags ph)\<rparr>"

lemma load_span_folds: "load_span phs = (fold min (map seg_start (loads phs)) (- 1), fold max (map seg_end (loads phs)) 0)"
proof -
  have "fold (\<lambda>ph (lo, hi). if p_type ph = PT_LOAD then (min lo (seg_start ph), max hi (seg_end ph)) else (lo, hi)) phs (x, y) =
      (fold min (map seg_start (loads phs)) x, fold max (map seg_end (loads phs)) y)" for x y
    by (induction phs arbitrary: x y) (simp_all add: min.commute max.commute)
  then show ?thesis by (simp add: load_span_def)
qed

text \<open>A segment that does not wrap lies inside the page span.\<close>

lemma segment_in_span:
  assumes "no_wrap ph" and "lo \<le> seg_start ph" and "seg_end ph \<le> hi"
  shows "unat (p_vaddr ph - lo) = unat (p_vaddr ph) - unat lo" and "unat (p_vaddr ph - lo) + unat (p_memsz ph) \<le> unat (hi - lo)"
proof -
  have "unat (p_vaddr ph + p_memsz ph + 0x1000 - 1) = unat (p_vaddr ph) + unat (p_memsz ph) + 4095"
    using assms(1) unat_plus_small [of "p_vaddr ph" "p_memsz ph"] unat_plus_small [of "p_vaddr ph + p_memsz ph" 4095]
    by (simp add: no_wrap_def add.assoc add_diff_eq [symmetric])
  then have e: "unat (p_vaddr ph) + unat (p_memsz ph) \<le> unat (seg_end ph)" unfolding seg_end_def unat_page_floor by linarith
  have s: "unat (seg_start ph) \<le> unat (p_vaddr ph)" unfolding seg_start_def unat_page_floor by simp
  have lv: "unat lo \<le> unat (p_vaddr ph)" "unat (seg_end ph) \<le> unat hi" using assms s by (auto simp: word_le_nat_alt)
  then show a: "unat (p_vaddr ph - lo) = unat (p_vaddr ph) - unat lo" by (simp add: unat_sub word_le_nat_alt)
  have "unat (hi - lo) = unat hi - unat lo" using lv e by (simp add: unat_sub word_le_nat_alt)
  then show "unat (p_vaddr ph - lo) + unat (p_memsz ph) \<le> unat (hi - lo)" using a e lv by linarith
qed

definition fits :: "u64 \<Rightarrow> u64 \<Rightarrow> elf64_phdr \<Rightarrow> bool" where
  "fits image_len lo ph \<longleftrightarrow> segment_wf image_len ph \<and> unat (p_vaddr ph - lo) + unat (p_memsz ph) \<le> 0x40000"

text \<open>The bytes of the backing memory that a segment copies from the file.\<close>

definition covers :: "u64 \<Rightarrow> nat \<Rightarrow> elf64_phdr \<Rightarrow> bool" where
  "covers lo k ph \<longleftrightarrow> unat (p_vaddr ph - lo) \<le> k \<and> k < unat (p_vaddr ph - lo) + unat (p_filesz ph)"

definition copy_one :: "u64 \<Rightarrow> (nat \<Rightarrow> u8) \<Rightarrow> u64 \<Rightarrow> elf64_phdr \<Rightarrow> copying \<Rightarrow> copying" where
  "copy_one base b lo ph c = \<lparr>cp_backing = (\<lambda>k. if covers lo k ph then b (unat (p_offset ph) + (k - unat (p_vaddr ph - lo))) else cp_backing c k),
     cp_segments = cp_segments c @ [seg_of base lo ph], cp_copied = cp_copied c + p_filesz ph, cp_zeroed = cp_zeroed c + (p_memsz ph - p_filesz ph)\<rparr>"

lemma copy_segments_fits:
  assumes "\<forall>ph\<in>set (loads phs). fits image_len lo ph"
  shows "copy_segments base b image_len lo phs c = Some (AEGIS_OK, fold (copy_one base b lo) (loads phs) c)"
  using assms
proof (induction phs arbitrary: c)
  case (Cons ph phs)
  show ?case
  proof (cases "p_type ph = PT_LOAD")
    case True
    then have f: "segment_wf image_len ph" "unat (p_vaddr ph - lo) + unat (p_memsz ph) \<le> 0x40000" using Cons.prems by (auto simp: fits_def)
    have fz: "unat (p_filesz ph) \<le> unat (p_memsz ph)" using f(1) by (simp add: segment_wf_def word_le_nat_alt)
    have "unat (p_offset ph) + unat (p_filesz ph) \<le> unat image_len" using f(1) by (simp add: segment_wf_def)
    then have 1: "\<not> image_len < p_offset ph + p_filesz ph"
      using unat_bounds(4) [of image_len] by (simp add: not_less word_le_nat_alt unat_plus_if')
    have 2: "\<not> AEGIS_ELF_RUNTIME_IMAGE_MAX < p_vaddr ph - lo + p_memsz ph"
      using f(2) unat_plus_small [of "p_vaddr ph - lo" "p_memsz ph"] by (simp add: not_less word_le_nat_alt AEGIS_ELF_RUNTIME_IMAGE_MAX_def)
    have 3: "\<not> unat AEGIS_ELF_RUNTIME_IMAGE_MAX < unat (p_vaddr ph - lo) + unat (p_filesz ph)"
      using f(2) fz by (simp add: AEGIS_ELF_RUNTIME_IMAGE_MAX_def)
    have "copy_segments base b image_len lo (ph # phs) c = copy_segments base b image_len lo phs (copy_one base b lo ph c)"
      using True 1 2 3 by (simp add: Let_def seg_of_def copy_one_def covers_def)
    then show ?thesis using True Cons.IH [of "copy_one base b lo ph c"] Cons.prems by simp
  qed (use Cons in simp)
qed simp

lemma copied_segments: "cp_segments (fold (copy_one base b lo) ls c) = cp_segments c @ map (seg_of base lo) ls"
  by (induction ls arbitrary: c) (simp_all add: copy_one_def)

lemma copied_elsewhere: "(\<And>ph. ph \<in> set ls \<Longrightarrow> \<not> covers lo k ph) \<Longrightarrow> cp_backing (fold (copy_one base b lo) ls c) k = cp_backing c k"
  by (induction ls arbitrary: c) (simp_all add: copy_one_def)

lemma copied_bytes:
  assumes "sorted_wrt (\<lambda>p q. \<forall>k. \<not> (covers lo k p \<and> covers lo k q)) ls" and "ph \<in> set ls" and "covers lo k ph"
  shows "cp_backing (fold (copy_one base b lo) ls c) k = b (unat (p_offset ph) + (k - unat (p_vaddr ph - lo)))"
  using assms
proof (induction ls arbitrary: c)
  case (Cons q ls)
  show ?case
  proof (cases "ph = q")
    case True
    then have "cp_backing (fold (copy_one base b lo) ls (copy_one base b lo q c)) k = cp_backing (copy_one base b lo q c) k"
      using Cons.prems by (intro copied_elsewhere) auto
    also have "\<dots> = b (unat (p_offset ph) + (k - unat (p_vaddr ph - lo)))" using True Cons.prems by (simp add: copy_one_def)
    finally show ?thesis by simp
  next
    case False
    then show ?thesis using Cons by simp
  qed
qed simp

lemma wf_fits:
  assumes "elf_wf b image_len" and "image_no_wrap b" and "load_span (read_phdrs b) = (lo, hi)"
  shows "\<forall>ph\<in>set (loads (read_phdrs b)). fits image_len lo ph" and "lo \<noteq> - 1" and "\<not> AEGIS_ELF_RUNTIME_IMAGE_MAX < hi - lo"
proof -
  let ?ls = "loads (read_phdrs b)"
  have ne: "?ls \<noteq> []" using assms(1) by (auto simp: elf_wf_def Let_def filter_empty_conv)
  then have m: "lo = Min (seg_start ` set ?ls)" "hi = Max (seg_end ` set ?ls)"
    using assms(3) by (auto simp: load_span_folds fold_min_starts fold_max_ends)
  moreover have "Min (seg_start ` set ?ls) \<in> seg_start ` set ?ls" using ne by (intro Min_in) (auto simp del: set_filter)
  ultimately have "lo \<in> seg_start ` set ?ls" by simp
  then show "lo \<noteq> - 1" by (metis imageE page_floor_not_max seg_start_def)
  show sp: "\<not> AEGIS_ELF_RUNTIME_IMAGE_MAX < hi - lo" using assms(1) m by (auto simp: elf_wf_def Let_def not_less)
  show "\<forall>ph\<in>set ?ls. fits image_len lo ph"
  proof
    fix ph assume ph: "ph \<in> set ?ls"
    then have "lo \<le> seg_start ph" "seg_end ph \<le> hi" unfolding m by (simp_all add: Min_le Max_ge)
    then have "unat (p_vaddr ph - lo) + unat (p_memsz ph) \<le> unat (hi - lo)"
      using segment_in_span(2) ph assms(2) unfolding image_no_wrap_def by blast
    moreover have "unat (hi - lo) \<le> 0x40000" using sp by (simp add: not_less word_le_nat_alt AEGIS_ELF_RUNTIME_IMAGE_MAX_def)
    ultimately show "fits image_len lo ph" using ph assms(1) by (auto simp: fits_def elf_wf_def Let_def)
  qed
qed

lemma flags_write: "elf_flags_to_loader_flags f AND AEGIS_ELF_LOAD_WRITE \<noteq> 0 \<longleftrightarrow> f AND PF_W \<noteq> 0"
  and flags_exec: "elf_flags_to_loader_flags f AND AEGIS_ELF_LOAD_EXEC \<noteq> 0 \<longleftrightarrow> f AND PF_X \<noteq> 0"
  by (simp_all add: elf_flags_to_loader_flags_def AEGIS_ELF_LOAD_READ_def AEGIS_ELF_LOAD_WRITE_def AEGIS_ELF_LOAD_EXEC_def)

text \<open>What a successful load leaves in slot \<open>i\<close>.\<close>

definition loaded :: "(nat \<Rightarrow> u64) \<Rightarrow> (nat \<Rightarrow> u64) \<Rightarrow> (nat \<Rightarrow> u8) \<Rightarrow> nat \<Rightarrow> u64 \<Rightarrow> elf_image_info \<Rightarrow> elf_runtime_slot \<Rightarrow> bool" where
  "loaded ia sa b i lo info sl \<longleftrightarrow> sl_used sl \<and> sl_info sl = info \<and>
     sl_segments sl = map (seg_of (ia i) lo) (loads (read_phdrs b)) \<and>
     sl_image_backing sl = cp_backing (fold (copy_one (ia i) b lo) (loads (read_phdrs b)) \<lparr>cp_backing = (\<lambda>_. 0), cp_segments = [], cp_copied = 0, cp_zeroed = 0\<rparr>) \<and>
     ei_runtime_entry info = ia i + (e_entry (read_ehdr b) - lo) \<and>
     ei_runtime_stack_base info = sa i \<and> ei_runtime_stack_size info = AEGIS_USER_STACK_SIZE \<and> ei_runtime_slot info = of_nat (i + 1)"

lemma validated_info:
  assumes "elf_loader_validate_image (Some b) image_len path s = Inr info"
  shows "ei_validated info" "ei_loadable info" "ei_entry info = e_entry (read_ehdr b)"
proof -
  have e: "validate_segments entry len phs v0 = Inr v \<Longrightarrow> ei_entry (va_info v) = ei_entry (va_info v0)" for entry len phs v0 v
  proof (induction phs arbitrary: v0)
    case (Cons ph phs)
    then show ?case by (fastforce simp: Let_def split: if_splits)
  qed simp
  obtain v where v: "validate_segments (e_entry (read_ehdr b)) image_len (read_phdrs b) \<lparr>va_min = - 1, va_max = 0, va_entry_exec = False, va_loads = 0,
      va_info = zero_info\<lparr>ei_phnum := e_phnum (read_ehdr b), ei_machine := e_machine (read_ehdr b),
      ei_type := e_type (read_ehdr b), ei_entry := e_entry (read_ehdr b),
      ei_path := copy_bounded (AEGIS_ELF_PATH_MAX - 1) (case path of None \<Rightarrow> ''<memory>'' | Some p \<Rightarrow> p)\<rparr>\<rparr> = Inr v"
    "info = (va_info v)\<lparr>ei_runtime_image_size := va_max v - va_min v, ei_load_segment_count := va_loads v, ei_loadable := True, ei_validated := True\<rparr>"
    using assms by (auto simp: elf_loader_validate_image_def Let_def split: sum.splits if_splits)
  show "ei_validated info" "ei_loadable info" using v(2) by simp_all
  show "ei_entry info = e_entry (read_ehdr b)" using e [OF v(1)] v(2) by simp
qed

lemma load_cases:
  assumes "length (runtime_slots s) = AEGIS_ELF_RUNTIME_MAX" and "loader_initialised s" and "image_no_wrap b"
  shows "(\<exists>e. load_image_into_runtime ia sa b image_len path s = Some (Inl e, s) \<and> (elf_wf b image_len \<longrightarrow> (\<forall>sl\<in>set (runtime_slots s). sl_used sl))) \<or>
    (\<exists>i info lo sl. load_image_into_runtime ia sa b image_len path s =
        Some (Inr info, s\<lparr>runtime_slots := (runtime_slots s)[i := sl], pt_load_segments_copied := True, permissions_ready := True\<rparr>) \<and>
      i < AEGIS_ELF_RUNTIME_MAX \<and> \<not> sl_used (runtime_slots s ! i) \<and> loaded ia sa b i lo info sl \<and>
      elf_wf b image_len \<and> (\<forall>ph\<in>set (loads (read_phdrs b)). fits image_len lo ph))"
proof (cases "elf_loader_validate_image (Some b) image_len path s")
  case (Inl e)
  then show ?thesis using validate_iff [OF assms(2), of b image_len path] by (auto simp: load_image_into_runtime_def)
next
  case (Inr tmp)
  then have wf: "elf_wf b image_len" using validate_iff [OF assms(2), of b image_len path] by blast
  note v = validated_info [OF Inr]
  show ?thesis
  proof (cases "scan (\<lambda>sl. \<not> sl_used sl) (runtime_slots s)")
    case None
    then have "load_image_into_runtime ia sa b image_len path s = Some (Inl AEGIS_ENOMEM, s)"
      using Inr by (simp add: load_image_into_runtime_def runtime_slot_allocate_def del: scan_None_iff)
    then show ?thesis using None by simp
  next
    case (Some i)
    then have i: "i < AEGIS_ELF_RUNTIME_MAX" "\<not> sl_used (runtime_slots s ! i)" using assms(1) by (auto simp: scan_Some_iff)
    have u: "unat (of_nat (i + 1) :: u32) - 1 = i" using i(1) unat_of_nat_small [where ?'a = 32, of "i + 1"] by (simp add: AEGIS_ELF_RUNTIME_MAX_def)
    obtain lo hi where sp: "load_span (read_phdrs b) = (lo, hi)" by (cases "load_span (read_phdrs b)")
    note ft = wf_fits [OF wf assms(3) sp]
    define c where "c = fold (copy_one (ia i) b lo) (loads (read_phdrs b)) \<lparr>cp_backing = (\<lambda>_. 0), cp_segments = [], cp_copied = 0, cp_zeroed = 0\<rparr>"
    have c: "copy_segments (ia i) b image_len lo (read_phdrs b) \<lparr>cp_backing = (\<lambda>_. 0), cp_segments = [], cp_copied = 0, cp_zeroed = 0\<rparr> = Some (AEGIS_OK, c)"
      "cp_segments c = map (seg_of (ia i) lo) (loads (read_phdrs b))"
      using copy_segments_fits [OF ft(1)] by (simp_all add: c_def copied_segments)
    define info where "info = tmp\<lparr>ei_text_pt_load_copied := True, ei_text_permissions_ready := True, ei_text_file_bytes_copied := cp_copied c,
      ei_text_zero_bytes := cp_zeroed c, ei_runtime_image_base := ia i, ei_runtime_image_size := hi - lo, ei_text_kernel_backing := ia i,
      ei_text_memsz := hi - lo, ei_runtime_entry := ia i + (ei_entry tmp - lo), ei_runtime_stack_base := sa i, ei_runtime_stack_size := AEGIS_USER_STACK_SIZE,
      ei_runtime_stack_top := (sa i + AEGIS_USER_STACK_SIZE) AND NOT 0xF, ei_runtime_slot := of_nat (i + 1)\<rparr>"
    define sl where "sl = zero_slot\<lparr>sl_used := True, sl_image_backing := cp_backing c, sl_segments := cp_segments c, sl_info := info\<rparr>"
    have "load_image_into_runtime ia sa b image_len path s =
        Some (Inr info, s\<lparr>runtime_slots := (runtime_slots s)[i := sl], pt_load_segments_copied := True, permissions_ready := True\<rparr>)"
      using Inr Some i u ft c v assms(1) sp
      by (simp add: load_image_into_runtime_def runtime_slot_allocate_def copy_executable_pt_load_def Let_def info_def sl_def)
    moreover have "loaded ia sa b i lo info sl" using c(2) v(3) by (simp add: loaded_def sl_def info_def c_def)
    ultimately show ?thesis using i wf ft(1) by blast
  qed
qed

text \<open>
  Without the condition the guards are not enough: the size in memory of this segment makes both sums wrap, so validation accepts it and the copy leaves the
  backing memory.
\<close>

lemma wrapping_segment_escapes:
  assumes "ph = \<lparr>p_type = PT_LOAD, p_flags = PF_R, p_offset = 0, p_vaddr = 0x400FFF, p_filesz = 0x50000, p_memsz = - 1, p_align = 0\<rparr>"
  shows "validate_segment 1 0x60000 ph = AEGIS_OK \<and> copy_segments base b 0x60000 0x400000 [ph] c = None"
  by (simp add: assms validate_segment_def elf_consts PT_LOAD_def AEGIS_ELF_MAX_LOAD_SEGMENTS_def AEGIS_ELF_RUNTIME_IMAGE_MAX_def seg_start_def seg_end_def page_floor_def)

section \<open>The slots\<close>

definition within :: "u64 \<Rightarrow> u64 \<Rightarrow> u64 \<Rightarrow> nat \<Rightarrow> bool" where
  "within ptr len base siz \<longleftrightarrow> unat base \<le> unat ptr \<and> unat ptr + unat len \<le> unat base + siz"

definition slot_ok :: "u64 \<Rightarrow> u64 \<Rightarrow> elf_runtime_slot \<Rightarrow> bool" where
  "slot_ok ib sb sl \<longleftrightarrow> ei_runtime_stack_base (sl_info sl) = sb \<and> ei_runtime_stack_size (sl_info sl) = AEGIS_USER_STACK_SIZE \<and>
     (\<forall>seg\<in>set (sl_segments sl). within (seg_base seg) (seg_size seg) ib 0x40000 \<and>
        (seg_flags seg AND AEGIS_ELF_LOAD_WRITE \<noteq> 0 \<longrightarrow> seg_flags seg AND AEGIS_ELF_LOAD_EXEC = 0))"

definition slots_ok :: "(nat \<Rightarrow> u64) \<Rightarrow> (nat \<Rightarrow> u64) \<Rightarrow> elf_loader \<Rightarrow> bool" where
  "slots_ok ia sa s \<longleftrightarrow> length (runtime_slots s) = AEGIS_ELF_RUNTIME_MAX \<and> loader_initialised s \<and>
     (\<forall>i<AEGIS_ELF_RUNTIME_MAX. sl_used (runtime_slots s ! i) \<longrightarrow> slot_ok (ia i) (sa i) (runtime_slots s ! i))"

lemma seg_of_within:
  assumes "fits image_len lo ph" and "unat ib + 0x40000 < 2 ^ 64"
  shows "within (seg_base (seg_of ib lo ph)) (seg_size (seg_of ib lo ph)) ib 0x40000"
proof -
  have "unat (ib + (p_vaddr ph - lo)) = unat ib + unat (p_vaddr ph - lo)"
    using assms by (intro unat_plus_small) (auto simp: fits_def)
  then show ?thesis using assms by (simp add: within_def seg_of_def fits_def)
qed

lemma load_slots_ok:
  assumes "slots_ok ia sa s" and "image_no_wrap b" and "\<forall>i<AEGIS_ELF_RUNTIME_MAX. unat (ia i) + 0x40000 < 2 ^ 64"
    and "load_image_into_runtime ia sa b image_len path s = Some (r, s')"
  shows "slots_ok ia sa s'"
proof -
  have l: "length (runtime_slots s) = AEGIS_ELF_RUNTIME_MAX" "loader_initialised s" using assms(1) by (auto simp: slots_ok_def)
  from load_cases [OF l assms(2), of ia sa image_len path]
  consider "s' = s" | i info lo sl where "i < AEGIS_ELF_RUNTIME_MAX" "\<forall>ph\<in>set (loads (read_phdrs b)). fits image_len lo ph"
      "s' = s\<lparr>runtime_slots := (runtime_slots s)[i := sl], pt_load_segments_copied := True, permissions_ready := True\<rparr>" "loaded ia sa b i lo info sl"
    using assms(4) by auto
  then show ?thesis
  proof cases
    case 1
    then show ?thesis using assms(1) by simp
  next
    case (2 i)
    have "within (seg_base (seg_of (ia i) lo ph)) (seg_size (seg_of (ia i) lo ph)) (ia i) 0x40000 \<and>
        (seg_flags (seg_of (ia i) lo ph) AND AEGIS_ELF_LOAD_WRITE \<noteq> 0 \<longrightarrow> seg_flags (seg_of (ia i) lo ph) AND AEGIS_ELF_LOAD_EXEC = 0)"
      if "fits image_len lo ph" for ph
      using seg_of_within [OF that assms(3) [rule_format, OF 2(1)]] that flags_write [of "p_flags ph"] flags_exec [of "p_flags ph"]
      by (auto simp: seg_of_def fits_def segment_wf_def)
    then have "slot_ok (ia i) (sa i) sl" using 2 by (auto simp: slot_ok_def loaded_def)
    then show ?thesis using assms(1) 2 by (auto simp: slots_ok_def nth_list_update)
  qed
qed

text \<open>The operations of the loader, over files without wrapping segments.\<close>

inductive elf_step :: "(nat \<Rightarrow> u64) \<Rightarrow> (nat \<Rightarrow> u64) \<Rightarrow> elf_loader \<Rightarrow> elf_loader \<Rightarrow> bool" for ia sa where
  builtin: "image_no_wrap (view_of builtin_aegis_init_elf) \<Longrightarrow> elf_loader_load_builtin_aegis_init ia sa s = Some (r, s') \<Longrightarrow> elf_step ia sa s s'"
| path: "\<forall>p b n. file p = Some (b, n) \<longrightarrow> image_no_wrap b \<Longrightarrow> elf_loader_load_vfs_path ia sa file path s = Some (r, s') \<Longrightarrow> elf_step ia sa s s'"
| init: "\<forall>p b n. file p = Some (b, n) \<longrightarrow> image_no_wrap b \<Longrightarrow> elf_loader_load_vfs_aegis_init ia sa file s = Some (r, s') \<Longrightarrow> elf_step ia sa s s'"
| release: "elf_step ia sa s (snd (elf_loader_release_runtime_slot i s))"
| reset: "elf_step ia sa s (elf_loader_init s)"

lemma bind_builtin_slots: "bind_builtin r = Some (x, s') \<Longrightarrow> \<exists>s. r = Some (x, s) \<and> runtime_slots s' = runtime_slots s \<and> loader_initialised s' = loader_initialised s"
  by (auto simp: bind_builtin_def split: option.splits sum.splits)

lemma slots_ok_same: "runtime_slots s' = runtime_slots s \<Longrightarrow> loader_initialised s' = loader_initialised s \<Longrightarrow> slots_ok ia sa s' = slots_ok ia sa s"
  by (simp add: slots_ok_def)

lemma path_slots_ok:
  assumes "slots_ok ia sa s" and "\<forall>i<AEGIS_ELF_RUNTIME_MAX. unat (ia i) + 0x40000 < 2 ^ 64" and "\<forall>p b n. file p = Some (b, n) \<longrightarrow> image_no_wrap b"
    and "elf_loader_load_vfs_path ia sa file path s = Some (r, s')"
  shows "slots_ok ia sa s'"
  using assms(4) load_slots_ok [OF assms(1) _ assms(2)] assms(1,3)
  by (auto simp: elf_loader_load_vfs_path_def split: option.splits if_splits) blast

lemma elf_step_ok:
  assumes "elf_step ia sa s s'" and "slots_ok ia sa s" and "\<forall>i<AEGIS_ELF_RUNTIME_MAX. unat (ia i) + 0x40000 < 2 ^ 64"
  shows "slots_ok ia sa s'"
  using assms(1)
proof cases
  case (builtin r)
  then have "bind_builtin (load_image_into_runtime ia sa (view_of builtin_aegis_init_elf) (of_nat (length builtin_aegis_init_elf)) (Some ''/sbin/aegis-init'') s) = Some (r, s')"
    using assms(2) by (simp add: elf_loader_load_builtin_aegis_init_def slots_ok_def)
  from bind_builtin_slots [OF this] obtain s1
    where "load_image_into_runtime ia sa (view_of builtin_aegis_init_elf) (of_nat (length builtin_aegis_init_elf)) (Some ''/sbin/aegis-init'') s = Some (r, s1)"
      "runtime_slots s' = runtime_slots s1" "loader_initialised s' = loader_initialised s1" by blast
  then show ?thesis using load_slots_ok [OF assms(2) builtin(1) assms(3)] slots_ok_same by blast
next
  case (path fl p r)
  then show ?thesis using path_slots_ok [OF assms(2,3) path(1)] by blast
next
  case (init fl r)
  then have "bind_builtin (elf_loader_load_vfs_path ia sa fl (Some ''/sbin/aegis-init'') s) = Some (r, s')"
    using assms(2) by (simp add: elf_loader_load_vfs_aegis_init_def slots_ok_def)
  from bind_builtin_slots [OF this] obtain s1 where "elf_loader_load_vfs_path ia sa fl (Some ''/sbin/aegis-init'') s = Some (r, s1)"
      "runtime_slots s' = runtime_slots s1" "loader_initialised s' = loader_initialised s1" by blast
  then show ?thesis using path_slots_ok [OF assms(2,3) init(1)] slots_ok_same by blast
next
  case (release i)
  then show ?thesis using assms(2) by (auto simp: elf_loader_release_runtime_slot_def slots_ok_def Let_def nth_list_update zero_slot_def)
next
  case reset
  then show ?thesis using assms(2) by (simp add: elf_loader_init_def slots_ok_def)
qed

lemma inside_within: "full_range_inside ptr len base siz \<Longrightarrow> within ptr len base (unat siz) \<and> unat ptr + unat len < 2 ^ 64 \<and> unat base + unat siz < 2 ^ 64"
  using wrap_le_iff [of len ptr] wrap_le_iff [of siz base] unat_plus_small [of ptr len] unat_plus_small [of base siz]
  by (auto simp: full_range_inside_def within_def word_le_nat_alt not_le split: if_splits)

lemma entry_in_segment:
  assumes "holds_entry entry ph" and "fits image_len lo ph" and "unat ib + 0x40000 < 2 ^ 64"
  shows "seg_flags (seg_of ib lo ph) AND AEGIS_ELF_LOAD_EXEC \<noteq> 0 \<and> within (ib + (entry - lo)) 1 (seg_base (seg_of ib lo ph)) (unat (seg_size (seg_of ib lo ph)))"
proof -
  let ?off = "p_vaddr ph - lo" and ?d = "entry - p_vaddr ph"
  have h: "unat (p_vaddr ph) + unat (p_memsz ph) < 2 ^ 64" "p_vaddr ph \<le> entry" "entry < p_vaddr ph + p_memsz ph" using assms(1) by (auto simp: holds_entry_def)
  then have d: "unat ?d < unat (p_memsz ph)" using unat_plus_small [of "p_vaddr ph" "p_memsz ph"] by (simp add: unat_sub word_le_nat_alt word_less_nat_alt)
  have f: "unat ?off + unat (p_memsz ph) \<le> 0x40000" using assms(2) by (simp add: fits_def)
  have o: "unat (ib + ?off) = unat ib + unat ?off" using f assms(3) by (intro unat_plus_small) simp
  have "unat (ib + ?off + ?d) = unat (ib + ?off) + unat ?d" using f d assms(3) o by (intro unat_plus_small) simp
  moreover have "ib + ?off + ?d = ib + (entry - lo)" by simp
  ultimately have "unat (ib + (entry - lo)) = unat (ib + ?off) + unat ?d" by metis
  then have "within (ib + (entry - lo)) 1 (ib + ?off) (unat (p_memsz ph))" using d unfolding within_def by simp
  then show ?thesis using assms(1) flags_exec [of "p_flags ph"] by (simp add: seg_of_def holds_entry_def)
qed

lemma within_trans: "within ptr len b1 (unat len1) \<Longrightarrow> within b1 len1 b2 n \<Longrightarrow> within ptr len b2 n"
  by (auto simp: within_def)

lemma accepted_range:
  assumes "slots_ok ia sa s" and "flag = AEGIS_ELF_LOAD_READ \<or> flag = AEGIS_ELF_LOAD_WRITE" and "slot_range_ok flag id' ptr len s"
  shows "within ptr len (sa (unat id' - 1)) 0x10000 \<or>
    (\<exists>seg\<in>set (sl_segments (runtime_slots s ! (unat id' - 1))). seg_flags seg AND flag \<noteq> 0 \<and>
      (flag = AEGIS_ELF_LOAD_WRITE \<longrightarrow> seg_flags seg AND AEGIS_ELF_LOAD_EXEC = 0) \<and>
      within (seg_base seg) (seg_size seg) (ia (unat id' - 1)) 0x40000 \<and> within ptr len (seg_base seg) (unat (seg_size seg)))"
proof -
  let ?sl = "runtime_slots s ! (unat id' - 1)"
  have r: "runtime_slot_from_id id' s = Some ?sl" "sl_used ?sl" "unat id' - 1 < AEGIS_ELF_RUNTIME_MAX"
    using assms(3) by (auto simp: slot_range_ok_def runtime_slot_from_id_def Let_def AEGIS_ELF_RUNTIME_MAX_def split: option.splits if_splits)
  have ok: "slot_ok (ia (unat id' - 1)) (sa (unat id' - 1)) ?sl" using assms(1) r by (auto simp: slots_ok_def)
  from assms(3) r(1) consider "full_range_inside ptr len (ei_runtime_stack_base (sl_info ?sl)) (ei_runtime_stack_size (sl_info ?sl))"
    | seg where "seg \<in> set (sl_segments ?sl)" "seg_flags seg AND flag \<noteq> 0" "full_range_inside ptr len (seg_base seg) (seg_size seg)"
    by (auto simp: slot_range_ok_def list_ex_iff)
  then show ?thesis
  proof cases
    case 1
    then show ?thesis using ok inside_within by (fastforce simp: slot_ok_def AEGIS_USER_STACK_SIZE_def)
  next
    case (2 seg)
    then show ?thesis using ok inside_within by (fastforce simp: slot_ok_def)
  qed
qed

section \<open>The built-in image\<close>

definition builtin_phdr :: elf64_phdr where
  "builtin_phdr = \<lparr>p_type = 1, p_flags = 5, p_offset = 120, p_vaddr = 0x400000, p_filesz = 16, p_memsz = 0x1000, p_align = 0x1000\<rparr>"

lemma le_bytes_widths:
  "le_bytes 2 w = [ucast w, ucast (w div 256)]"
  "le_bytes 4 w = [ucast w, ucast (w div 256), ucast (w div 256 div 256), ucast (w div 256 div 256 div 256)]"
  "le_bytes 8 w = le_bytes 4 w @ le_bytes 4 (w div 256 div 256 div 256 div 256)"
  by (simp_all add: eval_nat_numeral)

lemma le_widths:
  "le 2 b i = ucast (b i) + 256 * ucast (b (i + 1))"
  "le 4 b i = ucast (b i) + 256 * (ucast (b (i + 1)) + 256 * (ucast (b (i + 2)) + 256 * ucast (b (i + 3))))"
  "le 8 b i = ucast (b i) + 256 * (ucast (b (i + 1)) + 256 * (ucast (b (i + 2)) + 256 * (ucast (b (i + 3)) + 256 *
     (ucast (b (i + 4)) + 256 * (ucast (b (i + 5)) + 256 * (ucast (b (i + 6)) + 256 * ucast (b (i + 7))))))))"
  by (simp_all add: eval_nat_numeral)

lemma builtin_bytes: "builtin_aegis_init_elf =
  [127, 69, 76, 70, 2, 1, 1, 0, 0, 0, 0, 0, 0, 0, 0, 0, 2, 0, 183, 0, 1, 0, 0, 0, 0, 0, 64, 0, 0, 0, 0, 0, 64, 0, 0, 0, 0, 0, 0, 0, 0, 0, 0, 0, 0, 0, 0, 0, 0, 0, 0, 0, 64, 0, 56, 0, 1, 0, 0, 0, 0, 0, 0, 0, 1, 0, 0, 0, 5, 0, 0, 0, 120, 0, 0, 0, 0, 0, 0, 0, 0, 0, 64, 0, 0, 0, 0, 0, 0, 0, 64, 0, 0, 0, 0, 0, 16, 0, 0, 0, 0, 0, 0, 0, 0, 16, 0, 0, 0, 0, 0, 0, 0, 16, 0, 0, 0, 0, 0, 0, 169, 55, 0, 0, 84, 55, 0, 0, 80, 84, 76, 68, 80, 69, 82, 77]"
  by (simp add: builtin_aegis_init_elf_def le_bytes_widths AEGIS_ELF_EM_AARCH64_def AEGIS_USER_TEXT_BASE_def SIZEOF_EHDR_def SIZEOF_PHDR_def PT_LOAD_def PF_R_def PF_X_def)

lemma builtin_ehdr: "read_ehdr (view_of builtin_aegis_init_elf) = \<lparr>e_ident = [0x7f, 0x45, 0x4c, 0x46, 2, 1, 1, 0, 0, 0, 0, 0, 0, 0, 0, 0], e_type = 2,
    e_machine = 183, e_version = 1, e_entry = 0x400000, e_phoff = 64, e_ehsize = 64, e_phentsize = 56, e_phnum = 1\<rparr>"
  by (simp add: read_ehdr_def view_of_def builtin_bytes le_widths upt_rec)

lemma builtin_phdrs: "read_phdrs (view_of builtin_aegis_init_elf) = [builtin_phdr]"
  unfolding read_phdrs_def builtin_ehdr by (simp add: read_phdr_def view_of_def builtin_bytes le_widths builtin_phdr_def)

lemma builtin_len: "length builtin_aegis_init_elf = 136"
  by (simp add: builtin_bytes)

lemma builtin_loads: "loads (read_phdrs (view_of builtin_aegis_init_elf)) = [builtin_phdr]"
  by (simp add: builtin_phdrs builtin_phdr_def PT_LOAD_def)

lemma min_top: "min (- 1) x = (x :: u64)"
  by (simp add: min_absorb2 word_order.extremum)

lemma builtin_span: "seg_start builtin_phdr = 0x400000" "seg_end builtin_phdr = 0x401000"
  by (simp_all add: seg_start_def seg_end_def page_floor_def builtin_phdr_def)

lemma builtin_wf: "elf_wf (view_of builtin_aegis_init_elf) 136" "image_no_wrap (view_of builtin_aegis_init_elf)"
proof -
  have "header_wf (view_of builtin_aegis_init_elf) 136"
    unfolding header_wf_def builtin_ehdr by (simp add: view_of_def builtin_bytes upt_rec)
  moreover have "segment_wf 136 builtin_phdr" "holds_entry 0x400000 builtin_phdr" "no_wrap builtin_phdr"
    by (simp_all add: segment_wf_def holds_entry_def no_wrap_def builtin_span) (simp_all add: builtin_phdr_def PF_W_def PF_X_def)
  ultimately show "elf_wf (view_of builtin_aegis_init_elf) 136" "image_no_wrap (view_of builtin_aegis_init_elf)"
    by (simp_all only: elf_wf_def image_no_wrap_def builtin_loads Let_def) (simp_all add: builtin_span builtin_ehdr AEGIS_ELF_RUNTIME_IMAGE_MAX_def)
qed

definition builtin_loaded :: "u64 \<Rightarrow> u64 \<Rightarrow> elf_image_info" where
  "builtin_loaded ib sb = zero_info\<lparr>ei_phnum := 1, ei_machine := 183, ei_type := 2, ei_entry := 0x400000, ei_path := ''/sbin/aegis-init'',
     ei_text_vaddr := 0x400000, ei_text_filesz := 16, ei_text_flags := 5, ei_load_segment_count := 1, ei_loadable := True, ei_validated := True,
     ei_text_pt_load_copied := True, ei_text_permissions_ready := True, ei_text_file_bytes_copied := 16, ei_text_zero_bytes := 4080,
     ei_runtime_image_base := ib, ei_runtime_image_size := 0x1000, ei_text_kernel_backing := ib, ei_text_memsz := 0x1000, ei_runtime_entry := ib,
     ei_runtime_stack_base := sb, ei_runtime_stack_size := AEGIS_USER_STACK_SIZE, ei_runtime_stack_top := (sb + AEGIS_USER_STACK_SIZE) AND NOT 0xF, ei_runtime_slot := 1\<rparr>"

lemma builtin_validates:
  "loader_initialised s \<Longrightarrow> elf_loader_validate_image (Some (view_of builtin_aegis_init_elf)) 136 (Some ''/sbin/aegis-init'') s =
    Inr (zero_info\<lparr>ei_phnum := 1, ei_machine := 183, ei_type := 2, ei_entry := 0x400000, ei_path := ''/sbin/aegis-init'',
      ei_text_vaddr := 0x400000, ei_text_filesz := 16, ei_text_memsz := 0x1000, ei_text_flags := 5, ei_runtime_image_size := 0x1000,
      ei_load_segment_count := 1, ei_loadable := True, ei_validated := True\<rparr>)"
proof -
  assume i: "loader_initialised s"
  have "validate_header (read_ehdr (view_of builtin_aegis_init_elf)) 136 = AEGIS_OK"
    using header_check [of 136 "view_of builtin_aegis_init_elf"] builtin_wf(1) by (simp add: elf_wf_def)
  moreover have "validate_segment 1 136 builtin_phdr = AEGIS_OK"
    using segment_check [of 0 136 builtin_phdr] builtin_wf(1) by (simp add: elf_wf_def Let_def builtin_loads del: set_filter)
  moreover have "range_contains (p_vaddr builtin_phdr) (p_memsz builtin_phdr) 0x400000" "p_flags builtin_phdr AND PF_X \<noteq> 0" "p_type builtin_phdr = PT_LOAD"
    "p_vaddr builtin_phdr = 0x400000" "p_filesz builtin_phdr = 16" "p_memsz builtin_phdr = 0x1000" "elf_flags_to_loader_flags (p_flags builtin_phdr) = 5"
    by (simp_all add: range_contains_def builtin_phdr_def PT_LOAD_def elf_consts elf_flags_to_loader_flags_def)
  ultimately show ?thesis using i
    by (simp add: elf_loader_validate_image_def SIZEOF_EHDR_def Let_def builtin_phdrs builtin_span min_top max_absorb2 AEGIS_ELF_RUNTIME_IMAGE_MAX_def AEGIS_ELF_PATH_MAX_def)
      (simp add: builtin_ehdr zero_info_def)
qed

lemma builtin_load:
  assumes "loader_initialised s" and "runtime_slots s = x # xs" and "\<not> sl_used x"
  shows "\<exists>sl. load_image_into_runtime ia sa (view_of builtin_aegis_init_elf) 136 (Some ''/sbin/aegis-init'') s =
      Some (Inr (builtin_loaded (ia 0) (sa 0)), s\<lparr>runtime_slots := sl # xs, pt_load_segments_copied := True, permissions_ready := True\<rparr>) \<and>
    sl_used sl \<and> sl_image_backing sl 0 = 0xa9 \<and> sl_image_backing sl 16 = 0"
proof -
  have sp: "load_span [builtin_phdr] = (0x400000, 0x401000)" by (simp add: load_span_def builtin_span min_top max_absorb2) (simp add: builtin_phdr_def PT_LOAD_def)
  have "segment_wf 136 builtin_phdr" using builtin_wf(1) by (simp add: elf_wf_def Let_def builtin_loads del: set_filter)
  then have f: "fits 136 0x400000 builtin_phdr" "loads [builtin_phdr] = [builtin_phdr]" by (simp_all add: fits_def) (simp_all add: builtin_phdr_def PT_LOAD_def)
  have c: "copy_segments (ia 0) (view_of builtin_aegis_init_elf) 136 0x400000 [builtin_phdr] c0 =
      Some (AEGIS_OK, copy_one (ia 0) (view_of builtin_aegis_init_elf) 0x400000 builtin_phdr c0)" for c0
    using copy_segments_fits [where phs = "[builtin_phdr]" and image_len = 136 and lo = "0x400000" and base = "ia 0" and b = "view_of builtin_aegis_init_elf" and c = c0] f(1) unfolding f(2) by (simp del: copy_segments.simps)
  have b: "view_of builtin_aegis_init_elf 120 = 0xa9" by (simp add: view_of_def builtin_bytes)
  define C where "C = copy_one (ia 0) (view_of builtin_aegis_init_elf) 0x400000 builtin_phdr \<lparr>cp_backing = (\<lambda>_. 0), cp_segments = [], cp_copied = 0, cp_zeroed = 0\<rparr>"
  have C: "cp_copied C = 16" "cp_zeroed C = 4080" "cp_backing C 0 = 0xa9" "cp_backing C 16 = 0"
    by (simp_all add: C_def copy_one_def covers_def builtin_phdr_def b)
  define sl where "sl = zero_slot\<lparr>sl_used := True, sl_image_backing := cp_backing C, sl_segments := cp_segments C, sl_info := builtin_loaded (ia 0) (sa 0)\<rparr>"
  have "load_image_into_runtime ia sa (view_of builtin_aegis_init_elf) 136 (Some ''/sbin/aegis-init'') s =
      Some (Inr (builtin_loaded (ia 0) (sa 0)), s\<lparr>runtime_slots := sl # xs, pt_load_segments_copied := True, permissions_ready := True\<rparr>)"
    using assms
    by (simp add: load_image_into_runtime_def builtin_validates runtime_slot_allocate_def copy_executable_pt_load_def builtin_phdrs sp c C_def [symmetric] Let_def
        AEGIS_ELF_RUNTIME_IMAGE_MAX_def del: copy_segments.simps) (simp add: C sl_def builtin_loaded_def zero_info_def)
  then show ?thesis using C by (intro exI [of _ sl]) (simp add: sl_def)
qed

section \<open>A concrete loader\<close>

definition demo_loader :: elf_loader where
  "demo_loader = \<lparr>runtime_slots = replicate AEGIS_ELF_RUNTIME_MAX zero_slot, builtin_info = zero_info, loader_initialised = False, builtin_ready = False,
     pt_load_segments_copied = False, permissions_ready = False, builtin_runtime_slot = 0\<rparr>"

definition demo_ia :: "nat \<Rightarrow> u64" where "demo_ia i = 0x1000000 + of_nat i * 0x80000"
definition demo_sa :: "nat \<Rightarrow> u64" where "demo_sa i = 0x1060000 + of_nat i * 0x80000"

lemma demo_addresses: "\<forall>i<AEGIS_ELF_RUNTIME_MAX. unat (demo_ia i) + 0x40000 < 2 ^ 64"
proof (intro allI impI)
  fix i assume "i < AEGIS_ELF_RUNTIME_MAX"
  then have "unat (of_nat i :: u64) = i" "i < 16" using unat_of_nat_small [where ?'a = 64, of i] by (simp_all add: AEGIS_ELF_RUNTIME_MAX_def)
  then have "unat (demo_ia i) = 0x1000000 + i * 0x80000" unfolding demo_ia_def by (simp add: unat_word_ariths)
  then show "unat (demo_ia i) + 0x40000 < 2 ^ 64" using \<open>i < 16\<close> by simp
qed

lemma demo_state: "length (runtime_slots demo_loader) = AEGIS_ELF_RUNTIME_MAX" "length (runtime_slots (elf_loader_init demo_loader)) = AEGIS_ELF_RUNTIME_MAX"
  "loader_initialised (elf_loader_init demo_loader)" "\<exists>sl\<in>set (runtime_slots (elf_loader_init demo_loader)). \<not> sl_used sl"
  by (simp_all add: demo_loader_def elf_loader_init_def AEGIS_ELF_RUNTIME_MAX_def)

section \<open>Properties\<close>

text \<open>
  C30. Validation decides well-formedness: an image is accepted exactly when its header is that of an executable ELF64 image for this machine whose
  program headers lie inside the file, every load segment is non-empty, lies inside the file, is not larger in the file than in memory, is not both
  writable and executable, an executable segment holds the entry point, and the page span of the segments fits a runtime slot.
\<close>

theorem elf_validate_iff_wf:
  "loader_initialised s \<Longrightarrow> (\<exists>info. elf_loader_validate_image (Some b) image_len path s = Inr info) \<longleftrightarrow> elf_wf b image_len"
  by (rule validate_iff)

lemma elf_validate_iff_wf_witness: "\<exists>info. elf_loader_validate_image (Some (view_of builtin_aegis_init_elf)) 136 None (elf_loader_init demo_loader) = Inr info"
  using elf_validate_iff_wf [OF demo_state(3)] builtin_wf(1) by blast






text \<open>
  C33. The built-in image starts the system: on a freshly initialised loader the built-in image loads into the first slot, both self tests of the
  loader pass, and the slot cannot be released any more.
\<close>

theorem builtin_image_boots:
  assumes "length (runtime_slots s) = AEGIS_ELF_RUNTIME_MAX" and "unat (ia 0) + 0x40000 < 2 ^ 64"
  shows "\<exists>info s'. elf_loader_load_builtin_aegis_init ia sa (elf_loader_init s) = Some (Inr info, s') \<and> elf_loader_selftest s' = AEGIS_OK \<and>
    elf_loader_pt_load_selftest ia sa s' = AEGIS_OK \<and> elf_loader_release_runtime_slot (ei_runtime_slot info) s' = (AEGIS_EPERM, s')"
proof -
  obtain x xs where x: "runtime_slots s = x # xs" using assms(1) by (cases "runtime_slots s") (auto simp: AEGIS_ELF_RUNTIME_MAX_def)
  let ?s = "elf_loader_init s"
  have "loader_initialised ?s" and "runtime_slots ?s = x\<lparr>sl_used := False, sl_info := zero_info\<rparr> # map (\<lambda>sl. sl\<lparr>sl_used := False, sl_info := zero_info\<rparr>) xs"
    by (simp_all add: elf_loader_init_def x)
  from builtin_load [OF this, of ia sa] obtain sl where
    sl: "sl_used sl" "sl_image_backing sl 0 = 0xa9" "sl_image_backing sl 16 = 0"
    and ll: "load_image_into_runtime ia sa (view_of builtin_aegis_init_elf) 136 (Some ''/sbin/aegis-init'') ?s = Some (Inr (builtin_loaded (ia 0) (sa 0)),
      ?s\<lparr>runtime_slots := sl # map (\<lambda>sl. sl\<lparr>sl_used := False, sl_info := zero_info\<rparr>) xs, pt_load_segments_copied := True, permissions_ready := True\<rparr>)"
    by auto
  define s' where "s' = ?s\<lparr>runtime_slots := sl # map (\<lambda>sl. sl\<lparr>sl_used := False, sl_info := zero_info\<rparr>) xs,
      pt_load_segments_copied := True, permissions_ready := True, builtin_info := builtin_loaded (ia 0) (sa 0), builtin_runtime_slot := 1, builtin_ready := True\<rparr>"
  have l: "elf_loader_load_builtin_aegis_init ia sa ?s = Some (Inr (builtin_loaded (ia 0) (sa 0)), s')"
    using ll \<open>loader_initialised ?s\<close> by (simp add: elf_loader_load_builtin_aegis_init_def bind_builtin_def builtin_len s'_def) (simp add: builtin_loaded_def)
  have "unat (ia 0 + 0x1000) = unat (ia 0) + 0x1000" using assms(2) by (subst unat_plus_small) auto
  then have "ia 0 < ia 0 + 0x1000" by (simp add: word_less_nat_alt)
  then have "elf_loader_selftest s' = AEGIS_OK \<and> elf_loader_pt_load_selftest ia sa s' = AEGIS_OK \<and> elf_loader_release_runtime_slot 1 s' = (AEGIS_EPERM, s')"
    using sl by (simp add: s'_def elf_loader_selftest_def elf_loader_pt_load_selftest_def elf_loader_release_runtime_slot_def runtime_slot_from_id_def
        elf_loader_init_def builtin_loaded_def zero_info_def AEGIS_ELF_EM_AARCH64_def AEGIS_USER_TEXT_BASE_def AEGIS_ELF_LOAD_EXEC_def AEGIS_ELF_LOAD_READ_def
        AEGIS_ELF_LOAD_WRITE_def AEGIS_ELF_RUNTIME_MAX_def Let_def not_le and.assoc)
  moreover have "ei_runtime_slot (builtin_loaded (ia 0) (sa 0)) = 1" by (simp add: builtin_loaded_def)
  ultimately show ?thesis using l by metis
qed

lemma builtin_image_boots_witness:
  "\<exists>info s'. elf_loader_load_builtin_aegis_init demo_ia demo_sa (elf_loader_init demo_loader) = Some (Inr info, s') \<and> elf_loader_selftest s' = AEGIS_OK"
  using builtin_image_boots [OF demo_state(1), of demo_ia demo_sa] demo_addresses by (auto simp: AEGIS_ELF_RUNTIME_MAX_def)

end
