(* ===== verification/Processes.thy ===== *)
theory Processes
  imports Scheduler Supervisor Fd_Table Elf_Loader
begin

text \<open>
  Processes (kernel/core/process.c): the process table over the heap, the scheduler, the descriptor table, the ELF loader, the userland
  registry and the service supervisor.

  A pointer to a process is an index of the table.  The calls of \<open>net_socket_close_all\<close> are collected as the list of their owners, the tick
  counter is a field, the address of the task trampoline and the reading of the supervisor clock are arguments, and None stands for a panic or for undefined behaviour
  of the heap.
\<close>

section \<open>Data\<close>

definition MAX_PROCESSES :: nat where "MAX_PROCESSES = 256"
definition PROC_STACK_SIZE :: u64 where "PROC_STACK_SIZE = 0x10000"

datatype proc_state = PROC_STATE_EMPTY | PROC_STATE_RUNNING | PROC_STATE_SLEEPING | PROC_STATE_ZOMBIE | PROC_STATE_STOPPED

text \<open>The \<open>cap_count\<close> first entries of \<open>cap_set\<close> are the list.\<close>

record process =
  pr_pid :: u32
  pr_ppid :: u32
  pr_state :: proc_state
  pr_exit_code :: int
  pr_start_time :: u64
  pr_cpu_time :: u64
  pr_entry :: u64
  pr_text_base :: u64
  pr_text_size :: u64
  pr_stack_base :: u64
  pr_stack_size :: u64
  pr_runtime_slot :: u32
  pr_owns_stack :: bool
  pr_task :: "u64 option"
  pr_caps :: "u64 list"
  pr_name :: string
  pr_uid :: u32
  pr_gid :: u32

record kernel =
  proc_table :: "process list"
  next_pid :: u32
  proc_table_cleanup_ready :: bool
  k_heap :: heap
  k_sched :: sched
  k_fds :: fd_table
  k_elf :: elf_loader
  k_user :: userland
  k_sup :: supervisor
  k_ticks :: u64
  k_sockets_closed :: "u32 list"

definition process_zero :: process where
  "process_zero = \<lparr>pr_pid = 0, pr_ppid = 0, pr_state = PROC_STATE_EMPTY, pr_exit_code = 0, pr_start_time = 0, pr_cpu_time = 0, pr_entry = 0,
     pr_text_base = 0, pr_text_size = 0, pr_stack_base = 0, pr_stack_size = 0, pr_runtime_slot = 0, pr_owns_stack = False, pr_task = None,
     pr_caps = [], pr_name = [], pr_uid = 0, pr_gid = 0\<rparr>"

section \<open>Creation\<close>

definition process_copy_name :: "string option \<Rightarrow> string" where
  "process_copy_name src = copy_bounded (TASK_NAME_MAX - 1) (case src of None \<Rightarrow> ''process'' | Some s \<Rightarrow> s)"

definition range_inside :: "u64 \<Rightarrow> u64 \<Rightarrow> u64 \<Rightarrow> u64 \<Rightarrow> bool" where
  "range_inside ptr len base siz =
     (if ptr = 0 \<or> len = 0 \<or> base = 0 \<or> siz = 0 then False
      else if ptr + len \<le> ptr \<or> base + siz \<le> base then False
      else base \<le> ptr \<and> ptr + len \<le> base + siz)"

definition process_init :: "kernel \<Rightarrow> kernel" where
  "process_init k = k\<lparr>proc_table := replicate MAX_PROCESSES process_zero, next_pid := 1, proc_table_cleanup_ready := False, k_fds := fd_table_init (k_fds k)\<rparr>"

definition proc_find_slot :: "kernel \<Rightarrow> nat option" where
  "proc_find_slot k = scan (\<lambda>p. pr_state p = PROC_STATE_EMPTY) (proc_table k)"

abbreviation set_proc :: "nat \<Rightarrow> process \<Rightarrow> kernel \<Rightarrow> kernel" where
  "set_proc i p k \<equiv> k\<lparr>proc_table := (proc_table k)[i := p]\<rparr>"

definition process_initialise_record :: "nat \<Rightarrow> string option \<Rightarrow> u32 \<Rightarrow> kernel \<Rightarrow> kernel" where
  "process_initialise_record i name ppid k =
     (set_proc i (process_zero\<lparr>pr_pid := next_pid k, pr_ppid := ppid, pr_state := PROC_STATE_RUNNING, pr_start_time := k_ticks k,
        pr_name := process_copy_name name\<rparr>) k)\<lparr>next_pid := next_pid k + 1\<rparr>"

definition process_create :: "string option \<Rightarrow> u64 \<Rightarrow> u32 \<Rightarrow> kernel \<Rightarrow> (nat option \<times> kernel) option" where
  "process_create name entry ppid k =
     (if name = None \<or> entry = 0 then Some (None, k)
      else case proc_find_slot k of
        None \<Rightarrow> Some (None, k)
      | Some i \<Rightarrow>
          let k1 = process_initialise_record i name ppid k;
              (stack, h1) = kmalloc PROC_STACK_SIZE (k_heap k1)
          in if stack = 0 then Some (None, set_proc i process_zero (k1\<lparr>k_heap := h1\<rparr>))
             else
               let p1 = (proc_table k1 ! i)\<lparr>pr_stack_base := stack, pr_stack_size := PROC_STACK_SIZE, pr_owns_stack := True\<rparr>
               in case task_create name entry 1 (h1, k_sched k1) of
                    None \<Rightarrow> None
                  | Some (Some t, h2, s2) \<Rightarrow> Some (Some i, set_proc i (p1\<lparr>pr_task := Some t\<rparr>) (k1\<lparr>k_heap := h2, k_sched := s2\<rparr>))
                  | Some (None, h2, s2) \<Rightarrow>
                      map_option (\<lambda>h3. (None, set_proc i process_zero (k1\<lparr>k_heap := h3, k_sched := s2\<rparr>))) (kfree stack h2))"

definition process_bind_current_user_image ::
  "string option \<Rightarrow> u64 \<Rightarrow> u64 \<Rightarrow> u64 \<Rightarrow> u64 \<Rightarrow> u64 \<Rightarrow> u32 \<Rightarrow> u32 \<Rightarrow> kernel \<Rightarrow> nat option \<times> kernel" where
  "process_bind_current_user_image name entry text_base text_size user_stack_base user_stack_size runtime_slot ppid k =
     (case scheduler_current (k_sched k) of
        None \<Rightarrow> (None, k)
      | Some current \<Rightarrow>
          if name = None \<or> entry = 0 \<or> text_base = 0 \<or> text_size = 0 \<or> user_stack_base = 0 \<or> user_stack_size = 0 \<or> runtime_slot = 0 then (None, k)
          else if list_ex (\<lambda>p. pr_state p \<noteq> PROC_STATE_EMPTY \<and> pr_task p = Some current) (proc_table k) then (None, k)
          else case proc_find_slot k of
            None \<Rightarrow> (None, k)
          | Some i \<Rightarrow>
              let k1 = process_initialise_record i name ppid k
              in (Some i, set_proc i ((proc_table k1 ! i)\<lparr>pr_entry := entry, pr_text_base := text_base, pr_text_size := text_size,
                    pr_stack_base := user_stack_base, pr_stack_size := user_stack_size, pr_runtime_slot := runtime_slot, pr_owns_stack := False,
                    pr_task := Some current\<rparr>) k1))"

definition process_bind_current_user :: "string option \<Rightarrow> u64 \<Rightarrow> u64 \<Rightarrow> u32 \<Rightarrow> kernel \<Rightarrow> nat option \<times> kernel" where
  "process_bind_current_user name user_stack_base user_stack_size ppid k =
     process_bind_current_user_image name 0 0 0 user_stack_base user_stack_size 0 ppid k"

text \<open>\<open>trampoline\<close> is the address of \<open>process_user_task_entry\<close>.\<close>

definition process_spawn_user_image ::
  "u64 \<Rightarrow> string option \<Rightarrow> u64 \<Rightarrow> u64 \<Rightarrow> u64 \<Rightarrow> u64 \<Rightarrow> u64 \<Rightarrow> u32 \<Rightarrow> u32 \<Rightarrow> kernel \<Rightarrow> (nat option \<times> kernel) option" where
  "process_spawn_user_image trampoline name entry text_base text_size user_stack_base user_stack_size runtime_slot ppid k =
     (if name = None \<or> entry = 0 \<or> text_base = 0 \<or> text_size = 0 \<or> user_stack_base = 0 \<or> user_stack_size = 0 \<or> runtime_slot = 0 then Some (None, k)
      else case proc_find_slot k of
        None \<Rightarrow> Some (None, k)
      | Some i \<Rightarrow>
          let k1 = process_initialise_record i name ppid k;
              p1 = (proc_table k1 ! i)\<lparr>pr_entry := entry, pr_text_base := text_base, pr_text_size := text_size,
                     pr_stack_base := user_stack_base, pr_stack_size := user_stack_size, pr_runtime_slot := runtime_slot, pr_owns_stack := False\<rparr>
          in case task_create name trampoline 25 (k_heap k1, k_sched k1) of
               None \<Rightarrow> None
             | Some (None, h2, s2) \<Rightarrow> Some (None, set_proc i process_zero (k1\<lparr>k_heap := h2, k_sched := s2\<rparr>))
             | Some (Some t, h2, s2) \<Rightarrow> Some (Some i, set_proc i (p1\<lparr>pr_task := Some t\<rparr>) (k1\<lparr>k_heap := h2, k_sched := s2\<rparr>)))"

section \<open>Queries\<close>

definition process_get :: "u32 \<Rightarrow> kernel \<Rightarrow> nat option" where
  "process_get pid k = scan (\<lambda>p. pr_pid p = pid \<and> pr_state p \<noteq> PROC_STATE_EMPTY) (proc_table k)"

definition process_current :: "kernel \<Rightarrow> nat option" where
  "process_current k =
     (case scheduler_current (k_sched k) of
        None \<Rightarrow> None
      | Some current \<Rightarrow> scan (\<lambda>p. pr_state p \<noteq> PROC_STATE_EMPTY \<and> pr_task p = Some current) (proc_table k))"

definition process_getpid :: "kernel \<Rightarrow> u32" where
  "process_getpid k = (case process_current k of None \<Rightarrow> 0 | Some i \<Rightarrow> pr_pid (proc_table k ! i))"

definition process_getppid :: "kernel \<Rightarrow> u32" where
  "process_getppid k = (case process_current k of None \<Rightarrow> 0 | Some i \<Rightarrow> pr_ppid (proc_table k ! i))"

definition process_pid :: "nat option \<Rightarrow> kernel \<Rightarrow> u32" where
  "process_pid proc k = (case proc of None \<Rightarrow> 0 | Some i \<Rightarrow> pr_pid (proc_table k ! i))"

definition process_parent_pid :: "nat option \<Rightarrow> kernel \<Rightarrow> u32" where
  "process_parent_pid proc k = (case proc of None \<Rightarrow> 0 | Some i \<Rightarrow> pr_ppid (proc_table k ! i))"

definition process_name :: "nat option \<Rightarrow> kernel \<Rightarrow> string option" where
  "process_name proc k = map_option (\<lambda>i. pr_name (proc_table k ! i)) proc"

definition process_current_name :: "kernel \<Rightarrow> string option" where
  "process_current_name k = process_name (process_current k) k"

text \<open>The entry and the stack pointer with which the trampoline enters user mode.\<close>

definition process_user_task_entry :: "kernel \<Rightarrow> (u64 \<times> u64) option" where
  "process_user_task_entry k =
     (case process_current k of
        None \<Rightarrow> None
      | Some i \<Rightarrow>
          let p = proc_table k ! i
          in if pr_entry p = 0 \<or> pr_stack_base p = 0 \<or> pr_stack_size p = 0 then None
             else Some (pr_entry p, (pr_stack_base p + pr_stack_size p) AND NOT 0xF))"

definition process_current_user_read_range_ok :: "u64 \<Rightarrow> u64 \<Rightarrow> kernel \<Rightarrow> bool" where
  "process_current_user_read_range_ok ptr len k =
     (case process_current k of
        None \<Rightarrow> False
      | Some i \<Rightarrow> let p = proc_table k ! i
          in elf_loader_slot_read_range_ok (pr_runtime_slot p) ptr len (k_elf k) \<or> range_inside ptr len (pr_stack_base p) (pr_stack_size p))"

definition process_current_user_write_range_ok :: "u64 \<Rightarrow> u64 \<Rightarrow> kernel \<Rightarrow> bool" where
  "process_current_user_write_range_ok ptr len k =
     (case process_current k of
        None \<Rightarrow> False
      | Some i \<Rightarrow> let p = proc_table k ! i
          in elf_loader_slot_write_range_ok (pr_runtime_slot p) ptr len (k_elf k) \<or> range_inside ptr len (pr_stack_base p) (pr_stack_size p))"

section \<open>Termination\<close>

definition destroy_task :: "u64 option \<Rightarrow> kernel \<Rightarrow> kernel option" where
  "destroy_task t k = map_option (\<lambda>(h, s). k\<lparr>k_heap := h, k_sched := s\<rparr>) (task_destroy t (k_heap k, k_sched k))"

text \<open>Closing the descriptors and the sockets of a process.\<close>

definition close_files :: "u32 \<Rightarrow> kernel \<Rightarrow> kernel" where
  "close_files pid k = k\<lparr>k_fds := fd_close_all pid (k_fds k), k_sockets_closed := k_sockets_closed k @ [pid]\<rparr>"

definition process_kill :: "u32 \<Rightarrow> int \<Rightarrow> kernel \<Rightarrow> (int \<times> kernel) option" where
  "process_kill pid signal k =
     (case process_get pid k of
        None \<Rightarrow> Some (AEGIS_ENOENT, k)
      | Some i \<Rightarrow>
          let p = proc_table k ! i
          in if signal = 9 \<or> signal = 15
             then map_option (\<lambda>k2. (AEGIS_OK, k2))
               (destroy_task (pr_task p) (close_files (pr_pid p) (set_proc i (p\<lparr>pr_state := PROC_STATE_ZOMBIE, pr_exit_code := - signal\<rparr>) k)))
             else if signal = 19 then Some (AEGIS_OK, set_proc i (p\<lparr>pr_state := PROC_STATE_STOPPED\<rparr>) k)
             else if signal = 18 \<and> pr_state p = PROC_STATE_STOPPED then Some (AEGIS_OK, set_proc i (p\<lparr>pr_state := PROC_STATE_RUNNING\<rparr>) k)
             else Some (AEGIS_OK, k))"

text \<open>
  The exit of the current process up to the hand-over: the result is the processor context and the kernel with which the next task runs.  The call itself
  does not return.
\<close>

definition process_exit :: "u64 \<Rightarrow> task_context \<Rightarrow> int \<Rightarrow> kernel \<Rightarrow> (task_context \<times> kernel) option" where
  "process_exit clock cpu code k =
     (case scheduler_current (k_sched k) of
        None \<Rightarrow> Some (cpu, k)
      | Some current \<Rightarrow>
          let r = (case scan (\<lambda>p. pr_task p = Some current) (proc_table k) of
                     None \<Rightarrow> Some k
                   | Some i \<Rightarrow>
                       let p = proc_table k ! i;
                           k1 = close_files (pr_pid p) (set_proc i (p\<lparr>pr_state := PROC_STATE_ZOMBIE, pr_exit_code := code\<rparr>) k);
                           k2 = k1\<lparr>k_sup := snd (service_supervisor_native_mark_exit (Some (pr_name p)) (pr_pid p) code clock (k_sup k1))\<rparr>
                       in map_option (\<lambda>k3. k3\<lparr>proc_table := map (\<lambda>q. if pr_ppid q = pr_pid p \<and> pr_state q \<noteq> PROC_STATE_EMPTY then q\<lparr>pr_ppid := 1\<rparr> else q) (proc_table k3)\<rparr>)
                            (destroy_task (Some current) k2))
          in case r of
               None \<Rightarrow> None
             | Some k4 \<Rightarrow> map_option (\<lambda>(c, s). (c, k4\<lparr>k_sched := s\<rparr>)) (scheduler_yield cpu (k_sched k4)))"

text \<open>The exit code of the child is the second component.\<close>

definition process_wait :: "u32 \<Rightarrow> kernel \<Rightarrow> (int \<times> int option \<times> kernel) option" where
  "process_wait pid k =
     (case process_get pid k of
        None \<Rightarrow> Some (AEGIS_ENOENT, None, k)
      | Some i \<Rightarrow>
          let child = proc_table k ! i
          in if process_getpid k \<noteq> 0 \<and> pr_ppid child \<noteq> process_getpid k then Some (AEGIS_EPERM, None, k)
             else if pr_state child \<noteq> PROC_STATE_ZOMBIE then Some (AEGIS_EBUSY, None, k)
             else case destroy_task (pr_task child) k of
               None \<Rightarrow> None
             | Some k1 \<Rightarrow>
                 (case (if pr_owns_stack child \<and> pr_stack_base child \<noteq> 0 then kfree (pr_stack_base child) (k_heap k1) else Some (k_heap k1)) of
                    None \<Rightarrow> None
                  | Some h \<Rightarrow>
                      let k2 = k1\<lparr>k_heap := h\<rparr>;
                          (release_rc, e) = (if pr_runtime_slot child \<noteq> 0 then elf_loader_release_runtime_slot (pr_runtime_slot child) (k_elf k2) else (AEGIS_OK, k_elf k2));
                          k3 = k2\<lparr>k_elf := e\<rparr>
                      in if release_rc \<noteq> AEGIS_OK then Some (release_rc, None, k3)
                         else
                           let (userland_rc, u) = userland_mark_feature_native_exited (Some (process_copy_name (Some (pr_name child)))) pid (pr_exit_code child) (k_user k3);
                               k4 = k3\<lparr>k_user := u\<rparr>
                           in if userland_rc \<noteq> AEGIS_OK \<and> userland_rc \<noteq> AEGIS_ENOENT then Some (userland_rc, None, k4)
                              else Some (AEGIS_OK, Some (pr_exit_code child), set_proc i process_zero k4)))"

text \<open>The pid and the exit code of the child that is reaped are the second component.\<close>

definition process_wait_any :: "u32 \<Rightarrow> kernel \<Rightarrow> (int \<times> (u32 \<times> int) option \<times> kernel) option" where
  "process_wait_any parent k =
     (let parent_pid = (if parent = 0 then process_getpid k else parent)
      in case scan (\<lambda>c. pr_state c = PROC_STATE_ZOMBIE \<and> pr_ppid c = parent_pid) (proc_table k) of
           None \<Rightarrow> Some (if list_ex (\<lambda>c. pr_state c \<noteq> PROC_STATE_EMPTY \<and> pr_ppid c = parent_pid) (proc_table k) then AEGIS_EAGAIN else AEGIS_ECHILD, None, k)
         | Some i \<Rightarrow>
             let pid = pr_pid (proc_table k ! i)
             in case process_wait pid k of
                  None \<Rightarrow> None
                | Some (rc, code, k1) \<Rightarrow> if rc \<noteq> AEGIS_OK then Some (rc, None, k1) else Some (AEGIS_OK, Some (pid, the code), k1))"

definition process_child_count :: "u32 \<Rightarrow> kernel \<Rightarrow> nat" where
  "process_child_count parent_pid k = length (filter (\<lambda>p. pr_state p \<noteq> PROC_STATE_EMPTY \<and> pr_ppid p = parent_pid) (proc_table k))"

fun terminate_from :: "nat list \<Rightarrow> u32 \<Rightarrow> int \<Rightarrow> int \<times> kernel \<Rightarrow> (int \<times> kernel) option" where
  "terminate_from [] keep_pid signal (err, k) = Some (err, k)"
| "terminate_from (i # is) keep_pid signal (err, k) =
     (let p = proc_table k ! i
      in if pr_state p = PROC_STATE_EMPTY \<or> pr_pid p = keep_pid then terminate_from is keep_pid signal (err, k)
         else case process_kill (pr_pid p) signal k of
                None \<Rightarrow> None
              | Some (rc, k1) \<Rightarrow> terminate_from is keep_pid signal (if rc \<noteq> AEGIS_OK \<and> err = AEGIS_OK then rc else err, k1))"

definition process_terminate_all_except :: "u32 \<Rightarrow> int \<Rightarrow> kernel \<Rightarrow> (int \<times> kernel) option" where
  "process_terminate_all_except keep_pid signal k = terminate_from [0..<MAX_PROCESSES] keep_pid signal (AEGIS_OK, k)"

section \<open>Capabilities\<close>

definition process_grant_cap :: "u32 \<Rightarrow> u64 \<Rightarrow> kernel \<Rightarrow> int \<times> kernel" where
  "process_grant_cap pid cap k =
     (case process_get pid k of
        None \<Rightarrow> (AEGIS_ENOENT, k)
      | Some i \<Rightarrow>
          let p = proc_table k ! i
          in if cap \<in> set (pr_caps p) then (AEGIS_OK, k)
             else if 16 \<le> length (pr_caps p) then (AEGIS_ENOMEM, k)
             else (AEGIS_OK, set_proc i (p\<lparr>pr_caps := pr_caps p @ [cap]\<rparr>) k))"

definition process_revoke_cap :: "u32 \<Rightarrow> u64 \<Rightarrow> kernel \<Rightarrow> int \<times> kernel" where
  "process_revoke_cap pid cap k =
     (case process_get pid k of
        None \<Rightarrow> (AEGIS_ENOENT, k)
      | Some i \<Rightarrow>
          let p = proc_table k ! i
          in case scan (\<lambda>c. c = cap) (pr_caps p) of
               None \<Rightarrow> (AEGIS_ENOENT, k)
             | Some j \<Rightarrow> (AEGIS_OK, set_proc i (p\<lparr>pr_caps := butlast ((pr_caps p)[j := last (pr_caps p)])\<rparr>) k))"

definition process_has_cap :: "u32 \<Rightarrow> u64 \<Rightarrow> kernel \<Rightarrow> bool" where
  "process_has_cap pid cap k = (case process_get pid k of None \<Rightarrow> False | Some i \<Rightarrow> cap \<in> set (pr_caps (proc_table k ! i)))"

section \<open>Statistics\<close>

record process_table_stats_t =
  pst_total_slots :: nat
  pst_used_slots :: nat
  pst_running :: nat
  pst_sleeping :: nat
  pst_zombie :: nat
  pst_stopped :: nat
  pst_next_pid :: u32
  pst_pid1_present :: bool
  pst_compact_ready :: bool

definition process_table_stats :: "kernel \<Rightarrow> process_table_stats_t" where
  "process_table_stats k =
     (let used = filter (\<lambda>p. pr_state p \<noteq> PROC_STATE_EMPTY) (proc_table k); count = (\<lambda>st. length (filter (\<lambda>p. pr_state p = st) used))
      in \<lparr>pst_total_slots = MAX_PROCESSES, pst_used_slots = length used, pst_running = count PROC_STATE_RUNNING, pst_sleeping = count PROC_STATE_SLEEPING,
          pst_zombie = count PROC_STATE_ZOMBIE, pst_stopped = count PROC_STATE_STOPPED, pst_next_pid = next_pid k,
          pst_pid1_present = list_ex (\<lambda>p. pr_pid p = 1) used, pst_compact_ready = proc_table_cleanup_ready k\<rparr>)"

fun pids_clean :: "u32 list \<Rightarrow> process list \<Rightarrow> bool" where
  "pids_clean seen [] = True"
| "pids_clean seen (p # ps) =
     (if pr_state p = PROC_STATE_EMPTY then pids_clean seen ps
      else if pr_pid p = 0 then False
      else if pr_pid p \<in> set seen then False
      else pids_clean (seen @ [pr_pid p]) ps)"

definition process_table_pid_order_is_clean :: "kernel \<Rightarrow> bool" where
  "process_table_pid_order_is_clean k = pids_clean [] (proc_table k)"

definition process_table_cleanup_prepare :: "kernel \<Rightarrow> int \<times> kernel" where
  "process_table_cleanup_prepare k =
     (let k1 = k\<lparr>proc_table := map (\<lambda>p. if pr_state p = PROC_STATE_EMPTY then process_zero else p) (proc_table k)\<rparr>
      in if \<not> process_table_pid_order_is_clean k1 then (AEGIS_EINVAL, k1) else (AEGIS_OK, k1\<lparr>proc_table_cleanup_ready := True\<rparr>))"

definition process_table_cleanup_selftest :: "kernel \<Rightarrow> int" where
  "process_table_cleanup_selftest k =
     (if \<not> proc_table_cleanup_ready k \<or> next_pid k = 0 \<or> \<not> process_table_pid_order_is_clean k then AEGIS_EINVAL
      else let st = process_table_stats k
           in first_fail [(pst_total_slots st < pst_used_slots st, AEGIS_EINVAL),
                (pst_running st + pst_sleeping st + pst_zombie st + pst_stopped st \<noteq> pst_used_slots st, AEGIS_EINVAL)])"

end
