(* ===== verification/Process_Proofs.thy ===== *)
theory Process_Proofs
  imports Processes Scheduler_Proofs
begin

text \<open>
  The process table: pids stay unique over every sequence of operations, a process that exits is reaped by its parent with its exit code and
  leaves no descriptor, task or image slot behind, and the capabilities of a process are a bounded set.
\<close>

section \<open>Live pids\<close>

definition live_of :: "process list \<Rightarrow> u32 option list" where
  "live_of = map (\<lambda>p. if pr_state p = PROC_STATE_EMPTY then None else Some (pr_pid p))"

definition pids_ok :: "u32 option list \<Rightarrow> u32 \<Rightarrow> bool" where
  "pids_ok xs n \<longleftrightarrow> length xs = MAX_PROCESSES \<and> (\<forall>i p. i < length xs \<longrightarrow> xs ! i = Some p \<longrightarrow> p \<noteq> 0 \<and> p < n) \<and>
     (\<forall>i j p. i < length xs \<longrightarrow> j < length xs \<longrightarrow> xs ! i = Some p \<longrightarrow> xs ! j = Some p \<longrightarrow> i = j)"

lemma pids_ok_None: "pids_ok xs n \<Longrightarrow> pids_ok (xs[i := None]) n"
  unfolding pids_ok_def by (simp add: nth_list_update_if)

lemma pids_ok_mono: "pids_ok xs n \<Longrightarrow> n \<le> m \<Longrightarrow> pids_ok xs m"
  unfolding pids_ok_def using order_less_le_trans by blast

lemma pids_ok_Some:
  assumes "pids_ok xs n" and "n \<noteq> 0" and "n < n + 1"
  shows "pids_ok (xs[i := Some n]) (n + 1)"
proof -
  have f: "xs ! j \<noteq> Some n" if "j < length xs" for j using assms(1) that order_less_irrefl unfolding pids_ok_def by metis
  have m: "pids_ok xs (n + 1)" using pids_ok_mono [OF assms(1)] assms(3) by (simp add: order_less_imp_le)
  have "p \<noteq> 0 \<and> p < n + 1" if "j < length xs" "(xs[i := Some n]) ! j = Some p" for j p
    using that m assms(2,3) unfolding pids_ok_def by (cases "j = i") auto
  moreover have "j = l" if "j < length xs" "l < length xs" "(xs[i := Some n]) ! j = Some p" "(xs[i := Some n]) ! l = Some p" for j l p
    using that m f unfolding pids_ok_def by (cases "j = i"; cases "l = i") auto
  ultimately show ?thesis using assms(1) unfolding pids_ok_def length_list_update by blast
qed

lemma live_length [simp]: "length (live_of ps) = length ps"
  by (simp add: live_of_def)

lemma live_set: "live_of (ps[i := p]) = (live_of ps)[i := (if pr_state p = PROC_STATE_EMPTY then None else Some (pr_pid p))]"
  by (simp add: live_of_def map_update)

lemma live_same:
  assumes "i < length ps" and "pr_pid p = pr_pid (ps ! i)" and "pr_state p = PROC_STATE_EMPTY \<longleftrightarrow> pr_state (ps ! i) = PROC_STATE_EMPTY"
  shows "live_of (ps[i := p]) = live_of ps"
  unfolding live_set using assms by (intro list_update_same_conv [THEN iffD2]) (auto simp: live_of_def)

lemma zero_empty [simp]: "pr_state process_zero = PROC_STATE_EMPTY"
  by (simp add: process_zero_def)

lemma live_zero: "live_of (ps[i := process_zero]) = (live_of ps)[i := None]"
  by (simp add: live_set process_zero_def)

lemma process_get_Some: "process_get pid k = Some i \<Longrightarrow> i < length (proc_table k) \<and> pr_pid (proc_table k ! i) = pid \<and> pr_state (proc_table k ! i) \<noteq> PROC_STATE_EMPTY"
  by (auto simp: process_get_def scan_Some_iff)

lemma destroy_table: "destroy_task t k = Some k' \<Longrightarrow> proc_table k' = proc_table k \<and> next_pid k' = next_pid k"
  by (auto simp: destroy_task_def)

lemma close_table [simp]: "proc_table (close_files pid k) = proc_table k" "next_pid (close_files pid k) = next_pid k"
  by (simp_all add: close_files_def)

text \<open>The effect of an operation on the pids: nothing, a slot is emptied, or a slot gets the next pid.\<close>

inductive pid_step :: "u32 option list \<times> u32 \<Rightarrow> u32 option list \<times> u32 \<Rightarrow> bool" where
  pid_keep: "pid_step (xs, n) (xs, n)"
| pid_clear: "pid_step (xs, n) (xs[i := None], n)"
| pid_burn: "pid_step (xs, n) (xs[i := None], n + 1)"
| pid_new: "pid_step (xs, n) (xs[i := Some n], n + 1)"

lemma pid_step_ok:
  assumes "pid_step a b" and "pids_ok (fst a) (snd a)" and "snd a \<noteq> 0" and "snd a < snd a + 1"
  shows "pids_ok (fst b) (snd b) \<and> snd b \<noteq> 0"
  using assms
proof (induction rule: pid_step.induct)
  case (pid_burn xs n i)
  then show ?case using pids_ok_mono [OF pids_ok_None, of xs n "n + 1"] by auto
next
  case (pid_new xs n i)
  then show ?case using pids_ok_Some by auto
qed (auto intro: pids_ok_None)

abbreviation pid_view :: "kernel \<Rightarrow> u32 option list \<times> u32" where
  "pid_view k \<equiv> (live_of (proc_table k), next_pid k)"

lemma kill_view: "process_kill pid sig k = Some (rc, k') \<Longrightarrow> pid_view k' = pid_view k"
  by (auto simp: process_kill_def Let_def live_same dest!: destroy_table process_get_Some split: option.splits if_splits)

lemma terminate_view: "terminate_from is keep sig (e, k) = Some (rc, k') \<Longrightarrow> pid_view k' = pid_view k"
proof (induction "is" keep sig "(e, k)" arbitrary: e k rule: terminate_from.induct)
  case (2 i "is" keep sig err k)
  then show ?case by (auto simp: Let_def dest!: kill_view split: if_splits option.splits)
qed simp

lemma wait_view: "process_wait pid k = Some (rc, c, k') \<Longrightarrow> pid_step (pid_view k) (pid_view k')"
  by (auto simp: process_wait_def Let_def live_zero intro: pid_step.intros dest!: destroy_table split: option.splits if_splits prod.splits)

lemma wait_any_view: "process_wait_any pid k = Some (rc, c, k') \<Longrightarrow> pid_step (pid_view k) (pid_view k')"
  by (auto simp: process_wait_any_def Let_def intro: pid_keep dest!: wait_view split: option.splits if_splits)

lemma live_reparent: "live_of (map (\<lambda>q. if P q then q\<lparr>pr_ppid := x\<rparr> else q) ps) = live_of ps"
  by (simp add: live_of_def)

text \<open>A free slot has no task.\<close>

definition empties_idle :: "process list \<Rightarrow> bool" where
  "empties_idle ps \<longleftrightarrow> (\<forall>p\<in>set ps. pr_state p = PROC_STATE_EMPTY \<longrightarrow> pr_task p = None)"

lemma idle_update: "empties_idle ps \<Longrightarrow> (pr_state p = PROC_STATE_EMPTY \<Longrightarrow> pr_task p = None) \<Longrightarrow> empties_idle (ps[i := p])"
  unfolding empties_idle_def using set_update_subset_insert by fastforce

lemma idle_zero [simp]: "empties_idle ps \<Longrightarrow> empties_idle (ps[i := process_zero])"
  by (rule idle_update) (simp_all add: process_zero_def)

lemma idle_reparent [simp]: "empties_idle ps \<Longrightarrow> empties_idle (map (\<lambda>q. if P q then q\<lparr>pr_ppid := x\<rparr> else q) ps)"
  by (auto simp: empties_idle_def)

lemma exit_view:
  assumes "process_exit clock cpu code k = Some (c, k')" and "empties_idle (proc_table k)"
  shows "pid_view k' = pid_view k"
proof (cases "scheduler_current (k_sched k)")
  case None
  then show ?thesis using assms by (simp add: process_exit_def)
next
  case (Some a)
  show ?thesis
  proof (cases "scan (\<lambda>p. pr_task p = Some a) (proc_table k)")
    case None
    then show ?thesis using assms(1) Some by (auto simp: process_exit_def Let_def simp del: scan_None_iff)
  next
    case i: (Some i)
    then have "i < length (proc_table k)" "pr_state (proc_table k ! i) \<noteq> PROC_STATE_EMPTY" using assms(2) by (auto simp: scan_Some_iff empties_idle_def)
    then show ?thesis using assms(1) Some i
      by (auto simp: process_exit_def Let_def live_reparent live_same dest!: destroy_table split: option.splits)
  qed
qed

lemma init_record_view: "pid_view (process_initialise_record i name ppid k) = ((live_of (proc_table k))[i := Some (next_pid k)], next_pid k + 1)"
  by (simp add: process_initialise_record_def live_set)

lemma burn: "pid_step (xs, n) ((xs[i := Some n])[i := None], n + 1)"
  using pid_burn [of xs n i] by simp

lemma spawn_view:
  assumes "process_spawn_user_image tr name en tb ts sb ss slot ppid k = Some (r, k')"
  shows "pid_step (pid_view k) (pid_view k')"
proof (cases "name = None \<or> en = 0 \<or> tb = 0 \<or> ts = 0 \<or> sb = 0 \<or> ss = 0 \<or> slot = 0 \<or> proc_find_slot k = None")
  case True
  then show ?thesis using assms by (auto simp: process_spawn_user_image_def intro: pid_keep split: if_splits)
next
  case False
  then obtain i where "proc_find_slot k = Some i" by auto
  then show ?thesis using assms False pid_new [of "live_of (proc_table k)" "next_pid k" i] burn [of "live_of (proc_table k)" "next_pid k" i]
    by (auto simp: process_spawn_user_image_def process_initialise_record_def Let_def live_set live_zero nth_list_update_if list_update_beyond
        split: option.splits if_splits prod.splits)
qed

lemma create_view:
  assumes "process_create name en ppid k = Some (r, k')"
  shows "pid_step (pid_view k) (pid_view k')"
proof (cases "name = None \<or> en = 0 \<or> proc_find_slot k = None")
  case True
  then show ?thesis using assms by (auto simp: process_create_def intro: pid_keep split: if_splits)
next
  case False
  then obtain i where "proc_find_slot k = Some i" by auto
  then show ?thesis using assms False pid_new [of "live_of (proc_table k)" "next_pid k" i] burn [of "live_of (proc_table k)" "next_pid k" i]
    by (auto simp: process_create_def process_initialise_record_def Let_def live_set live_zero nth_list_update_if list_update_beyond
        split: option.splits if_splits prod.splits)
qed

lemma bind_view:
  assumes "process_bind_current_user_image name en tb ts sb ss slot ppid k = (r, k')"
  shows "pid_step (pid_view k) (pid_view k')"
proof (cases "proc_find_slot k")
  case None
  then show ?thesis using assms by (auto simp: process_bind_current_user_image_def intro: pid_keep split: option.splits if_splits)
next
  case (Some i)
  then show ?thesis using assms pid_new [of "live_of (proc_table k)" "next_pid k" i]
    by (auto simp: process_bind_current_user_image_def process_initialise_record_def Let_def live_set nth_list_update_if list_update_beyond
        intro: pid_keep split: option.splits if_splits)
qed

lemma kill_idle: "process_kill pid sig k = Some (rc, k') \<Longrightarrow> empties_idle (proc_table k) \<Longrightarrow> empties_idle (proc_table k')"
  by (auto simp: process_kill_def Let_def dest!: destroy_table process_get_Some intro!: idle_update split: option.splits if_splits)

lemma terminate_idle: "terminate_from is keep sig (e, k) = Some (rc, k') \<Longrightarrow> empties_idle (proc_table k) \<Longrightarrow> empties_idle (proc_table k')"
proof (induction "is" keep sig "(e, k)" arbitrary: e k rule: terminate_from.induct)
  case (2 i "is" keep sig err k)
  then show ?case by (auto simp: Let_def dest: kill_idle split: if_splits option.splits)
qed simp

lemma wait_idle: "process_wait pid k = Some (rc, c, k') \<Longrightarrow> empties_idle (proc_table k) \<Longrightarrow> empties_idle (proc_table k')"
  by (auto simp: process_wait_def Let_def dest!: destroy_table split: option.splits if_splits prod.splits)

lemma wait_any_idle: "process_wait_any pid k = Some (rc, c, k') \<Longrightarrow> empties_idle (proc_table k) \<Longrightarrow> empties_idle (proc_table k')"
  by (auto simp: process_wait_any_def Let_def dest: wait_idle split: option.splits if_splits)

lemma exit_idle: "process_exit clock cpu code k = Some (c, k') \<Longrightarrow> empties_idle (proc_table k) \<Longrightarrow> empties_idle (proc_table k')"
  by (auto simp: process_exit_def Let_def dest!: destroy_table intro!: idle_update idle_reparent split: option.splits)

lemma record_idle: "empties_idle (proc_table k) \<Longrightarrow> empties_idle (proc_table (process_initialise_record i name ppid k))"
  by (auto simp: process_initialise_record_def intro!: idle_update)

lemma create_idle: "process_create name en ppid k = Some (r, k') \<Longrightarrow> empties_idle (proc_table k) \<Longrightarrow> empties_idle (proc_table k')"
  using record_idle [of k]
  by (auto simp: process_create_def Let_def scan_Some_iff proc_find_slot_def process_initialise_record_def nth_list_update_if intro!: idle_update
      split: option.splits if_splits prod.splits)

lemma spawn_idle: "process_spawn_user_image tr name en tb ts sb ss slot ppid k = Some (r, k') \<Longrightarrow> empties_idle (proc_table k) \<Longrightarrow> empties_idle (proc_table k')"
  by (auto simp: process_spawn_user_image_def Let_def scan_Some_iff proc_find_slot_def process_initialise_record_def nth_list_update_if intro!: idle_update
      split: option.splits if_splits prod.splits)

lemma bind_idle: "process_bind_current_user_image name en tb ts sb ss slot ppid k = (r, k') \<Longrightarrow> empties_idle (proc_table k) \<Longrightarrow> empties_idle (proc_table k')"
  by (auto simp: process_bind_current_user_image_def Let_def scan_Some_iff proc_find_slot_def process_initialise_record_def nth_list_update_if intro!: idle_update
      split: option.splits if_splits prod.splits)

section \<open>Operations in sequence\<close>

inductive proc_step :: "kernel \<Rightarrow> kernel \<Rightarrow> bool" where
  step_create: "process_create name en ppid k = Some (r, k') \<Longrightarrow> proc_step k k'"
| step_bind: "process_bind_current_user_image name en tb ts sb ss slot ppid k = (r, k') \<Longrightarrow> proc_step k k'"
| step_spawn: "process_spawn_user_image tr name en tb ts sb ss slot ppid k = Some (r, k') \<Longrightarrow> proc_step k k'"
| step_kill: "process_kill pid sig k = Some (rc, k') \<Longrightarrow> proc_step k k'"
| step_terminate: "process_terminate_all_except keep sig k = Some (rc, k') \<Longrightarrow> proc_step k k'"
| step_exit: "process_exit clock cpu code k = Some (c, k') \<Longrightarrow> proc_step k k'"
| step_wait: "process_wait pid k = Some (rc, code', k') \<Longrightarrow> proc_step k k'"
| step_wait_any: "process_wait_any pid k = Some (rc, pc, k') \<Longrightarrow> proc_step k k'"
| step_other: "proc_table k' = proc_table k \<Longrightarrow> next_pid k' = next_pid k \<Longrightarrow> proc_step k k'"

text \<open>Sequences of operations during which the pid counter does not wrap.\<close>

inductive proc_reach :: "kernel \<Rightarrow> bool" where
  reach_init: "proc_reach (process_init k)"
| reach_step: "proc_reach k \<Longrightarrow> next_pid k < next_pid k + 1 \<Longrightarrow> proc_step k k' \<Longrightarrow> proc_reach k'"

definition procs_ok :: "kernel \<Rightarrow> bool" where
  "procs_ok k \<longleftrightarrow> pids_ok (live_of (proc_table k)) (next_pid k) \<and> next_pid k \<noteq> 0 \<and> empties_idle (proc_table k)"

lemma proc_step_view:
  assumes "proc_step k k'" and "empties_idle (proc_table k)"
  shows "pid_step (pid_view k) (pid_view k') \<and> empties_idle (proc_table k')"
  using assms
proof (induction rule: proc_step.induct)
  case (step_kill pid sig k rc k')
  then show ?case using kill_view kill_idle by (metis pid_keep)
next
  case (step_terminate keep sig k rc k')
  then show ?case unfolding process_terminate_all_except_def using terminate_view terminate_idle by (metis pid_keep)
next
  case (step_exit clock cpu code k c k')
  then show ?case using exit_view exit_idle by (metis pid_keep)
next
  case (step_other k' k)
  then show ?case by (simp add: pid_keep)
qed (blast intro: create_view create_idle bind_view bind_idle spawn_view spawn_idle wait_view wait_idle wait_any_view wait_any_idle)+

lemma init_ok: "procs_ok (process_init k)"
  by (auto simp: procs_ok_def process_init_def pids_ok_def live_of_def empties_idle_def process_zero_def MAX_PROCESSES_def)

lemma proc_reach_ok: "proc_reach k \<Longrightarrow> procs_ok k"
proof (induction rule: proc_reach.induct)
  case (reach_init k)
  show ?case by (rule init_ok)
next
  case (reach_step k k')
  then show ?case using proc_step_view [of k k'] pid_step_ok [of "pid_view k" "pid_view k'"] by (simp add: procs_ok_def)
qed

lemma pids_clean_distinct: "pids_clean seen ps \<longleftrightarrow> (let l = map pr_pid (filter (\<lambda>p. pr_state p \<noteq> PROC_STATE_EMPTY) ps) in 0 \<notin> set l \<and> distinct l \<and> set l \<inter> set seen = {})"
  by (induction ps arbitrary: seen) (auto simp: Let_def)

lemma live_filter: "map Some (map pr_pid (filter (\<lambda>p. pr_state p \<noteq> PROC_STATE_EMPTY) ps)) = filter (\<lambda>x. x \<noteq> None) (live_of ps)"
  by (induction ps) (auto simp: live_of_def)

lemma filter_distinct: "(\<And>i j. i < length xs \<Longrightarrow> j < length xs \<Longrightarrow> P (xs ! i) \<Longrightarrow> xs ! i = xs ! j \<Longrightarrow> i = j) \<Longrightarrow> distinct (filter P xs)"
proof (induction xs)
  case (Cons x xs)
  have "distinct (filter P xs)"
  proof (rule Cons.IH)
    fix i j assume "i < length xs" "j < length xs" "P (xs ! i)" "xs ! i = xs ! j"
    then show "i = j" using Cons.prems [of "Suc i" "Suc j"] by simp
  qed
  moreover have "x \<notin> set xs" if "P x"
    using Cons.prems [of 0] that by (force simp: in_set_conv_nth)
  ultimately show ?case by simp
qed simp

lemma procs_ok_clean: "procs_ok k \<Longrightarrow> process_table_pid_order_is_clean k"
proof -
  assume ok: "procs_ok k"
  let ?xs = "live_of (proc_table k)" and ?l = "map pr_pid (filter (\<lambda>p. pr_state p \<noteq> PROC_STATE_EMPTY) (proc_table k))"
  have "distinct (filter (\<lambda>x. x \<noteq> None) ?xs)" using ok by (intro filter_distinct) (auto simp: procs_ok_def pids_ok_def)
  then have "distinct (map Some ?l)" unfolding live_filter .
  moreover have "Some 0 \<notin> set ?xs" using ok unfolding procs_ok_def pids_ok_def by (metis in_set_conv_nth)
  then have "Some 0 \<notin> set (map Some ?l)" unfolding live_filter by simp
  ultimately have "distinct ?l" "0 \<notin> set ?l" using distinct_map [of Some ?l] by (blast, auto)
  then show ?thesis by (simp add: process_table_pid_order_is_clean_def pids_clean_distinct Let_def)
qed

section \<open>Exit and wait\<close>

lemma process_get_unique:
  assumes "procs_ok k" and "i < length (proc_table k)" and "pr_state (proc_table k ! i) \<noteq> PROC_STATE_EMPTY"
  shows "process_get (pr_pid (proc_table k ! i)) k = Some i"
proof -
  have u: "j = i" if "j < length (proc_table k)" "pr_state (proc_table k ! j) \<noteq> PROC_STATE_EMPTY" "pr_pid (proc_table k ! j) = pr_pid (proc_table k ! i)" for j
  proof -
    have "live_of (proc_table k) ! j = Some (pr_pid (proc_table k ! i))" "live_of (proc_table k) ! i = Some (pr_pid (proc_table k ! i))"
      using that assms(2,3) by (simp_all add: live_of_def)
    then show ?thesis using assms(1,2) that(1) unfolding procs_ok_def pids_ok_def live_length by metis
  qed
  have "\<not> (pr_pid (proc_table k ! j) = pr_pid (proc_table k ! i) \<and> pr_state (proc_table k ! j) \<noteq> PROC_STATE_EMPTY)" if "j < i" for j
    using u [of j] that assms(2) by auto
  then show ?thesis unfolding process_get_def scan_Some_iff using assms(2,3) by blast
qed

lemma yield_leaves_dead:
  assumes "sched_ok s" and "current_task s = Some a" and "\<forall>t\<in>set (task_list s). t_addr t = a \<longrightarrow> t_state t = TASK_DEAD" and "scheduler_yield cpu s = Some (c, s')"
  shows "current_task s' \<noteq> Some a"
proof -
  obtain i where i: "task_at a (task_list s) = Some i" using assms(1,2) task_at_exists [of a "task_list s"] by (auto simp: sched_ok_def)
  have n: "i < length (task_list s)" "t_addr (task_list s ! i) = a" using task_at_nth [OF i] by auto
  then have dead: "t_state (task_list s ! i) = TASK_DEAD" and ne: "task_list s \<noteq> []" using assms(3) nth_mem by (blast, auto)
  then obtain t where t: "next_ready (idle_task s) (ring_after i (task_list s)) = Some t" "current_task s' = Some (t_addr t)"
    using assms(2,4) i by (auto simp: scheduler_yield_def context_switch_def split: option.splits)
  have "t_state t = TASK_READY" "t \<in> set (task_list s)" using next_ready_mem [OF t(1)] ring_set [OF n(1)] by auto
  then show ?thesis using assms(3) t(2) by auto
qed

lemma destroy_removes:
  assumes "sched_ok s" and "current_task s \<noteq> Some a" and "task_destroy (Some a) (h, s) = Some (h', s')"
  shows "a \<notin> t_addr ` set (task_list s')"
proof (cases "task_at a (task_list s)")
  case None
  then have "task_destroy (Some a) (h, s) = Some (h, s)" using assms(2) by (simp add: task_destroy_def)
  then show ?thesis using assms(3) None by (auto simp: task_at_def)
next
  case (Some i)
  then have n: "i < length (task_list s)" "t_addr (task_list s ! i) = a" using task_at_nth by auto
  have s': "task_list s' = take i (task_list s) @ drop (Suc i) (task_list s)"
    using assms(2,3) Some by (auto simp: task_destroy_def Let_def split: Option.bind_splits if_splits)
  have "distinct (map t_addr (take i (task_list s) @ task_list s ! i # drop (Suc i) (task_list s)))"
    using assms(1) n(1) by (simp add: sched_ok_def id_take_nth_drop [symmetric])
  then show ?thesis unfolding s' using n(2) by auto
qed

text \<open>What the exit of the current process leaves for its parent.\<close>

lemma exit_effect:
  assumes "procs_ok k" and "sched_inv lo hi (k_heap k, k_sched k)" and "process_current k = Some i" and "process_exit clock cpu code k = Some (c, k1)"
    and "pr_ppid (proc_table k ! i) \<noteq> pr_pid (proc_table k ! i)"
  shows "i < length (proc_table k1)" and "procs_ok k1" and "sched_inv lo hi (k_heap k1, k_sched k1)" and "current_task (k_sched k1) \<noteq> pr_task (proc_table k ! i)"
    and "proc_table k1 ! i = (proc_table k ! i)\<lparr>pr_state := PROC_STATE_ZOMBIE, pr_exit_code := code\<rparr>"
    and "k_elf k1 = k_elf k" and "k_user k1 = k_user k" and "k_fds k1 = fd_close_all (pr_pid (proc_table k ! i)) (k_fds k)"
proof -
  let ?p = "proc_table k ! i"
  obtain a where a: "current_task (k_sched k) = Some a" "scan (\<lambda>p. pr_state p \<noteq> PROC_STATE_EMPTY \<and> pr_task p = Some a) (proc_table k) = Some i"
    using assms(3) by (auto simp: process_current_def scheduler_current_def split: option.splits)
  have p: "i < length (proc_table k)" "pr_state ?p \<noteq> PROC_STATE_EMPTY" "pr_task ?p = Some a" using a(2) by (auto simp: scan_Some_iff)
  have sc: "scan (\<lambda>p. pr_task p = Some a) (proc_table k) = Some i"
    using a(2) p assms(1) unfolding scan_Some_iff procs_ok_def empties_idle_def by (metis nth_mem option.distinct(1) order_less_trans)
  define s1 where "s1 = (k_sched k)\<lparr>task_list := update_task a (\<lambda>t. t\<lparr>t_state := TASK_DEAD\<rparr>) (task_list (k_sched k))\<rparr>"
  have d: "task_destroy (Some a) (k_heap k, k_sched k) = Some (k_heap k, s1)" using a(1) by (simp add: task_destroy_def s1_def)
  obtain s2 where y: "scheduler_yield cpu s1 = Some (c, s2)" and k1: "k1 = (close_files (pr_pid ?p) k)\<lparr>
      proc_table := map (\<lambda>q. if pr_ppid q = pr_pid ?p \<and> pr_state q \<noteq> PROC_STATE_EMPTY then q\<lparr>pr_ppid := 1\<rparr> else q)
        ((proc_table k)[i := ?p\<lparr>pr_state := PROC_STATE_ZOMBIE, pr_exit_code := code\<rparr>]),
      k_sup := snd (service_supervisor_native_mark_exit (Some (pr_name ?p)) (pr_pid ?p) code clock (k_sup k)), k_sched := s2\<rparr>"
    using assms(4) a(1) sc d
    by (auto simp: process_exit_def scheduler_current_def Let_def destroy_task_def close_files_def split: option.splits)
  have i1: "sched_inv lo hi (k_heap k, s1)" using sched_inv_step [OF step_destroy [OF d]] assms(2) by blast
  show "sched_inv lo hi (k_heap k1, k_sched k1)" using sched_inv_step [OF step_yield [OF y]] i1 k1 by (simp add: close_files_def)
  have "\<forall>t\<in>set (task_list s1). t_addr t = a \<longrightarrow> t_state t = TASK_DEAD" by (auto simp: s1_def dest!: update_task_mem)
  moreover have "sched_ok s1" "current_task s1 = Some a" using i1 a(1) by (simp_all add: sched_inv_def s1_def)
  ultimately have "current_task s2 \<noteq> Some a" using yield_leaves_dead y by blast
  then show "current_task (k_sched k1) \<noteq> pr_task ?p" using k1 p(3) by simp
  show "i < length (proc_table k1)" "k_elf k1 = k_elf k" "k_user k1 = k_user k" "k_fds k1 = fd_close_all (pr_pid ?p) (k_fds k)"
    using k1 p(1) by (simp_all add: close_files_def)
  show "proc_table k1 ! i = ?p\<lparr>pr_state := PROC_STATE_ZOMBIE, pr_exit_code := code\<rparr>" using k1 p(1) assms(5) by simp
  show "procs_ok k1"
    using exit_view [OF assms(4)] exit_idle [OF assms(4)] assms(1) by (simp add: procs_ok_def)
qed

lemma release_slot:
  assumes "loader_initialised e" and "sl \<noteq> 0" and "unat sl \<le> AEGIS_ELF_RUNTIME_MAX" and "sl \<noteq> builtin_runtime_slot e" and "sl_used (runtime_slots e ! (unat sl - 1))"
    and "length (runtime_slots e) = AEGIS_ELF_RUNTIME_MAX"
  shows "\<exists>e'. elf_loader_release_runtime_slot sl e = (AEGIS_OK, e') \<and> \<not> sl_used (runtime_slots e' ! (unat sl - 1))"
proof -
  have "unat sl - 1 < AEGIS_ELF_RUNTIME_MAX" using assms(2,3) unat_gt_0 [of sl] by simp
  then show ?thesis using assms by (simp add: elf_loader_release_runtime_slot_def Let_def zero_slot_def)
qed

section \<open>Capabilities\<close>

definition caps_of :: "kernel \<Rightarrow> u32 \<Rightarrow> u64 set option" where
  "caps_of k pid = map_option (\<lambda>i. set (pr_caps (proc_table k ! i))) (process_get pid k)"

definition caps_ok :: "kernel \<Rightarrow> bool" where
  "caps_ok k \<longleftrightarrow> (\<forall>p\<in>set (proc_table k). distinct (pr_caps p) \<and> length (pr_caps p) \<le> 16)"

lemma scan_nth_cong: "length xs = length ys \<Longrightarrow> (\<And>i. i < length xs \<Longrightarrow> P (xs ! i) = P (ys ! i)) \<Longrightarrow> scan P xs = scan P ys"
proof -
  assume a: "length xs = length ys" "\<And>i. i < length xs \<Longrightarrow> P (xs ! i) = P (ys ! i)"
  then have "scan P xs = Some j \<longleftrightarrow> scan P ys = Some j" for j unfolding scan_Some_iff by (metis order_less_trans)
  then show ?thesis by (metis option.exhaust)
qed

lemma get_caps_update: "process_get pid (k\<lparr>proc_table := (proc_table k)[i := (proc_table k ! i)\<lparr>pr_caps := cs\<rparr>]\<rparr>) = process_get pid k"
  unfolding process_get_def by (rule scan_nth_cong) (simp_all add: nth_list_update_if)

lemma caps_update:
  assumes "process_get pid k = Some i"
  shows "caps_of (k\<lparr>proc_table := (proc_table k)[i := (proc_table k ! i)\<lparr>pr_caps := cs\<rparr>]\<rparr>) = (caps_of k)(pid := Some (set cs))"
proof
  fix q
  have i: "i < length (proc_table k)" "pr_pid (proc_table k ! i) = pid" using process_get_Some [OF assms] by auto
  have "process_get q k = Some i \<longleftrightarrow> q = pid" using assms process_get_Some [of q k i] i by auto
  then show "caps_of (k\<lparr>proc_table := (proc_table k)[i := (proc_table k ! i)\<lparr>pr_caps := cs\<rparr>]\<rparr>) q = ((caps_of k)(pid := Some (set cs))) q"
    using assms i unfolding caps_of_def get_caps_update by (cases "process_get q k") (auto simp: nth_list_update)
qed

lemma revoke_set: "distinct xs \<Longrightarrow> j < length xs \<Longrightarrow> set (butlast (xs[j := last xs])) = set xs - {xs ! j} \<and> distinct (butlast (xs[j := last xs]))"
proof (induction xs rule: rev_induct)
  case (snoc x xs)
  show ?case
  proof (cases "j = length xs")
    case True
    then show ?thesis using snoc.prems by simp
  next
    case False
    then have j: "j < length xs" using snoc.prems by simp
    have d: "distinct xs" "x \<notin> set xs" "x \<noteq> xs ! j" using snoc.prems(1) j nth_mem by fastforce+
    have "butlast ((xs @ [x])[j := last (xs @ [x])]) = xs[j := x]" using j by (simp add: list_update_append)
    moreover have "set (xs[j := x]) = insert x (set xs - {xs ! j})" using d(1) j by (rule set_update_distinct)
    moreover have "distinct (xs[j := x])" using d by (intro distinct_list_update) auto
    ultimately show ?thesis using d j by (auto simp: nth_append)
  qed
qed simp

lemma caps_ok_update: "caps_ok k \<Longrightarrow> distinct cs \<Longrightarrow> length cs \<le> 16 \<Longrightarrow> caps_ok (k\<lparr>proc_table := (proc_table k)[i := p\<lparr>pr_caps := cs\<rparr>]\<rparr>)"
  unfolding caps_ok_def using set_update_subset_insert by fastforce

lemma reaped_unknown:
  assumes "procs_ok k" and "process_get pid k = Some i"
  shows "scan (\<lambda>p. pr_pid p = pid \<and> pr_state p \<noteq> PROC_STATE_EMPTY) ((proc_table k)[i := process_zero]) = None"
proof -
  have i: "i < length (proc_table k)" "pr_pid (proc_table k ! i) = pid" "pr_state (proc_table k ! i) \<noteq> PROC_STATE_EMPTY" using process_get_Some [OF assms(2)] by auto
  have "j = i" if "j < length (proc_table k)" "pr_pid (proc_table k ! j) = pid" "pr_state (proc_table k ! j) \<noteq> PROC_STATE_EMPTY" for j
    using process_get_unique [OF assms(1) that(1,3)] that(2) assms(2) by simp
  then have "\<not> (pr_pid ((proc_table k)[i := process_zero] ! j) = pid \<and> pr_state ((proc_table k)[i := process_zero] ! j) \<noteq> PROC_STATE_EMPTY)" if "j < length (proc_table k)" for j
    using that i(1) by (cases "j = i") auto
  then show ?thesis unfolding scan_None_iff by (metis in_set_conv_nth length_list_update)
qed

lemma state_counts:
  "length (filter (\<lambda>p. pr_state p = PROC_STATE_RUNNING) (filter (\<lambda>p. pr_state p \<noteq> PROC_STATE_EMPTY) ps)) +
   length (filter (\<lambda>p. pr_state p = PROC_STATE_SLEEPING) (filter (\<lambda>p. pr_state p \<noteq> PROC_STATE_EMPTY) ps)) +
   length (filter (\<lambda>p. pr_state p = PROC_STATE_ZOMBIE) (filter (\<lambda>p. pr_state p \<noteq> PROC_STATE_EMPTY) ps)) +
   length (filter (\<lambda>p. pr_state p = PROC_STATE_STOPPED) (filter (\<lambda>p. pr_state p \<noteq> PROC_STATE_EMPTY) ps)) =
   length (filter (\<lambda>p. pr_state p \<noteq> PROC_STATE_EMPTY) ps)"
proof (induction ps)
  case (Cons p ps)
  then show ?case by (cases "pr_state p") simp_all
qed simp

lemma selftest_ok: "procs_ok k \<Longrightarrow> proc_table_cleanup_ready k \<Longrightarrow> process_table_cleanup_selftest k = AEGIS_OK"
proof -
  assume ok: "procs_ok k" "proc_table_cleanup_ready k"
  then have "length (filter (\<lambda>p. pr_state p \<noteq> PROC_STATE_EMPTY) (proc_table k)) \<le> MAX_PROCESSES"
    using length_filter_le [of "\<lambda>p. pr_state p \<noteq> PROC_STATE_EMPTY" "proc_table k"] by (simp add: procs_ok_def pids_ok_def)
  then show ?thesis
    using ok procs_ok_clean [OF ok(1)] state_counts [of "proc_table k"]
    by (simp add: process_table_cleanup_selftest_def process_table_stats_def Let_def procs_ok_def del: filter_filter)
qed

section \<open>A concrete kernel\<close>

text \<open>The first process and its child, which runs, with their tasks on the heap.\<close>

definition demo_procs :: "process list" where
  "demo_procs = [process_zero\<lparr>pr_pid := 1, pr_state := PROC_STATE_RUNNING, pr_task := Some 4120, pr_name := ''aegis-init''\<rparr>,
     process_zero\<lparr>pr_pid := 2, pr_ppid := 1, pr_state := PROC_STATE_RUNNING, pr_task := Some 4624, pr_runtime_slot := 2, pr_name := ''logger''\<rparr>]"

definition demo_sched :: sched where
  "demo_sched = \<lparr>task_list = [(demo_task 4120 TASK_READY)\<lparr>t_stack_base := 4344\<rparr>, (demo_task 4624 TASK_RUNNING)\<lparr>t_stack_base := 4848\<rparr>],
     current_task = Some 4624, idle_task = None, next_tid = 3\<rparr>"

definition demo_kernel :: kernel where
  "demo_kernel = \<lparr>proc_table = demo_procs @ replicate 254 process_zero, next_pid = 3, proc_table_cleanup_ready = False,
     k_heap = \<lparr>heap_blocks = [\<lparr>hb_addr = 4096, hb_size = 200, hb_free = False\<rparr>, \<lparr>hb_addr = 4320, hb_size = 256, hb_free = False\<rparr>,
       \<lparr>hb_addr = 4600, hb_size = 200, hb_free = False\<rparr>, \<lparr>hb_addr = 4824, hb_size = 256, hb_free = False\<rparr>], heap_bytes = (\<lambda>_. 0)\<rparr>,
     k_sched = demo_sched, k_fds = fd_table_init \<lparr>g_fd = [], fd_closed = []\<rparr>,
     k_elf = \<lparr>runtime_slots = zero_slot # zero_slot\<lparr>sl_used := True\<rparr> # replicate 14 zero_slot, builtin_info = zero_info, loader_initialised = True, builtin_ready = False,
       pt_load_segments_copied = False, permissions_ready = False, builtin_runtime_slot = 0\<rparr>,
     k_user = userland_handoff_init, k_sup = service_supervisor_init, k_ticks = 0, k_sockets_closed = []\<rparr>"

lemma demo_procs_ok: "procs_ok demo_kernel"
proof -
  have l: "live_of (proc_table demo_kernel) = [Some 1, Some 2] @ replicate 254 None" by (simp add: live_of_def demo_kernel_def demo_procs_def)
  have "pids_ok ([Some 1, Some 2] @ replicate 254 None) 3"
    unfolding pids_ok_def by (auto simp: MAX_PROCESSES_def nth_append nth_Cons less_Suc_eq split: nat.splits if_splits)
  then show ?thesis unfolding procs_ok_def l by (auto simp: demo_kernel_def demo_procs_def empties_idle_def process_zero_def)
qed

lemma demo_sched_inv: "sched_inv 4096 5104 (k_heap demo_kernel, k_sched demo_kernel)"
  by (simp add: sched_inv_def heap_inv_def demo_kernel_def demo_sched_def sched_ok_def owns_def task_blocks_def demo_task_def heap_live_def payload_def)

lemma demo_exit: "\<exists>c k1. process_exit 0 zero_context 7 demo_kernel = Some (c, k1) \<and> process_getpid k1 = 1"
  by (simp add: demo_kernel_def demo_procs_def demo_sched_def process_exit_def scheduler_current_def destroy_task_def task_destroy_def scheduler_yield_def task_at_def
      update_task_def demo_task_def ring_after_def next_ready_def context_switch_def process_getpid_def process_current_def close_files_def process_zero_def Let_def)

section \<open>Properties\<close>

text \<open>
  C35. Pids are unique: after any sequence of creations, exits, kills, waits and other operations in which the pid counter does not wrap, no two live processes have the same pid, none
  has pid 0, every live process is found under its pid, and preparing the table and its self test succeed.
\<close>

theorem process_pids_unique:
  assumes "proc_reach k"
  shows "(\<forall>i<MAX_PROCESSES. pr_state (proc_table k ! i) \<noteq> PROC_STATE_EMPTY \<longrightarrow> pr_pid (proc_table k ! i) \<noteq> 0 \<and> process_get (pr_pid (proc_table k ! i)) k = Some i) \<and>
    fst (process_table_cleanup_prepare k) = AEGIS_OK \<and> process_table_cleanup_selftest (snd (process_table_cleanup_prepare k)) = AEGIS_OK"
proof -
  have ok: "procs_ok k" using assms by (rule proc_reach_ok)
  then have len: "length (proc_table k) = MAX_PROCESSES" by (simp add: procs_ok_def pids_ok_def)
  have nz: "pr_pid (proc_table k ! i) \<noteq> 0" if "i < MAX_PROCESSES" "pr_state (proc_table k ! i) \<noteq> PROC_STATE_EMPTY" for i
    using ok that len by (auto simp: procs_ok_def pids_ok_def live_of_def)
  let ?k = "k\<lparr>proc_table := map (\<lambda>p. if pr_state p = PROC_STATE_EMPTY then process_zero else p) (proc_table k)\<rparr>"
  have "live_of (proc_table ?k) = live_of (proc_table k)" by (simp add: live_of_def)
  moreover have "empties_idle (proc_table ?k)" by (auto simp: empties_idle_def process_zero_def)
  ultimately have ok': "procs_ok ?k" "procs_ok (?k\<lparr>proc_table_cleanup_ready := True\<rparr>)" using ok by (simp_all add: procs_ok_def)
  then have "process_table_cleanup_prepare k = (AEGIS_OK, ?k\<lparr>proc_table_cleanup_ready := True\<rparr>)"
    using procs_ok_clean [OF ok'(1)] by (simp add: process_table_cleanup_prepare_def Let_def)
  then show ?thesis using nz process_get_unique [OF ok] len selftest_ok [OF ok'(2)] by simp
qed

lemma process_pids_unique_witness: "process_table_cleanup_selftest (snd (process_table_cleanup_prepare (process_init demo_kernel))) = AEGIS_OK"
  using process_pids_unique [OF reach_init] by blast

text \<open>
  C34. An exit reaches the parent: when the current user process exits and its parent runs next, waiting for it succeeds with exactly its exit code; afterwards the pid is
  unknown, the process has no open descriptor, its task is gone from the scheduler and its image slot is free.
\<close>

theorem exit_then_wait:
  assumes "procs_ok k" and "sched_inv lo hi (k_heap k, k_sched k)" and "fds_ok (k_fds k)" and "process_current k = Some i" and "p = proc_table k ! i"
    and "process_exit clock cpu code k = Some (c, k1)" and "process_getpid k1 = pr_ppid p" and "pr_ppid p \<noteq> pr_pid p" and "\<not> pr_owns_stack p"
    and "loader_initialised (k_elf k)" and "length (runtime_slots (k_elf k)) = AEGIS_ELF_RUNTIME_MAX" and "pr_runtime_slot p \<noteq> 0"
    and "unat (pr_runtime_slot p) \<le> AEGIS_ELF_RUNTIME_MAX" and "pr_runtime_slot p \<noteq> builtin_runtime_slot (k_elf k)"
    and "sl_used (runtime_slots (k_elf k) ! (unat (pr_runtime_slot p) - 1))"
    and "fst (userland_mark_feature_native_exited (Some (process_copy_name (Some (pr_name p)))) (pr_pid p) code (k_user k)) \<in> {AEGIS_OK, AEGIS_ENOENT}"
  shows "\<exists>k2. process_wait (pr_pid p) k1 = Some (AEGIS_OK, Some code, k2) \<and> process_get (pr_pid p) k2 = None \<and>
    fd_map (k_fds k2) (pr_pid p) = (\<lambda>_. None) \<and> pr_task p \<notin> Some ` t_addr ` set (task_list (k_sched k2)) \<and>
    \<not> sl_used (runtime_slots (k_elf k2) ! (unat (pr_runtime_slot p) - 1))"
proof -
  note e = exit_effect [OF assms(1,2,4,6), folded assms(5), OF assms(8)]
  obtain a where a: "pr_task p = Some a" using assms(4,5) by (auto simp: process_current_def scan_Some_iff split: option.splits)
  have g: "process_get (pr_pid p) k1 = Some i" using process_get_unique [OF e(2,1)] e(5) by simp
  obtain h3 s3 where d: "task_destroy (Some a) (k_heap k1, k_sched k1) = Some (h3, s3)"
    using task_destroy_safe e(3) unfolding sched_inv_def by blast
  have rem: "a \<notin> t_addr ` set (task_list s3)" using destroy_removes [OF _ _ d] e(3,4) a by (simp add: sched_inv_def)
  obtain e' where r: "elf_loader_release_runtime_slot (pr_runtime_slot p) (k_elf k1) = (AEGIS_OK, e')" "\<not> sl_used (runtime_slots e' ! (unat (pr_runtime_slot p) - 1))"
    using release_slot [OF assms(10,12,13,14,15,11)] e(6) by auto
  obtain rc u where u: "userland_mark_feature_native_exited (Some (process_copy_name (Some (pr_name p)))) (pr_pid p) code (k_user k) = (rc, u)" "rc = AEGIS_OK \<or> rc = AEGIS_ENOENT"
    using assms(16) by (cases "userland_mark_feature_native_exited (Some (process_copy_name (Some (pr_name p)))) (pr_pid p) code (k_user k)") auto
  define k2 where "k2 = k1\<lparr>k_heap := h3, k_sched := s3, k_elf := e', k_user := u, proc_table := (proc_table k1)[i := process_zero]\<rparr>"
  have "process_wait (pr_pid p) k1 = Some (AEGIS_OK, Some code, k2)"
    using g e(5,7) assms(7,9,12) a d r(1) u by (auto simp: process_wait_def Let_def destroy_task_def k2_def)
  moreover have "process_get (pr_pid p) k2 = None" using reaped_unknown [OF e(2) g] by (simp add: k2_def process_get_def)
  moreover have "fd_map (k_fds k2) (pr_pid p) = (\<lambda>_. None)" using fd_close_all_map [OF assms(3), of "pr_pid p"] e(8) by (simp add: k2_def)
  ultimately show ?thesis using rem a r(2) by (auto simp: k2_def)
qed

lemma exit_then_wait_witness:
  "\<exists>c k1 k2. process_exit 0 zero_context 7 demo_kernel = Some (c, k1) \<and> process_wait 2 k1 = Some (AEGIS_OK, Some 7, k2)"
proof -
  obtain c k1 where e: "process_exit 0 zero_context 7 demo_kernel = Some (c, k1)" "process_getpid k1 = 1" using demo_exit by blast
  have c: "process_current demo_kernel = Some 1" by (simp add: process_current_def scheduler_current_def demo_kernel_def demo_sched_def demo_procs_def process_zero_def)
  have u: "fst (userland_mark_feature_native_exited (Some n) 2 7 userland_handoff_init) = AEGIS_ENOENT" for n
    by (simp add: userland_mark_feature_native_exited_def userland_find_feature_mut_def find_feature_index_def userland_handoff_init_def zero_handoff_def)
  have f: "fds_ok (k_fds demo_kernel)" by (simp add: demo_kernel_def fds_ok_def fd_table_init_def)
  show ?thesis
    using exit_then_wait [OF demo_procs_ok demo_sched_inv f c refl e(1)] e u
    by (fastforce simp: demo_kernel_def demo_procs_def process_zero_def AEGIS_ELF_RUNTIME_MAX_def)
qed

text \<open>
  C36. Capabilities are bounded sets: granting adds exactly that capability to exactly that process and fails only for an unknown process or a full set, revoking removes
  exactly that capability and fails only where it is not held, and what a process holds is what the query reports.
\<close>

theorem process_caps_refine_sets:
  assumes "caps_ok k"
  shows "(\<forall>q c. process_has_cap q c k \<longleftrightarrow> (\<exists>C. caps_of k q = Some C \<and> c \<in> C)) \<and>
    (let (rc, k') = process_grant_cap pid cap k in caps_ok k' \<and>
      (case caps_of k pid of
         None \<Rightarrow> rc = AEGIS_ENOENT \<and> k' = k
       | Some C \<Rightarrow> if cap \<notin> C \<and> card C = 16 then rc = AEGIS_ENOMEM \<and> k' = k else rc = AEGIS_OK \<and> caps_of k' = (caps_of k)(pid := Some (insert cap C)))) \<and>
    (let (rc, k') = process_revoke_cap pid cap k in caps_ok k' \<and>
      (case caps_of k pid of
         None \<Rightarrow> rc = AEGIS_ENOENT \<and> k' = k
       | Some C \<Rightarrow> if cap \<notin> C then rc = AEGIS_ENOENT \<and> k' = k else rc = AEGIS_OK \<and> caps_of k' = (caps_of k)(pid := Some (C - {cap}))))"
proof (intro conjI)
  show "\<forall>q c. process_has_cap q c k \<longleftrightarrow> (\<exists>C. caps_of k q = Some C \<and> c \<in> C)"
    by (auto simp: process_has_cap_def caps_of_def split: option.splits)
  show "let (rc, k') = process_grant_cap pid cap k in caps_ok k' \<and>
      (case caps_of k pid of
         None \<Rightarrow> rc = AEGIS_ENOENT \<and> k' = k
       | Some C \<Rightarrow> if cap \<notin> C \<and> card C = 16 then rc = AEGIS_ENOMEM \<and> k' = k else rc = AEGIS_OK \<and> caps_of k' = (caps_of k)(pid := Some (insert cap C)))"
  proof (cases "process_get pid k")
    case None
    then show ?thesis using assms by (simp add: process_grant_cap_def caps_of_def)
  next
    case (Some i)
    have d: "distinct (pr_caps (proc_table k ! i))" "length (pr_caps (proc_table k ! i)) \<le> 16" using assms process_get_Some [OF Some] by (auto simp: caps_ok_def)
    show ?thesis using Some d caps_update [OF Some, of "pr_caps (proc_table k ! i) @ [cap]"] caps_ok_update [OF assms, of "pr_caps (proc_table k ! i) @ [cap]" i]
      by (auto simp: process_grant_cap_def Let_def caps_of_def [of k] distinct_card insert_absorb fun_upd_idem assms split: if_splits)
  qed
  show "let (rc, k') = process_revoke_cap pid cap k in caps_ok k' \<and>
      (case caps_of k pid of
         None \<Rightarrow> rc = AEGIS_ENOENT \<and> k' = k
       | Some C \<Rightarrow> if cap \<notin> C then rc = AEGIS_ENOENT \<and> k' = k else rc = AEGIS_OK \<and> caps_of k' = (caps_of k)(pid := Some (C - {cap})))"
  proof (cases "process_get pid k")
    case None
    then show ?thesis using assms by (simp add: process_revoke_cap_def caps_of_def)
  next
    case (Some i)
    let ?cs = "pr_caps (proc_table k ! i)"
    have d: "distinct ?cs" "length ?cs \<le> 16" using assms process_get_Some [OF Some] by (auto simp: caps_ok_def)
    show ?thesis
    proof (cases "scan (\<lambda>c. c = cap) ?cs")
      case None
      then show ?thesis using Some assms by (auto simp: process_revoke_cap_def Let_def caps_of_def simp del: scan_None_iff dest: scan_None_iff [THEN iffD1])
    next
      case j: (Some j)
      then have "j < length ?cs" "?cs ! j = cap" by (auto simp: scan_Some_iff)
      then show ?thesis using Some j d revoke_set [OF d(1), of j] caps_update [OF Some, of "butlast (?cs[j := last ?cs])"] caps_ok_update [OF assms, of "butlast (?cs[j := last ?cs])" i]
        by (auto simp: process_revoke_cap_def Let_def caps_of_def [of k])
    qed
  qed
qed

lemma process_caps_refine_sets_witness: "process_has_cap 2 0xCAFE (snd (process_grant_cap 2 0xCAFE demo_kernel))"
proof -
  have g: "process_get 2 demo_kernel = Some 1" by (simp add: process_get_def demo_kernel_def demo_procs_def process_zero_def)
  have ok: "caps_ok demo_kernel" by (auto simp: caps_ok_def demo_kernel_def demo_procs_def process_zero_def)
  have c: "caps_of demo_kernel 2 = Some {}" using g by (simp add: caps_of_def demo_kernel_def demo_procs_def process_zero_def)
  have "caps_ok (snd (process_grant_cap 2 0xCAFE demo_kernel))" "caps_of (snd (process_grant_cap 2 0xCAFE demo_kernel)) 2 = Some {0xCAFE}"
    using process_caps_refine_sets [OF ok, of 2 "0xCAFE"] c by (auto split: prod.splits)
  then show ?thesis using process_caps_refine_sets [of "snd (process_grant_cap 2 0xCAFE demo_kernel)" 2 0] by auto
qed

end
