(* ===== verification/Spec2Isabelle.thy ===== *)
theory Spec2Isabelle
  imports Phys_Memory Heap Page_Tables Service_Manager Userland_Proofs Capabilities Supervisor_Proofs Scheduler_Proofs Timers Fd_Table Elf_Proofs Process_Proofs
begin

text \<open>
  A verification library for the kernel of AegisOS.

  \<^bold>\<open>The program.\<close>  The kernel (src/kernel) manages physical pages, a heap and page tables, schedules tasks,
  passes messages between services, keeps a registry of services and of the first user processes, and supervises
  them.  Each part keeps its state in file-level C variables; here it is a record that the operations take and return.

  \<^bold>\<open>Conventions.\<close>  A \<open>u8\<close> to \<open>u64\<close> is a word of that width, with wrap-around; C tables are lists of fixed
  length; C strings are character lists without the NUL; a pointer that may be NULL is an option; result codes are integers.  A chain of early returns
  is \<open>first_fail\<close>, a search loop over a table is \<open>scan\<close>.  \<open>PANIC\<close> and undefined behaviour are the value \<open>None\<close>.

  \<^bold>\<open>Theories.\<close>
  \<^item> \<open>Aegis_Prelude\<close>: types, codes, scans, strings, word lemmas, and the contract \<open>slot_table\<close> of tables searched by a key.
  \<^item> \<open>Phys_Memory\<close> (memory/physical_memory.c), \<open>Heap\<close> (memory/heap.c), \<open>Page_Tables\<close> (memory/page_tables.c, virtual_memory.c).
  \<^item> \<open>Scheduler\<close>, \<open>Scheduler_Proofs\<close> (core/scheduler.c, boot/arm64/context_switch.S) over the heap.
  \<^item> \<open>Messages\<close>, \<open>Channels\<close>, \<open>Capabilities\<close>, \<open>Service_IPC\<close> (ipc/*.c).
  \<^item> \<open>Service_Manager\<close> (core/service_manager.c), \<open>Userland_State\<close>, \<open>Userland\<close>, \<open>Userland_Layout\<close>,
    \<open>Userland_Proofs\<close> (core/userland.c), \<open>Exceptions\<close> (core/exception.c), \<open>Supervisor\<close>, \<open>Supervisor_Proofs\<close> (core/service_supervisor.c).
\<close>

end
